(* ===== verification/Prelude.thy ===== *)
theory Prelude
  imports Main
begin

text \<open>
  What every other theory of the development shares: Python's exceptions as a datatype, programs
  as state transformers that return a value or an exception, the control structures the code uses
  (sequencing, \<^verbatim>\<open>try/except\<close>, \<^verbatim>\<open>try/finally\<close>, \<^verbatim>\<open>for\<close>), frame and Hoare rules for
  them, and the generic lemmas on lists that model a table of rows.

  Collections: \<open>prog_simps\<close> computes a program on a state, \<open>frame_intros\<close> proves that a program
  leaves a part of its state alone, \<open>triple_intros\<close> are the proof rules of the Hoare triples,
  \<open>yields_intros\<close> prove that a program always returns a value, \<open>raises_intros\<close> bound the
  exceptions it may raise.
\<close>

named_theorems prog_simps and frame_intros and triple_intros and yields_intros
  and raises_intros

section \<open>Exceptions\<close>

text \<open>
  The exceptions the code raises or catches, each with the text \<^verbatim>\<open>str(exc)\<close> gives. The last
  group stands for the errors of the JWT library that \<^verbatim>\<open>auth.py\<close> tells apart.
  Exceptions outside \<^verbatim>\<open>Exception\<close> (\<^verbatim>\<open>KeyboardInterrupt\<close>) reach the main thread
  only, never the worker threads that run this code, and are not modelled.
\<close>

datatype exn =
    TunnelError (exn_str: string)
  | MySQLOpsError (exn_str: string)
  | DockerOpsError (exn_str: string)
  | CreateSessionError (exn_category: string) (exn_sid: string) (exn_str: string)
  | ValueError (exn_str: string)
  | KeyError (exn_str: string)
  | TypeError (exn_str: string)
  | NameError (exn_str: string)
  | RuntimeError (exn_str: string)
  | PermissionError (exn_str: string)
  | FileNotFoundError (exn_str: string)
  | OSError (exn_str: string)
  | TimeoutExpired (exn_str: string)
  | IntegrityError (exn_str: string)
  | ValidationError (exn_str: string)
  | HTTPException (exn_status: int) (exn_str: string)
  | PyJWKClientConnectionError (exn_str: string)
  | PyJWKClientError (exn_str: string)
  | ExpiredSignatureError (exn_str: string)
  | InvalidAudienceError (exn_str: string)
  | InvalidTokenError (exn_str: string)

section \<open>Programs\<close>

text \<open>
  A program over a state \<open>'w\<close> returns an exception (\<open>Inl\<close>) or a value (\<open>Inr\<close>), with the state
  it leaves; an exception does not undo the effects before it.
\<close>

type_synonym ('w, 'a) prog = "'w \<Rightarrow> (exn + 'a) \<times> 'w"

definition ret :: "'a \<Rightarrow> ('w, 'a) prog" where
  "ret a = (\<lambda>w. (Inr a, w))"

definition throw :: "exn \<Rightarrow> ('w, 'a) prog" where
  "throw e = (\<lambda>w. (Inl e, w))"

definition bindE :: "('w, 'a) prog \<Rightarrow> ('a \<Rightarrow> ('w, 'b) prog) \<Rightarrow> ('w, 'b) prog" where
  "bindE m f = (\<lambda>w. case m w of (Inl e, w') \<Rightarrow> (Inl e, w') | (Inr a, w') \<Rightarrow> f a w')"

definition thenE :: "('w, 'a) prog \<Rightarrow> ('w, 'b) prog \<Rightarrow> ('w, 'b) prog" where
  "thenE m n = bindE m (\<lambda>_. n)"

definition liftE :: "exn + 'a \<Rightarrow> ('w, 'a) prog" where
  "liftE r = (\<lambda>w. (r, w))"

definition getsW :: "('w \<Rightarrow> 'a) \<Rightarrow> ('w, 'a) prog" where
  "getsW f = (\<lambda>w. (Inr (f w), w))"

text \<open>\<^verbatim>\<open>try: m / except Exception as e: h(e)\<close>; the handler may raise again.\<close>

definition catchE :: "('w, 'a) prog \<Rightarrow> (exn \<Rightarrow> ('w, 'a) prog) \<Rightarrow> ('w, 'a) prog" where
  "catchE m h = (\<lambda>w. case m w of (Inl e, w') \<Rightarrow> h e w' | (Inr a, w') \<Rightarrow> (Inr a, w'))"

text \<open>\<^verbatim>\<open>try: m / except Exception: log.exception(...)\<close>: the exception ends there.\<close>

definition quietE :: "('w, unit) prog \<Rightarrow> ('w, unit) prog" where
  "quietE m = catchE m (\<lambda>_. ret ())"

text \<open>\<^verbatim>\<open>try: m / finally: f\<close>: \<open>f\<close> runs on both paths, and its own exception wins.\<close>

definition finallyE :: "('w, 'a) prog \<Rightarrow> ('w, unit) prog \<Rightarrow> ('w, 'a) prog" where
  "finallyE m f = (\<lambda>w. case m w of (r, w') \<Rightarrow>
     (case f w' of (Inl e, w'') \<Rightarrow> (Inl e, w'') | (Inr _, w'') \<Rightarrow> (r, w'')))"

fun for_eachE :: "('a \<Rightarrow> ('w, unit) prog) \<Rightarrow> 'a list \<Rightarrow> ('w, unit) prog" where
  "for_eachE f [] = ret ()"
| "for_eachE f (x # xs) = thenE (f x) (for_eachE f xs)"

fun map_eachE :: "('a \<Rightarrow> ('w, 'b) prog) \<Rightarrow> 'a list \<Rightarrow> ('w, 'b list) prog" where
  "map_eachE f [] = ret []"
| "map_eachE f (x # xs) = bindE (f x) (\<lambda>y. bindE (map_eachE f xs) (\<lambda>ys. ret (y # ys)))"

subsection \<open>Computing a program\<close>

lemma ret_apply [prog_simps]: "ret a w = (Inr a, w)"
  by (simp add: ret_def)

lemma throw_apply [prog_simps]: "throw e w = (Inl e, w)"
  by (simp add: throw_def)

lemma liftE_apply [prog_simps]: "liftE r w = (r, w)"
  by (simp add: liftE_def)

lemma getsW_apply [prog_simps]: "getsW f w = (Inr (f w), w)"
  by (simp add: getsW_def)

lemma bindE_apply [prog_simps]:
  "bindE m f w = (case m w of (Inl e, w') \<Rightarrow> (Inl e, w') | (Inr a, w') \<Rightarrow> f a w')"
  by (simp add: bindE_def)

lemma thenE_apply [prog_simps]:
  "thenE m n w = (case m w of (Inl e, w') \<Rightarrow> (Inl e, w') | (Inr a, w') \<Rightarrow> n w')"
  by (simp add: thenE_def bindE_def)

lemma catchE_apply [prog_simps]:
  "catchE m h w = (case m w of (Inl e, w') \<Rightarrow> h e w' | (Inr a, w') \<Rightarrow> (Inr a, w'))"
  by (simp add: catchE_def)

lemma quietE_apply [prog_simps]: "quietE m w = (Inr (), snd (m w))"
  by (simp add: quietE_def catchE_def ret_def split: prod.split sum.split)

lemma finallyE_apply [prog_simps]:
  "finallyE m f w = (case m w of (r, w') \<Rightarrow>
     (case f w' of (Inl e, w'') \<Rightarrow> (Inl e, w'') | (Inr _, w'') \<Rightarrow> (r, w'')))"
  by (simp add: finallyE_def)

text \<open>How a composed program ends: the facts the triples and the component proofs invert.\<close>

lemma bindE_Inr:
  "bindE m f w = (Inr b, w') \<longleftrightarrow> (\<exists>a w1. m w = (Inr a, w1) \<and> f a w1 = (Inr b, w'))"
  by (auto simp: bindE_def split: prod.splits sum.splits)

lemma bindE_Inl:
  "bindE m f w = (Inl e, w') \<longleftrightarrow>
     m w = (Inl e, w') \<or> (\<exists>a w1. m w = (Inr a, w1) \<and> f a w1 = (Inl e, w'))"
  by (auto simp: bindE_def split: prod.splits sum.splits)

lemma thenE_Inr:
  "thenE m n w = (Inr b, w') \<longleftrightarrow> (\<exists>a w1. m w = (Inr a, w1) \<and> n w1 = (Inr b, w'))"
  by (simp add: thenE_def bindE_Inr)

lemma thenE_Inl:
  "thenE m n w = (Inl e, w') \<longleftrightarrow>
     m w = (Inl e, w') \<or> (\<exists>a w1. m w = (Inr a, w1) \<and> n w1 = (Inl e, w'))"
  by (simp add: thenE_def bindE_Inl)

lemma catchE_Inr:
  "catchE m h w = (Inr a, w') \<longleftrightarrow>
     m w = (Inr a, w') \<or> (\<exists>e w1. m w = (Inl e, w1) \<and> h e w1 = (Inr a, w'))"
  by (auto simp: catchE_def split: prod.splits sum.splits)

lemma catchE_Inl:
  "catchE m h w = (Inl e', w') \<longleftrightarrow> (\<exists>e w1. m w = (Inl e, w1) \<and> h e w1 = (Inl e', w'))"
  by (auto simp: catchE_def split: prod.splits sum.splits)

text \<open>The laws of sequencing.\<close>

lemma bindE_ret [simp]: "bindE (ret a) f = f a"
  by (simp add: bindE_def ret_def)

lemma bindE_throw [simp]: "bindE (throw e) f = throw e"
  by (simp add: bindE_def throw_def)

lemma bindE_ret_right [simp]: "bindE m ret = m"
  by (rule ext) (simp add: bindE_def ret_def split: prod.split sum.split)

lemma bindE_assoc: "bindE (bindE m f) g = bindE m (\<lambda>a. bindE (f a) g)"
  by (rule ext) (simp add: bindE_def split: prod.split sum.split)

lemma for_eachE_append:
  "for_eachE f (xs @ ys) = thenE (for_eachE f xs) (for_eachE f ys)"
  by (induction xs) (simp_all add: thenE_def bindE_assoc)

subsection \<open>Frames: what a program leaves alone\<close>

definition frames :: "('w \<Rightarrow> 'b) \<Rightarrow> ('w, 'a) prog \<Rightarrow> bool" where
  "frames f m \<longleftrightarrow> (\<forall>w. f (snd (m w)) = f w)"

lemma framesI: "(\<And>w. f (snd (m w)) = f w) \<Longrightarrow> frames f m"
  by (simp add: frames_def)

lemma framesD: "frames f m \<Longrightarrow> m w = (r, w') \<Longrightarrow> f w' = f w"
  by (metis frames_def snd_conv)

lemma frames_ret [frame_intros]: "frames f (ret a)"
  and frames_throw [frame_intros]: "frames f (throw e)"
  and frames_liftE [frame_intros]: "frames f (liftE r)"
  and frames_getsW [frame_intros]: "frames f (getsW g)"
  by (simp_all add: frames_def prog_simps)

lemma frames_bindE [frame_intros]:
  "frames f m \<Longrightarrow> (\<And>a. frames f (n a)) \<Longrightarrow> frames f (bindE m n)"
  unfolding frames_def bindE_def by (auto split: prod.split sum.split) (metis snd_conv)+

lemma frames_thenE [frame_intros]:
  "frames f m \<Longrightarrow> frames f n \<Longrightarrow> frames f (thenE m n)"
  unfolding thenE_def by (rule frames_bindE)

lemma frames_catchE [frame_intros]:
  "frames f m \<Longrightarrow> (\<And>e. frames f (h e)) \<Longrightarrow> frames f (catchE m h)"
  by (auto simp: frames_def catchE_def split: prod.split sum.split) (metis snd_conv)+

lemma frames_quietE [frame_intros]: "frames f m \<Longrightarrow> frames f (quietE m)"
  by (simp add: frames_def quietE_apply)

lemma frames_finallyE [frame_intros]:
  "frames f m \<Longrightarrow> frames f n \<Longrightarrow> frames f (finallyE m n)"
  by (auto simp: frames_def finallyE_def split: prod.split sum.split) (metis snd_conv)+

lemma frames_for_eachE [frame_intros]:
  "(\<And>x. frames f (g x)) \<Longrightarrow> frames f (for_eachE g xs)"
  by (induction xs) (auto intro: frame_intros)

lemma frames_map_eachE [frame_intros]:
  "(\<And>x. frames f (g x)) \<Longrightarrow> frames f (map_eachE g xs)"
  by (induction xs) (auto intro: frame_intros)

lemma frames_if [frame_intros]:
  "frames f m \<Longrightarrow> frames f n \<Longrightarrow> frames f (if b then m else n)"
  by simp

subsection \<open>Hoare triples with an exceptional postcondition\<close>

definition triple ::
    "('w \<Rightarrow> bool) \<Rightarrow> ('w, 'a) prog \<Rightarrow> ('a \<Rightarrow> 'w \<Rightarrow> bool) \<Rightarrow> ('w \<Rightarrow> bool) \<Rightarrow> bool" where
  "triple P m Q E \<longleftrightarrow>
     (\<forall>w. P w \<longrightarrow> (case m w of (Inl _, w') \<Rightarrow> E w' | (Inr a, w') \<Rightarrow> Q a w'))"

lemma tripleI:
  assumes "\<And>w a w'. P w \<Longrightarrow> m w = (Inr a, w') \<Longrightarrow> Q a w'"
    and "\<And>w e w'. P w \<Longrightarrow> m w = (Inl e, w') \<Longrightarrow> E w'"
  shows "triple P m Q E"
  using assms by (auto simp: triple_def split: prod.split sum.split)

lemma triple_Inr: "triple P m Q E \<Longrightarrow> P w \<Longrightarrow> m w = (Inr a, w') \<Longrightarrow> Q a w'"
  by (simp add: triple_def) (metis (no_types, lifting) case_prod_conv sum.simps(6))

lemma triple_Inl: "triple P m Q E \<Longrightarrow> P w \<Longrightarrow> m w = (Inl e, w') \<Longrightarrow> E w'"
  by (simp add: triple_def) (metis (no_types, lifting) case_prod_conv sum.simps(5))

lemma triple_snd:
  assumes "triple P m (\<lambda>_. Q) Q" and "P w"
  shows "Q (snd (m w))"
proof (cases "m w")
  case (Pair r w')
  then show ?thesis
    using triple_Inr[OF assms] triple_Inl[OF assms] by (cases r) auto
qed

lemma triple_conseq:
  assumes "triple P' m Q' E'" and "\<And>w. P w \<Longrightarrow> P' w"
    and "\<And>a w. Q' a w \<Longrightarrow> Q a w" and "\<And>w. E' w \<Longrightarrow> E w"
  shows "triple P m Q E"
  by (rule tripleI) (blast intro: assms triple_Inr[OF assms(1)] triple_Inl[OF assms(1)])+

lemma triple_ret [triple_intros]: "(\<And>w. P w \<Longrightarrow> Q a w) \<Longrightarrow> triple P (ret a) Q E"
  by (simp add: triple_def ret_def)

lemma triple_throw [triple_intros]: "(\<And>w. P w \<Longrightarrow> E w) \<Longrightarrow> triple P (throw e) Q E"
  by (simp add: triple_def throw_def)

lemma triple_bindE:
  assumes m: "triple P m R E" and n: "\<And>a. triple (R a) (n a) Q E"
  shows "triple P (bindE m n) Q E"
proof (rule tripleI)
  fix w b w' assume "P w" and "bindE m n w = (Inr b, w')"
  then show "Q b w'"
    by (auto simp: bindE_Inr intro: triple_Inr[OF n] dest: triple_Inr[OF m])
next
  fix w e w' assume "P w" and "bindE m n w = (Inl e, w')"
  then show "E w'"
    by (auto simp: bindE_Inl intro: triple_Inl[OF m] triple_Inl[OF n] dest: triple_Inr[OF m])
qed

lemma triple_thenE:
  "triple P m (\<lambda>_. R) E \<Longrightarrow> triple R n Q E \<Longrightarrow> triple P (thenE m n) Q E"
  unfolding thenE_def by (rule triple_bindE)

lemma triple_catchE:
  assumes m: "triple P m Q R" and h: "\<And>e. triple R (h e) Q E"
  shows "triple P (catchE m h) Q E"
proof (rule tripleI)
  fix w b w' assume "P w" and "catchE m h w = (Inr b, w')"
  then show "Q b w'"
    by (auto simp: catchE_Inr intro: triple_Inr[OF m] triple_Inr[OF h] dest: triple_Inl[OF m])
next
  fix w e w' assume "P w" and "catchE m h w = (Inl e, w')"
  then show "E w'"
    by (auto simp: catchE_Inl intro: triple_Inl[OF h] dest: triple_Inl[OF m])
qed

lemma triple_quietE: "triple P m (\<lambda>_. Q) Q \<Longrightarrow> triple P (quietE m) (\<lambda>_. Q) E"
  unfolding quietE_def by (erule triple_catchE) (rule triple_ret)

lemma triple_for_eachE:
  "(\<And>x. x \<in> set xs \<Longrightarrow> triple P (f x) (\<lambda>_. P) E) \<Longrightarrow> triple P (for_eachE f xs) (\<lambda>_. P) E"
proof (induction xs)
  case Nil
  show ?case by (simp add: triple_ret)
next
  case (Cons x xs)
  then have "triple P (f x) (\<lambda>_. P) E" and "triple P (for_eachE f xs) (\<lambda>_. P) E" by simp_all
  then show ?case by (simp add: triple_thenE)
qed

lemma triple_frames: "frames f m \<Longrightarrow> triple (\<lambda>w. P (f w)) m (\<lambda>_ w. P (f w)) (\<lambda>w. P (f w))"
  by (rule tripleI) (auto dest: framesD)

subsection \<open>Programs that always return\<close>

definition yields :: "('w, 'a) prog \<Rightarrow> ('a \<Rightarrow> bool) \<Rightarrow> bool" where
  "yields m Q \<longleftrightarrow> (\<forall>w. \<exists>a w'. m w = (Inr a, w') \<and> Q a)"

lemma yieldsD: "yields m Q \<Longrightarrow> \<exists>a w'. m w = (Inr a, w') \<and> Q a"
  by (simp add: yields_def)

lemma yields_weaken: "yields m R \<Longrightarrow> (\<And>a. R a \<Longrightarrow> Q a) \<Longrightarrow> yields m Q"
  unfolding yields_def by blast

lemma yields_ret [yields_intros]: "Q a \<Longrightarrow> yields (ret a) Q"
  by (simp add: yields_def ret_def)

lemma yields_getsW [yields_intros]: "(\<And>w. Q (f w)) \<Longrightarrow> yields (getsW f) Q"
  by (simp add: yields_def getsW_def)

lemma yields_bindE:
  "yields m R \<Longrightarrow> (\<And>a. R a \<Longrightarrow> yields (n a) Q) \<Longrightarrow> yields (bindE m n) Q"
  unfolding yields_def bindE_Inr by meson

lemma yields_thenE:
  "yields m R \<Longrightarrow> yields n Q \<Longrightarrow> yields (thenE m n) Q"
  unfolding thenE_def by (rule yields_bindE)

lemma yields_catchE: "yields m Q \<Longrightarrow> yields (catchE m h) Q"
  unfolding yields_def catchE_Inr by blast

lemma yields_quietE [yields_intros]: "yields (quietE m) (\<lambda>_. True)"
  by (simp add: yields_def quietE_apply)

lemma yields_finallyE:
  assumes "yields m Q" and "yields f R"
  shows "yields (finallyE m f) Q"
  unfolding yields_def
proof
  fix w
  obtain a w1 where "m w = (Inr a, w1)" "Q a" using yieldsD[OF assms(1)] by blast
  moreover obtain b w2 where "f w1 = (Inr b, w2)" using yieldsD[OF assms(2)] by blast
  ultimately show "\<exists>a w'. finallyE m f w = (Inr a, w') \<and> Q a" by (simp add: finallyE_apply)
qed

lemma yields_for_eachE:
  "(\<And>x. yields (f x) (\<lambda>_. True)) \<Longrightarrow> yields (for_eachE f xs) (\<lambda>_. True)"
  by (induction xs) (auto intro: yields_ret yields_thenE)

lemma yields_map_eachE:
  assumes "\<And>x. x \<in> set xs \<Longrightarrow> yields (f x) (Q x)"
  shows "yields (map_eachE f xs) (\<lambda>ys. list_all2 Q xs ys)"
  using assms
proof (induction xs)
  case (Cons x xs)
  have "yields (bindE (map_eachE f xs) (\<lambda>ys. ret (y # ys))) (list_all2 Q (x # xs))" if "Q x y" for y
    using that Cons by (intro yields_bindE[where R = "list_all2 Q xs"] yields_ret) auto
  moreover have "yields (f x) (Q x)" using Cons by simp
  ultimately show ?case by (auto intro!: yields_bindE[where R = "Q x"])
qed (simp add: yields_ret)

subsection \<open>The exceptions a program may raise\<close>

definition raises :: "('w, 'a) prog \<Rightarrow> (exn \<Rightarrow> bool) \<Rightarrow> bool" where
  "raises m P \<longleftrightarrow> (\<forall>w e w'. m w = (Inl e, w') \<longrightarrow> P e)"

lemma raisesI: "(\<And>w e w'. m w = (Inl e, w') \<Longrightarrow> P e) \<Longrightarrow> raises m P"
  by (simp add: raises_def)

lemma raisesD: "raises m P \<Longrightarrow> m w = (Inl e, w') \<Longrightarrow> P e"
  unfolding raises_def by blast

lemma raises_ret [raises_intros]: "raises (ret a) P"
  and raises_getsW [raises_intros]: "raises (getsW f) P"
  and raises_quietE [raises_intros]: "raises (quietE m) P"
  by (simp_all add: raises_def prog_simps)

lemma raises_throw [raises_intros]: "P e \<Longrightarrow> raises (throw e) P"
  by (simp add: raises_def throw_def)

lemma raises_bindE [raises_intros]:
  "raises m P \<Longrightarrow> (\<And>a. raises (n a) P) \<Longrightarrow> raises (bindE m n) P"
  unfolding raises_def bindE_Inl by blast

lemma raises_thenE [raises_intros]: "raises m P \<Longrightarrow> raises n P \<Longrightarrow> raises (thenE m n) P"
  unfolding thenE_def by (rule raises_bindE)

lemma raises_catchE: "(\<And>e. raises (h e) P) \<Longrightarrow> raises (catchE m h) P"
  unfolding raises_def catchE_Inl by blast

lemma raises_catchE_cond [raises_intros]:
  "raises m Q \<Longrightarrow> (\<And>e. Q e \<Longrightarrow> raises (h e) P) \<Longrightarrow> raises (catchE m h) P"
  unfolding raises_def catchE_Inl by blast

lemma raises_if [raises_intros]: "raises m P \<Longrightarrow> raises n P \<Longrightarrow> raises (if b then m else n) P"
  by simp

section \<open>Lists as tables\<close>

text \<open>\<open>UPDATE ... SET f WHERE P\<close> on a table of rows.\<close>

definition update_where :: "('r \<Rightarrow> bool) \<Rightarrow> ('r \<Rightarrow> 'r) \<Rightarrow> 'r list \<Rightarrow> 'r list" where
  "update_where P f rows = map (\<lambda>r. if P r then f r else r) rows"

lemma update_where_Nil [simp]: "update_where P f [] = []"
  and update_where_Cons [simp]:
    "update_where P f (r # rows) = (if P r then f r else r) # update_where P f rows"
  and length_update_where [simp]: "length (update_where P f rows) = length rows"
  and update_where_append [simp]:
    "update_where P f (xs @ ys) = update_where P f xs @ update_where P f ys"
  by (simp_all add: update_where_def)

lemma set_update_where: "set (update_where P f rows) = (\<lambda>r. if P r then f r else r) ` set rows"
  by (simp add: update_where_def)

lemma map_update_where:
  "(\<And>r. P r \<Longrightarrow> key (f r) = key r) \<Longrightarrow> map key (update_where P f rows) = map key rows"
  by (auto simp: update_where_def)

lemma update_where_none: "(\<And>r. r \<in> set rows \<Longrightarrow> \<not> P r) \<Longrightarrow> update_where P f rows = rows"
  by (induction rows) auto

lemma find_update_where:
  assumes "\<And>r. P r \<Longrightarrow> key (f r) = key r"
  shows "find (\<lambda>r. key r = k) (update_where P f rows) =
    map_option (\<lambda>r. if P r then f r else r) (find (\<lambda>r. key r = k) rows)"
  using assms by (induction rows) auto

lemma find_distinct:
  "distinct (map key rows) \<Longrightarrow> r \<in> set rows \<Longrightarrow> find (\<lambda>x. key x = key r) rows = Some r"
  by (induction rows) (auto simp: image_iff)

lemma find_SomeD: "find P rows = Some r \<Longrightarrow> r \<in> set rows \<and> P r"
  by (auto simp: find_Some_iff)

lemma distinct_map_filter_image:
  "distinct (map f (filter P xs)) \<Longrightarrow> x \<in> set xs \<Longrightarrow> y \<in> set xs \<Longrightarrow> P x \<Longrightarrow> P y
   \<Longrightarrow> f x = f y \<Longrightarrow> x = y"
  by (simp add: distinct_map inj_on_def)

text \<open>Rows that leave the selection of a query keep the rest of it distinct.\<close>

lemma distinct_filter_update:
  assumes "distinct (map key (filter A rows))"
    and "\<And>r. P r \<Longrightarrow> A (f r) \<Longrightarrow> A r \<and> key (f r) = key r"
  shows "distinct (map key (filter A (update_where P f rows)))"
    and "key ` set (filter A (update_where P f rows)) \<subseteq> key ` set (filter A rows)"
proof -
  show sub: "key ` set (filter A (update_where P f rows)) \<subseteq> key ` set (filter A rows)" for rows
    by (auto simp: set_update_where image_iff split: if_splits)
      (metis assms(2))+
  show "distinct (map key (filter A (update_where P f rows)))"
    using assms(1)
  proof (induction rows)
    case (Cons r rows)
    then have IH: "distinct (map key (filter A (update_where P f rows)))"
      by (auto split: if_splits)
    show ?case
    proof (cases "A (if P r then f r else r)")
      case True
      then have r: "A r" "key (if P r then f r else r) = key r"
        by (auto split: if_splits dest: assms(2))
      with Cons.prems have "key r \<notin> key ` set (filter A rows)" by simp
      with sub[of rows] have "key r \<notin> key ` set (filter A (update_where P f rows))" by blast
      with IH r True show ?thesis by (auto split: if_splits)
    next
      case False
      with IH show ?thesis by (auto split: if_splits)
    qed
  qed simp
qed

end
