(* ===== verification/Text.thy ===== *)
theory Text
  imports Prelude "HOL-Library.Sublist" "HOL-Library.Word"
begin

text \<open>
  The parts of Python's text and byte handling that the code uses: \<^verbatim>\<open>str(int)\<close>,
  \<^verbatim>\<open>sep.join\<close>, \<^verbatim>\<open>str.lower\<close>, the substring test \<^verbatim>\<open>in\<close>, the character classes of
  its regular expressions, UTF-8, \<^verbatim>\<open>bytes.hex\<close> and URL-safe base64.

  A \<^verbatim>\<open>str\<close> is a \<open>string\<close>, so code points are below 256; \<^verbatim>\<open>bytes\<close> is a list of
  8-bit words.
\<close>

type_synonym bytes = "8 word list"

section \<open>Numbers and joins\<close>

definition digit_char :: "nat \<Rightarrow> char" where
  "digit_char d = ''0123456789'' ! d"

fun str_of_nat :: "nat \<Rightarrow> string" where
  "str_of_nat n =
     (if n < 10 then [digit_char n] else str_of_nat (n div 10) @ [digit_char (n mod 10)])"

declare str_of_nat.simps [simp del]

definition str_of_int :: "int \<Rightarrow> string" where
  "str_of_int i = (if i < 0 then ''-'' @ str_of_nat (nat (- i)) else str_of_nat (nat i))"

fun join :: "string \<Rightarrow> string list \<Rightarrow> string" where
  "join sep [] = []"
| "join sep [x] = x"
| "join sep (x # y # xs) = x @ sep @ join sep (y # xs)"

text \<open>\<^verbatim>\<open>repr\<close> of a list of plain names, as in \<^verbatim>\<open>f"...{sorted(missing)}"\<close>.\<close>

definition repr_names :: "string list \<Rightarrow> string" where
  "repr_names xs = ''['' @ join '', '' (map (\<lambda>x. [CHR 0x27] @ x @ [CHR 0x27]) xs) @ '']''"

section \<open>Substrings and case\<close>

fun py_in :: "string \<Rightarrow> string \<Rightarrow> bool" where
  "py_in n [] = (n = [])"
| "py_in n (c # cs) = (prefix n (c # cs) \<or> py_in n cs)"

lemma py_in_iff: "py_in n h \<longleftrightarrow> (\<exists>xs ys. h = xs @ n @ ys)"
proof (induction h)
  case Nil
  show ?case by auto
next
  case (Cons c cs)
  show ?case
    by (auto simp: Cons prefix_def Cons_eq_append_conv)
qed

lemma py_in_sublist: "py_in n h \<longleftrightarrow> sublist n h"
  by (auto simp: py_in_iff sublist_def)

lemma py_in_append_left: "py_in n h \<Longrightarrow> py_in n (h @ t)"
  and py_in_append_right: "py_in n h \<Longrightarrow> py_in n (t @ h)"
  unfolding py_in_iff by (metis append.assoc)+

text \<open>\<^verbatim>\<open>str.lower\<close> on the letters of ASCII and Latin-1.\<close>

definition lower_char :: "char \<Rightarrow> char" where
  "lower_char c =
     (let n = (of_char c :: nat) in
      if 65 \<le> n \<and> n \<le> 90 \<or> 192 \<le> n \<and> n \<le> 222 \<and> n \<noteq> 215 then char_of (n + 32) else c)"

definition lower :: "string \<Rightarrow> string" where
  "lower s = map lower_char s"

lemma lower_append [simp]: "lower (s @ t) = lower s @ lower t"
  by (simp add: lower_def)

lemma py_in_lower: "py_in n h \<Longrightarrow> py_in (lower n) (lower h)"
  unfolding py_in_iff by (metis lower_append)

section \<open>Character classes\<close>

definition char_between :: "char \<Rightarrow> char \<Rightarrow> char \<Rightarrow> bool" where
  "char_between lo hi c \<longleftrightarrow>
     (of_char lo :: nat) \<le> of_char c \<and> (of_char c :: nat) \<le> of_char hi"

definition is_digit :: "char \<Rightarrow> bool" where
  "is_digit c \<longleftrightarrow> char_between CHR ''0'' CHR ''9'' c"

definition is_alnum :: "char \<Rightarrow> bool" where
  "is_alnum c \<longleftrightarrow> is_digit c
     \<or> char_between CHR ''A'' CHR ''Z'' c \<or> char_between CHR ''a'' CHR ''z'' c"

text \<open>\<^verbatim>\<open>[A-Za-z0-9_]\<close> and \<^verbatim>\<open>[A-Za-z0-9._-]\<close>.\<close>

definition word_char :: "char \<Rightarrow> bool" where
  "word_char c \<longleftrightarrow> is_alnum c \<or> c = CHR ''_''"

definition ticket_char :: "char \<Rightarrow> bool" where
  "ticket_char c \<longleftrightarrow> is_alnum c \<or> c = CHR ''.'' \<or> c = CHR ''_'' \<or> c = CHR ''-''"

text \<open>\<^verbatim>\<open>str.strip()\<close>.\<close>

definition is_space :: "char \<Rightarrow> bool" where
  "is_space c \<longleftrightarrow> (of_char c :: nat) \<in> {9, 10, 11, 12, 13, 28, 29, 30, 31, 32, 133, 160}"

definition strip :: "string \<Rightarrow> string" where
  "strip s = rev (dropWhile is_space (rev (dropWhile is_space s)))"

section \<open>UTF-8\<close>

fun utf8_char :: "char \<Rightarrow> bytes" where
  "utf8_char c =
     (let n = (of_char c :: nat) in
      if n < 128 then [of_nat n] else [of_nat (192 + n div 64), of_nat (128 + n mod 64)])"

fun utf8_encode :: "string \<Rightarrow> bytes" where
  "utf8_encode [] = []"
| "utf8_encode (c # cs) = utf8_char c @ utf8_encode cs"

text \<open>Decoding: \<open>None\<close> where Python raises \<^verbatim>\<open>UnicodeDecodeError\<close> (or leaves the modelled code points).\<close>

fun utf8_decode :: "bytes \<Rightarrow> string option" where
  "utf8_decode [] = Some []"
| "utf8_decode (b # bs) =
     (if unat b < 128 then map_option ((#) (char_of (unat b))) (utf8_decode bs)
      else (case bs of
        [] \<Rightarrow> None
      | b' # bs' \<Rightarrow>
          if (unat b = 194 \<or> unat b = 195) \<and> 128 \<le> unat b' \<and> unat b' < 192
          then map_option ((#) (char_of ((unat b - 192) * 64 + (unat b' - 128)))) (utf8_decode bs')
          else None))"

section \<open>Hexadecimal and base64\<close>

definition hex_digits :: string where
  "hex_digits = ''0123456789abcdef''"

definition hex_char :: "nat \<Rightarrow> char" where
  "hex_char d = hex_digits ! d"

fun hex :: "bytes \<Rightarrow> string" where
  "hex [] = []"
| "hex (b # bs) = hex_char (unat b div 16) # hex_char (unat b mod 16) # hex bs"

definition b64_alphabet :: string where
  "b64_alphabet = ''ABCDEFGHIJKLMNOPQRSTUVWXYZabcdefghijklmnopqrstuvwxyz0123456789-_''"

definition b64_char :: "nat \<Rightarrow> char" where
  "b64_char d = b64_alphabet ! d"

text \<open>\<^verbatim>\<open>base64.urlsafe_b64encode(b).rstrip(b"=")\<close>.\<close>

fun b64url :: "bytes \<Rightarrow> string" where
  "b64url [] = []"
| "b64url [a] = (let n = unat a * 16 in [b64_char (n div 64), b64_char (n mod 64)])"
| "b64url [a, b] =
     (let n = (unat a * 256 + unat b) * 4
      in [b64_char (n div 4096), b64_char (n div 64 mod 64), b64_char (n mod 64)])"
| "b64url (a # b # c # bs) =
     (let n = (unat a * 256 + unat b) * 256 + unat c
      in [b64_char (n div 262144), b64_char (n div 4096 mod 64), b64_char (n div 64 mod 64),
          b64_char (n mod 64)] @ b64url bs)"

text \<open>\<^verbatim>\<open>secrets.token_hex\<close> and \<^verbatim>\<open>secrets.token_urlsafe\<close> of the random bytes drawn.\<close>

abbreviation token_hex :: "bytes \<Rightarrow> string" where
  "token_hex bs \<equiv> hex bs"

abbreviation token_urlsafe :: "bytes \<Rightarrow> string" where
  "token_urlsafe bs \<equiv> b64url bs"

section \<open>A codec: encode and decode\<close>

text \<open>
  The contract every encoder/decoder pair of the development meets: decoding an encoded
  well-formed value gives it back.
\<close>

locale codec =
  fixes wf :: "'a \<Rightarrow> bool" and enc :: "'a \<Rightarrow> 'b" and dec :: "'b \<Rightarrow> 'a option"
  assumes dec_enc: "wf x \<Longrightarrow> dec (enc x) = Some x"
begin

lemma enc_inj: "wf x \<Longrightarrow> wf y \<Longrightarrow> enc x = enc y \<Longrightarrow> x = y"
  by (metis dec_enc option.inject)

lemma enc_eq_iff: "wf x \<Longrightarrow> wf y \<Longrightarrow> enc x = enc y \<longleftrightarrow> x = y"
  by (auto dest: enc_inj)

end

lemma unat8_of_nat: "n < 256 \<Longrightarrow> unat (of_nat n :: 8 word) = n"
  by (simp add: unsigned_of_nat take_bit_nat_eq_self)

lemma unat8_less: "unat (b :: 8 word) < 256"
  using unsigned_less[of b, where ?'a = nat] by simp

lemma utf8_decode_pair:
  assumes "unat x = 192 + d" and "unat y = 128 + m" and "d = 2 \<or> d = 3" and "m < 64"
  shows "utf8_decode (x # y # bs) = map_option ((#) (char_of (d * 64 + m))) (utf8_decode bs)"
  using assms by auto

lemma utf8_decode_char: "utf8_decode (utf8_char c @ bs) = map_option ((#) c) (utf8_decode bs)"
proof -
  define n where "n = (of_char c :: nat)"
  have n: "n < 256" and c: "char_of n = c"
    by (simp_all add: n_def)
  show ?thesis
  proof (cases "n < 128")
    case True
    with n c show ?thesis by (simp add: n_def[symmetric] Let_def unat8_of_nat)
  next
    case False
    have "n div 64 < 4" using n by (intro less_mult_imp_div_less) simp
    moreover have "2 \<le> n div 64" using False div_le_mono[of 128 n 64] by simp
    ultimately have q: "n div 64 = 2 \<or> n div 64 = 3" by linarith
    then have hi: "unat (of_nat (192 + n div 64) :: 8 word) = 192 + n div 64"
      by (intro unat8_of_nat) linarith
    have m: "n mod 64 < 64" by simp
    then have lo: "unat (of_nat (128 + n mod 64) :: 8 word) = 128 + n mod 64"
      by (intro unat8_of_nat) linarith
    have "utf8_char c = [of_nat (192 + n div 64), of_nat (128 + n mod 64)]"
      using False by (simp add: n_def[symmetric] Let_def)
    moreover have "n div 64 * 64 + n mod 64 = n" by simp
    ultimately show ?thesis
      by (simp only: append_Cons append_Nil utf8_decode_pair[OF hi lo q m] c)
  qed
qed

lemma utf8_decode_encode: "utf8_decode (utf8_encode s) = Some s"
  by (induction s) (simp_all add: utf8_decode_char del: utf8_char.simps)

interpretation utf8: codec "\<lambda>_. True" utf8_encode utf8_decode
  by unfold_locales (rule utf8_decode_encode)

lemma utf8_encode_eq_iff [simp]: "utf8_encode s = utf8_encode t \<longleftrightarrow> s = t"
  by (rule utf8.enc_eq_iff) simp_all

section \<open>Lengths and alphabets of the tokens\<close>

lemma length_hex [simp]: "length (hex bs) = 2 * length bs"
  by (induction bs) auto

lemma hex_char_set: "d < 16 \<Longrightarrow> hex_char d \<in> set hex_digits"
  unfolding hex_char_def by (rule nth_mem) (simp add: hex_digits_def)

lemma set_hex: "set (hex bs) \<subseteq> set hex_digits"
proof (induction bs)
  case (Cons b bs)
  have "unat b div 16 < 16" using unat8_less[of b] by simp
  then have "hex_char (unat b div 16) \<in> set hex_digits" by (rule hex_char_set)
  moreover have "hex_char (unat b mod 16) \<in> set hex_digits" by (rule hex_char_set) simp
  ultimately show ?case using Cons by simp
qed simp

lemma length_b64url: "length (b64url bs) = (4 * length bs + 2) div 3"
  by (induction bs rule: b64url.induct) (auto simp: Let_def)

lemma b64_char_set: "d < 64 \<Longrightarrow> b64_char d \<in> set b64_alphabet"
  unfolding b64_char_def by (rule nth_mem) (simp add: b64_alphabet_def)

lemma b64_char_mod: "b64_char (n mod 64) \<in> set b64_alphabet"
  by (rule b64_char_set) simp

lemma top_sextet: "x < 65536 \<Longrightarrow> c < 256 \<Longrightarrow> (x * 256 + c) div 262144 < (64::nat)"
  by (intro less_mult_imp_div_less) linarith

lemma set_b64url: "set (b64url bs) \<subseteq> set b64_alphabet"
proof (induction bs rule: b64url.induct)
  case (2 a)
  have "unat a * 16 div 64 < 64" using unat8_less[of a] by (intro less_mult_imp_div_less) linarith
  then show ?case by (simp add: Let_def b64_char_set)
next
  case (3 a b)
  have "unat a * 256 + unat b < 65536"
    using unat8_less[of a] unat8_less[of b] by linarith
  then have "(unat a * 256 + unat b) * 4 div 4096 < 64"
    by (intro less_mult_imp_div_less) simp
  then show ?case by (simp add: Let_def b64_char_set)
next
  case (4 a b c bs)
  have "unat a * 256 + unat b < 65536"
    using unat8_less[of a] unat8_less[of b] by linarith
  then have "((unat a * 256 + unat b) * 256 + unat c) div 262144 < 64"
    using unat8_less[of c] by (rule top_sextet)
  then have "b64_char (((unat a * 256 + unat b) * 256 + unat c) div 262144) \<in> set b64_alphabet"
    by (rule b64_char_set)
  with 4 show ?case by (simp only: b64url.simps Let_def set_append Un_subset_iff list.set
      insert_subset empty_subsetI simp_thms b64_char_mod)
qed simp

end
