(* ===== verification/Config.thy ===== *)
theory Config
  imports Text
begin

text \<open>
  \<^verbatim>\<open>api/config.py\<close>: the settings read from the environment and the validators that run on
  them. Reading and type conversion are pydantic's; the model starts from the typed values.
\<close>

section \<open>The settings\<close>

record settings =
  sandbox_api_key :: string
  sandbox_webhook_secret :: string
  sandbox_cf_access_aud :: "string option"
  sandbox_cf_access_certs_url :: "string option"
  sandbox_fernet_key :: string
  sandbox_state_db :: string
  sandbox_compose_dir :: string
  sandbox_tls_dir :: string
  sandbox_log_dir :: string
  sandbox_public_host :: string
  sandbox_mysql_host :: string
  sandbox_port_range_start :: int
  sandbox_port_range_end :: int
  sandbox_tunnel_bind_host :: string
  sandbox_working_dir :: string
  prod_ssh_host :: string
  prod_ssh_user :: string
  prod_ssh_key :: string
  prod_ssh_port :: int
  prod_mysql_host :: string
  prod_mysql_port :: int
  prod_mysql_user :: string
  prod_mysql_password :: string
  sandbox_mysql_image :: string
  sandbox_ttl_min_seconds :: int
  sandbox_ttl_default_seconds :: int
  sandbox_ttl_max_seconds :: int
  sandbox_ttl_reset_add_seconds :: int
  sandbox_reaper_interval_seconds :: int
  sandbox_test_mode :: bool

text \<open>
  \<^verbatim>\<open>Path.expanduser\<close>; \<open>home\<close> is the user database (the empty name is the current user).
\<close>

definition expanduser :: "(string \<Rightarrow> string option) \<Rightarrow> string \<Rightarrow> exn + string" where
  "expanduser home p =
     (case p of
        CHR 0x7E # rest \<Rightarrow>
          (case home (takeWhile (\<lambda>c. c \<noteq> CHR ''/'') rest) of
             None \<Rightarrow> Inl (RuntimeError ''Could not determine home directory.'')
           | Some h \<Rightarrow> Inr (h @ dropWhile (\<lambda>c. c \<noteq> CHR ''/'') rest))
      | _ \<Rightarrow> Inr p)"

section \<open>The validators\<close>

text \<open>
  The \<open>option\<close> arguments are \<^verbatim>\<open>info.data.get(...)\<close>: the values of the fields validated
  before, absent when such a field failed its own validation.
\<close>

definition port_range_order :: "int option \<Rightarrow> int \<Rightarrow> exn + int" where
  "port_range_order start_opt v =
     (let start = (case start_opt of None \<Rightarrow> 33060 | Some s \<Rightarrow> s) in
      if v < start
      then Inl (ValueError ''SANDBOX_PORT_RANGE_END must be >= SANDBOX_PORT_RANGE_START'')
      else Inr v)"

definition ttl_max_above_default :: "int option \<Rightarrow> int option \<Rightarrow> int \<Rightarrow> exn + int" where
  "ttl_max_above_default default_opt min_opt v =
     (let dflt = (case default_opt of None \<Rightarrow> 21600 | Some d \<Rightarrow> d);
          minimum = (case min_opt of None \<Rightarrow> 14400 | Some m \<Rightarrow> m) in
      if v < dflt
      then Inl (ValueError ''SANDBOX_TTL_MAX_SECONDS must be >= SANDBOX_TTL_DEFAULT_SECONDS'')
      else if dflt < minimum
      then Inl (ValueError ''SANDBOX_TTL_DEFAULT_SECONDS must be >= SANDBOX_TTL_MIN_SECONDS'')
      else Inr v)"

fun errors_of :: "(exn + 'a) list \<Rightarrow> string list" where
  "errors_of [] = []"
| "errors_of (Inl e # rs) = exn_str e # errors_of rs"
| "errors_of (Inr _ # rs) = errors_of rs"

text \<open>
  Building a \<^verbatim>\<open>Settings\<close> object: the fields are validated in their order, every
  \<^verbatim>\<open>ValueError\<close> is collected into one \<^verbatim>\<open>ValidationError\<close>, and the
  \<^verbatim>\<open>RuntimeError\<close> of \<^verbatim>\<open>expanduser\<close> escapes at once.
\<close>

definition make_settings :: "(string \<Rightarrow> string option) \<Rightarrow> settings \<Rightarrow> exn + settings" where
  "make_settings home raw =
     (case expanduser home (sandbox_state_db raw) of Inl e \<Rightarrow> Inl e | Inr state_db \<Rightarrow>
     (case expanduser home (sandbox_compose_dir raw) of Inl e \<Rightarrow> Inl e | Inr compose_dir \<Rightarrow>
     (case expanduser home (sandbox_tls_dir raw) of Inl e \<Rightarrow> Inl e | Inr tls_dir \<Rightarrow>
     (case expanduser home (sandbox_log_dir raw) of Inl e \<Rightarrow> Inl e | Inr log_dir \<Rightarrow>
     (let port_end = port_range_order (Some (sandbox_port_range_start raw))
                       (sandbox_port_range_end raw) in
     (case expanduser home (prod_ssh_key raw) of Inl e \<Rightarrow> Inl e | Inr ssh_key \<Rightarrow>
     (let ttl_max = ttl_max_above_default (Some (sandbox_ttl_default_seconds raw))
                      (Some (sandbox_ttl_min_seconds raw)) (sandbox_ttl_max_seconds raw);
          errors = errors_of [port_end, ttl_max] in
      if errors \<noteq> [] then Inl (ValidationError (join ''; '' errors))
      else Inr (raw\<lparr>sandbox_state_db := state_db, sandbox_compose_dir := compose_dir,
                   sandbox_tls_dir := tls_dir, sandbox_log_dir := log_dir,
                   prod_ssh_key := ssh_key\<rparr>))))))))"

section \<open>Derived settings\<close>

definition port_range :: "settings \<Rightarrow> int list" where
  "port_range s = [sandbox_port_range_start s .. sandbox_port_range_end s]"

definition truthy :: "string option \<Rightarrow> bool" where
  "truthy v \<longleftrightarrow> (case v of None \<Rightarrow> False | Some s \<Rightarrow> s \<noteq> [])"

definition cf_access_enabled :: "settings \<Rightarrow> bool" where
  "cf_access_enabled s \<longleftrightarrow>
     truthy (sandbox_cf_access_aud s) \<and> truthy (sandbox_cf_access_certs_url s)"

text \<open>
  \<^verbatim>\<open>get_settings\<close> under \<^verbatim>\<open>lru_cache(maxsize=1)\<close>: the state is the cached value,
  \<open>load\<close> what \<^verbatim>\<open>Settings()\<close> does now; an exception is not cached.
\<close>

definition get_settings :: "exn + settings \<Rightarrow> (settings option, settings) prog" where
  "get_settings load = (\<lambda>cache.
     case cache of
       Some s \<Rightarrow> (Inr s, cache)
     | None \<Rightarrow> (case load of Inl e \<Rightarrow> (Inl e, None) | Inr s \<Rightarrow> (Inr s, Some s)))"

definition reset_settings_cache :: "(settings option, unit) prog" where
  "reset_settings_cache = (\<lambda>_. (Inr (), None))"

section \<open>What validation guarantees\<close>

text \<open>The settings the rest of the development may assume.\<close>

definition valid_settings :: "settings \<Rightarrow> bool" where
  "valid_settings s \<longleftrightarrow>
     sandbox_port_range_start s \<le> sandbox_port_range_end s
     \<and> sandbox_ttl_min_seconds s \<le> sandbox_ttl_default_seconds s
     \<and> sandbox_ttl_default_seconds s \<le> sandbox_ttl_max_seconds s"

lemma port_range_order_Inr [simp]:
  "port_range_order (Some start) v = Inr w \<longleftrightarrow> start \<le> v \<and> w = v"
  by (auto simp: port_range_order_def)

lemma ttl_max_Inr [simp]:
  "ttl_max_above_default (Some d) (Some m) v = Inr w \<longleftrightarrow> m \<le> d \<and> d \<le> v \<and> w = v"
  by (auto simp: ttl_max_above_default_def Let_def)

lemma errors_of_Nil: "errors_of rs = [] \<longleftrightarrow> (\<forall>r \<in> set rs. \<exists>a. r = Inr a)"
  by (induction rs rule: errors_of.induct) auto

lemma in_port_range [simp]:
  "p \<in> set (port_range s) \<longleftrightarrow> sandbox_port_range_start s \<le> p \<and> p \<le> sandbox_port_range_end s"
  by (auto simp: port_range_def)

lemma distinct_port_range [simp]: "distinct (port_range s)"
  and sorted_port_range [simp]: "sorted (port_range s)"
  by (simp_all add: port_range_def)

lemma length_port_range:
  "length (port_range s) = nat (sandbox_port_range_end s - sandbox_port_range_start s + 1)"
  by (simp add: port_range_def)

lemma make_settings_valid: "make_settings home raw = Inr s \<Longrightarrow> valid_settings s"
  by (auto simp: make_settings_def Let_def valid_settings_def errors_of_Nil
      split: sum.splits if_splits)

end
