(* ===== verification/State.thy ===== *)
theory State
  imports Config
begin

text \<open>
  \<^verbatim>\<open>api/state.py\<close>: the SQLite session store. A store is the list of the rows of the table
  \<^verbatim>\<open>sessions\<close> in insertion order; an operation is a program over it. Every operation runs
  under the store's lock (and its writes in one \<^verbatim>\<open>BEGIN IMMEDIATE\<close> transaction), so an
  operation is one atomic step. Failures of SQLite itself (busy timeout, full disk) are not
  modelled; the primary key is.
\<close>

section \<open>Rows and records\<close>

definition STATUS_STARTING :: string where "STATUS_STARTING = ''starting''"
definition STATUS_READY :: string where "STATUS_READY = ''ready''"
definition STATUS_EXPIRED :: string where "STATUS_EXPIRED = ''expired''"
definition STATUS_NUKED :: string where "STATUS_NUKED = ''nuked''"
definition STATUS_ERROR :: string where "STATUS_ERROR = ''error''"

definition VALID_STATUSES :: "string list" where
  "VALID_STATUSES = [STATUS_STARTING, STATUS_READY, STATUS_EXPIRED, STATUS_NUKED, STATUS_ERROR]"

lemma status_distinct [simp]:
  "STATUS_STARTING \<noteq> STATUS_READY" "STATUS_STARTING \<noteq> STATUS_EXPIRED"
  "STATUS_STARTING \<noteq> STATUS_NUKED" "STATUS_STARTING \<noteq> STATUS_ERROR"
  "STATUS_READY \<noteq> STATUS_STARTING" "STATUS_READY \<noteq> STATUS_EXPIRED"
  "STATUS_READY \<noteq> STATUS_NUKED" "STATUS_READY \<noteq> STATUS_ERROR"
  "STATUS_EXPIRED \<noteq> STATUS_STARTING" "STATUS_EXPIRED \<noteq> STATUS_READY"
  "STATUS_EXPIRED \<noteq> STATUS_NUKED" "STATUS_EXPIRED \<noteq> STATUS_ERROR"
  "STATUS_NUKED \<noteq> STATUS_STARTING" "STATUS_NUKED \<noteq> STATUS_READY"
  "STATUS_NUKED \<noteq> STATUS_EXPIRED" "STATUS_NUKED \<noteq> STATUS_ERROR"
  "STATUS_ERROR \<noteq> STATUS_STARTING" "STATUS_ERROR \<noteq> STATUS_READY"
  "STATUS_ERROR \<noteq> STATUS_EXPIRED" "STATUS_ERROR \<noteq> STATUS_NUKED"
  by (simp_all add: STATUS_STARTING_def STATUS_READY_def STATUS_EXPIRED_def STATUS_NUKED_def
      STATUS_ERROR_def)

text \<open>A row of the table.\<close>

record session =
  s_id :: string
  s_ticket :: string
  s_date :: string
  s_dbs_json :: string
  s_creds_enc :: bytes
  s_host :: string
  s_mysql_host :: string
  s_port :: int
  s_container_name :: string
  s_compose_path :: string
  s_tls_dir :: string
  s_log_dir :: string
  s_created_at :: int
  s_expires_at :: int
  s_max_extended_until :: int
  s_ttl_extended :: int
  s_status :: string

type_synonym store = "session list"

text \<open>
  The dictionary a caller passes to \<^verbatim>\<open>create\<close> or \<^verbatim>\<open>reserve_session\<close>: \<open>None\<close> is a
  missing key. The key \<^verbatim>\<open>ttl_extended\<close> is not among the required ones and is never inserted.
\<close>

record draft =
  d_id :: "string option"
  d_ticket :: "string option"
  d_date :: "string option"
  d_dbs_json :: "string option"
  d_creds_enc :: "bytes option"
  d_host :: "string option"
  d_mysql_host :: "string option"
  d_port :: "int option"
  d_container_name :: "string option"
  d_compose_path :: "string option"
  d_tls_dir :: "string option"
  d_log_dir :: "string option"
  d_created_at :: "int option"
  d_expires_at :: "int option"
  d_max_extended_until :: "int option"
  d_ttl_extended :: "int option"
  d_status :: "string option"

text \<open>\<^verbatim>\<open>sorted(required - record.keys())\<close>.\<close>

definition missing_fields :: "draft \<Rightarrow> string list" where
  "missing_fields d = map fst (filter snd
     [(''compose_path'', d_compose_path d = None), (''container_name'', d_container_name d = None),
      (''created_at'', d_created_at d = None), (''creds_enc'', d_creds_enc d = None),
      (''date'', d_date d = None), (''dbs_json'', d_dbs_json d = None),
      (''expires_at'', d_expires_at d = None), (''host'', d_host d = None),
      (''id'', d_id d = None), (''log_dir'', d_log_dir d = None),
      (''max_extended_until'', d_max_extended_until d = None),
      (''mysql_host'', d_mysql_host d = None), (''port'', d_port d = None),
      (''status'', d_status d = None), (''ticket'', d_ticket d = None),
      (''tls_dir'', d_tls_dir d = None)])"

text \<open>The row an \<^verbatim>\<open>INSERT\<close> of the required columns makes; \<^verbatim>\<open>ttl_extended\<close> defaults to 0.\<close>

definition row_of :: "draft \<Rightarrow> session" where
  "row_of d = \<lparr>s_id = the (d_id d), s_ticket = the (d_ticket d), s_date = the (d_date d),
     s_dbs_json = the (d_dbs_json d), s_creds_enc = the (d_creds_enc d), s_host = the (d_host d),
     s_mysql_host = the (d_mysql_host d), s_port = the (d_port d),
     s_container_name = the (d_container_name d), s_compose_path = the (d_compose_path d),
     s_tls_dir = the (d_tls_dir d), s_log_dir = the (d_log_dir d),
     s_created_at = the (d_created_at d), s_expires_at = the (d_expires_at d),
     s_max_extended_until = the (d_max_extended_until d), s_ttl_extended = 0,
     s_status = the (d_status d)\<rparr>"

text \<open>The checks both inserting operations make before the \<^verbatim>\<open>INSERT\<close>.\<close>

definition check_draft :: "draft \<Rightarrow> exn + session" where
  "check_draft d =
     (if missing_fields d \<noteq> []
      then Inl (ValueError (''record missing fields: '' @ repr_names (missing_fields d)))
      else if the (d_status d) \<notin> set VALID_STATUSES
      then Inl (ValueError (''invalid status: '' @ the (d_status d)))
      else Inr (row_of d))"

section \<open>Statements and transactions\<close>

definition insert_row :: "session \<Rightarrow> (store, unit) prog" where
  "insert_row r = (\<lambda>rows.
     if s_id r \<in> set (map s_id rows)
     then (Inl (IntegrityError ''UNIQUE constraint failed: sessions.id''), rows)
     else (Inr (), rows @ [r]))"

text \<open>\<^verbatim>\<open>with self._tx() as conn\<close>: an exception rolls the table back.\<close>

definition tx :: "(store, 'a) prog \<Rightarrow> (store, 'a) prog" where
  "tx m = (\<lambda>rows. case m rows of (Inl e, _) \<Rightarrow> (Inl e, rows) | (Inr a, rows') \<Rightarrow> (Inr a, rows'))"

text \<open>\<^verbatim>\<open>UPDATE ... WHERE P\<close> with its \<^verbatim>\<open>rowcount\<close>.\<close>

definition update_rows :: "(session \<Rightarrow> bool) \<Rightarrow> (session \<Rightarrow> session) \<Rightarrow> (store, nat) prog" where
  "update_rows P f = (\<lambda>rows. (Inr (length (filter P rows)), update_where P f rows))"

section \<open>The operations\<close>

definition create :: "draft \<Rightarrow> (store, unit) prog" where
  "create d = bindE (liftE (check_draft d)) (\<lambda>r. tx (insert_row r))"

text \<open>The statuses whose ports count as used.\<close>

definition holds_port :: "session \<Rightarrow> bool" where
  "holds_port r \<longleftrightarrow> s_status r \<in> {STATUS_STARTING, STATUS_READY, STATUS_EXPIRED}"

definition used_ports :: "store \<Rightarrow> int set" where
  "used_ports rows = s_port ` set (filter holds_port rows)"

definition reserve_session ::
    "(int \<Rightarrow> draft) \<Rightarrow> (int set \<Rightarrow> exn + int) \<Rightarrow> (store, draft) prog" where
  "reserve_session record_factory port_allocator = tx (
     bindE (getsW used_ports) (\<lambda>used.
     bindE (liftE (port_allocator used)) (\<lambda>port.
     let d = record_factory port in
     bindE (liftE (check_draft d)) (\<lambda>r.
     thenE (insert_row r) (ret d)))))"

definition get :: "string \<Rightarrow> store \<Rightarrow> session option" where
  "get sid rows = find (\<lambda>r. s_id r = sid) rows"

text \<open>\<^verbatim>\<open>ORDER BY created_at DESC\<close>; rows created in the same second keep the table's order.\<close>

definition list_all_rows :: "store \<Rightarrow> session list" where
  "list_all_rows rows = sort_key (\<lambda>r. - s_created_at r) rows"

definition list_by_status :: "string \<Rightarrow> store \<Rightarrow> session list" where
  "list_by_status st rows = sort_key (\<lambda>r. - s_created_at r) (filter (\<lambda>r. s_status r = st) rows)"

text \<open>The rows are returned as they were read, before the update.\<close>

definition claim_expired :: "int \<Rightarrow> (store, session list) prog" where
  "claim_expired now = tx (
     bindE (getsW (filter (\<lambda>r. s_status r \<in> {STATUS_READY, STATUS_EXPIRED} \<and> s_expires_at r < now)))
       (\<lambda>rows.
         if rows = [] then ret []
         else thenE (update_rows (\<lambda>r. s_id r \<in> set (map s_id rows))
                       (\<lambda>r. r\<lparr>s_status := STATUS_EXPIRED\<rparr>))
                    (ret rows)))"

definition set_status :: "string \<Rightarrow> string \<Rightarrow> (store, unit) prog" where
  "set_status sid st =
     (if st \<notin> set VALID_STATUSES then throw (ValueError (''invalid status: '' @ st))
      else tx (thenE (update_rows (\<lambda>r. s_id r = sid) (\<lambda>r. r\<lparr>s_status := st\<rparr>)) (ret ())))"

definition update_to_ready :: "string \<Rightarrow> bytes \<Rightarrow> int \<Rightarrow> int \<Rightarrow> (store, bool) prog" where
  "update_to_ready sid creds expires max_until = tx (
     bindE (update_rows (\<lambda>r. s_id r = sid \<and> s_status r = STATUS_STARTING)
              (\<lambda>r. r\<lparr>s_status := STATUS_READY, s_creds_enc := creds, s_expires_at := expires,
                     s_max_extended_until := max_until\<rparr>))
       (\<lambda>n. ret (n > 0)))"

text \<open>\<^verbatim>\<open>grace_seconds\<close> is accepted and ignored.\<close>

definition claim_stuck :: "int \<Rightarrow> int \<Rightarrow> (store, session list) prog" where
  "claim_stuck now grace_seconds = tx (getsW (filter
     (\<lambda>r. s_status r \<in> {STATUS_STARTING, STATUS_ERROR} \<and> s_expires_at r < now)))"

definition mark_nuked :: "string \<Rightarrow> (store, unit) prog" where
  "mark_nuked sid = tx (thenE
     (update_rows (\<lambda>r. s_id r = sid \<and> s_status r \<notin> {STATUS_NUKED, STATUS_EXPIRED})
        (\<lambda>r. r\<lparr>s_status := STATUS_NUKED\<rparr>))
     (ret ()))"

definition update_ttl :: "string \<Rightarrow> int \<Rightarrow> int \<Rightarrow> (store, bool) prog" where
  "update_ttl sid new_expires ttl_ext = tx (
     bindE (update_rows (\<lambda>r. s_id r = sid)
              (\<lambda>r. r\<lparr>s_expires_at := new_expires, s_ttl_extended := ttl_ext\<rparr>))
       (\<lambda>n. ret (n > 0)))"

definition update_port :: "string \<Rightarrow> int \<Rightarrow> (store, unit) prog" where
  "update_port sid port =
     tx (thenE (update_rows (\<lambda>r. s_id r = sid) (\<lambda>r. r\<lparr>s_port := port\<rparr>)) (ret ()))"

definition delete :: "string \<Rightarrow> (store, bool) prog" where
  "delete sid = tx (\<lambda>rows.
     (Inr (length (filter (\<lambda>r. s_id r = sid) rows) > 0), filter (\<lambda>r. s_id r \<noteq> sid) rows))"

section \<open>What the operations compute\<close>

named_theorems store_run

lemma tx_Inl: "tx m rows = (Inl e, rows') \<longleftrightarrow> rows' = rows \<and> (\<exists>x. m rows = (Inl e, x))"
  and tx_Inr: "tx m rows = (Inr a, rows') \<longleftrightarrow> m rows = (Inr a, rows')"
  by (auto simp: tx_def split: prod.splits sum.splits)

lemma set_status_run [store_run]:
  "st \<in> set VALID_STATUSES \<Longrightarrow> set_status sid st rows =
     (Inr (), update_where (\<lambda>r. s_id r = sid) (\<lambda>r. r\<lparr>s_status := st\<rparr>) rows)"
  by (simp add: set_status_def tx_def update_rows_def prog_simps)

lemma update_to_ready_run [store_run]:
  "update_to_ready sid c e m rows =
     (Inr (\<exists>r \<in> set rows. s_id r = sid \<and> s_status r = STATUS_STARTING),
      update_where (\<lambda>r. s_id r = sid \<and> s_status r = STATUS_STARTING)
        (\<lambda>r. r\<lparr>s_status := STATUS_READY, s_creds_enc := c, s_expires_at := e,
               s_max_extended_until := m\<rparr>) rows)"
  by (auto simp: update_to_ready_def tx_def update_rows_def prog_simps filter_empty_conv)

lemma mark_nuked_run [store_run]:
  "mark_nuked sid rows =
     (Inr (), update_where (\<lambda>r. s_id r = sid \<and> s_status r \<notin> {STATUS_NUKED, STATUS_EXPIRED})
        (\<lambda>r. r\<lparr>s_status := STATUS_NUKED\<rparr>) rows)"
  by (simp add: mark_nuked_def tx_def update_rows_def prog_simps)

lemma update_ttl_run [store_run]:
  "update_ttl sid e x rows =
     (Inr (\<exists>r \<in> set rows. s_id r = sid),
      update_where (\<lambda>r. s_id r = sid) (\<lambda>r. r\<lparr>s_expires_at := e, s_ttl_extended := x\<rparr>) rows)"
  by (auto simp: update_ttl_def tx_def update_rows_def prog_simps filter_empty_conv)

lemma update_port_run [store_run]:
  "update_port sid p rows =
     (Inr (), update_where (\<lambda>r. s_id r = sid) (\<lambda>r. r\<lparr>s_port := p\<rparr>) rows)"
  by (simp add: update_port_def tx_def update_rows_def prog_simps)

lemma delete_run [store_run]:
  "delete sid rows =
     (Inr (\<exists>r \<in> set rows. s_id r = sid), filter (\<lambda>r. s_id r \<noteq> sid) rows)"
  by (auto simp: delete_def tx_def filter_empty_conv)

text \<open>The rows the reaper's two queries select.\<close>

definition expired_due :: "int \<Rightarrow> session \<Rightarrow> bool" where
  "expired_due now r \<longleftrightarrow> s_status r \<in> {STATUS_READY, STATUS_EXPIRED} \<and> s_expires_at r < now"

definition stuck_due :: "int \<Rightarrow> session \<Rightarrow> bool" where
  "stuck_due now r \<longleftrightarrow> s_status r \<in> {STATUS_STARTING, STATUS_ERROR} \<and> s_expires_at r < now"

lemma claim_stuck_run [store_run]: "claim_stuck now g rows = (Inr (filter (stuck_due now) rows), rows)"
  by (simp add: claim_stuck_def tx_def prog_simps stuck_due_def[abs_def])

definition unique_ids :: "store \<Rightarrow> bool" where
  "unique_ids rows \<longleftrightarrow> distinct (map s_id rows)"

lemma unique_idsD:
  "unique_ids rows \<Longrightarrow> r \<in> set rows \<Longrightarrow> r' \<in> set rows \<Longrightarrow> s_id r = s_id r' \<Longrightarrow> r = r'"
  by (auto simp: unique_ids_def distinct_map dest: inj_onD)

lemma claim_expired_run [store_run]:
  assumes "unique_ids rows"
  shows "claim_expired now rows =
     (Inr (filter (expired_due now) rows),
      update_where (expired_due now) (\<lambda>r. r\<lparr>s_status := STATUS_EXPIRED\<rparr>) rows)"
proof -
  define due where "due = filter (expired_due now) rows"
  have "s_id r \<in> set (map s_id due) \<longleftrightarrow> expired_due now r" if "r \<in> set rows" for r
    using that assms by (auto simp: due_def dest: unique_idsD)
  then have "update_where (\<lambda>r. s_id r \<in> set (map s_id due)) f rows = update_where (expired_due now) f rows" for f
    by (simp add: update_where_def cong: map_cong)
  moreover have "due = [] \<Longrightarrow> update_where (expired_due now) f rows = rows" for f
    by (rule update_where_none) (auto simp: due_def filter_empty_conv)
  moreover have "claim_expired now rows = (if due = [] then (Inr [], rows)
      else (Inr due, update_where (\<lambda>r. s_id r \<in> set (map s_id due)) (\<lambda>r. r\<lparr>s_status := STATUS_EXPIRED\<rparr>) rows))"
    unfolding claim_expired_def due_def expired_due_def[abs_def]
    by (simp only: tx_def update_rows_def prog_simps sum.case prod.case if_distrib[of "\<lambda>p. p rows"]
        cong: if_cong) simp
  ultimately show ?thesis
    by (auto simp: due_def[symmetric])
qed

text \<open>Lookup after an update.\<close>

lemma get_Some: "get sid rows = Some r \<Longrightarrow> r \<in> set rows \<and> s_id r = sid"
  unfolding get_def by (rule find_SomeD)

lemma get_None: "get sid rows = None \<longleftrightarrow> sid \<notin> s_id ` set rows"
  by (auto simp: get_def find_None_iff)

lemma get_member: "unique_ids rows \<Longrightarrow> r \<in> set rows \<Longrightarrow> get (s_id r) rows = Some r"
  unfolding get_def unique_ids_def by (rule find_distinct)

lemma get_update_where:
  "(\<And>r. s_id (f r) = s_id r) \<Longrightarrow>
   get sid (update_where P f rows) = map_option (\<lambda>r. if P r then f r else r) (get sid rows)"
  unfolding get_def by (rule find_update_where)

lemma get_append_new: "s_id r \<notin> s_id ` set rows \<Longrightarrow> get (s_id r) (rows @ [r]) = Some r"
  unfolding get_def by (induction rows) auto

section \<open>The table invariant\<close>

text \<open>
  Primary key, known statuses, and no two sessions that hold a port hold the same one.
\<close>

definition active_ports_distinct :: "store \<Rightarrow> bool" where
  "active_ports_distinct rows \<longleftrightarrow> distinct (map s_port (filter holds_port rows))"

definition wf_store :: "store \<Rightarrow> bool" where
  "wf_store rows \<longleftrightarrow> unique_ids rows \<and> (\<forall>r \<in> set rows. s_status r \<in> set VALID_STATUSES)
     \<and> active_ports_distinct rows"

lemma wf_store_Nil [simp]: "wf_store []"
  by (simp add: wf_store_def unique_ids_def active_ports_distinct_def)

lemma valid_statuses [simp]:
  "STATUS_STARTING \<in> set VALID_STATUSES" "STATUS_READY \<in> set VALID_STATUSES"
  "STATUS_EXPIRED \<in> set VALID_STATUSES" "STATUS_NUKED \<in> set VALID_STATUSES"
  "STATUS_ERROR \<in> set VALID_STATUSES"
  by (simp_all add: VALID_STATUSES_def)

text \<open>An update that keeps ids and moves no row onto a port keeps the invariant.\<close>

lemma wf_store_update_where:
  assumes wf: "wf_store rows"
    and id: "\<And>r. s_id (f r) = s_id r"
    and status: "\<And>r. r \<in> set rows \<Longrightarrow> P r \<Longrightarrow> s_status (f r) \<in> set VALID_STATUSES"
    and port: "\<And>r. P r \<Longrightarrow> holds_port (f r) \<Longrightarrow> holds_port r \<and> s_port (f r) = s_port r"
  shows "wf_store (update_where P f rows)"
proof -
  have "unique_ids (update_where P f rows)"
    using wf id by (simp add: wf_store_def unique_ids_def map_update_where)
  moreover have "active_ports_distinct (update_where P f rows)"
    using wf port unfolding wf_store_def active_ports_distinct_def
    by (blast intro: distinct_filter_update(1))
  moreover have "\<forall>r \<in> set (update_where P f rows). s_status r \<in> set VALID_STATUSES"
    using wf status by (auto simp: wf_store_def set_update_where)
  ultimately show ?thesis by (simp add: wf_store_def)
qed

subsection \<open>The contract of the row updates\<close>

text \<open>
  The operations that change the row of one session: \<open>guard\<close> says when, \<open>change\<close> how. A client
  reasons with these laws only.
\<close>

locale row_update =
  fixes upd :: "string \<Rightarrow> (store, 'a) prog"
    and guard :: "session \<Rightarrow> bool" and change :: "session \<Rightarrow> session"
  assumes upd_rows:
      "snd (upd sid rows) = update_where (\<lambda>r. s_id r = sid \<and> guard r) change rows"
    and change_id: "s_id (change r) = s_id r"
begin

lemma get_upd:
  "get sid' (snd (upd sid rows)) =
     map_option (\<lambda>r. if sid' = sid \<and> guard r then change r else r) (get sid' rows)"
proof (cases "get sid' rows")
  case (Some r)
  then have "s_id r = sid'" by (simp add: get_Some)
  with Some show ?thesis by (auto simp: upd_rows get_update_where change_id)
qed (simp add: upd_rows get_update_where change_id)

lemma get_upd_other: "sid' \<noteq> sid \<Longrightarrow> get sid' (snd (upd sid rows)) = get sid' rows"
  by (simp add: get_upd option.map_ident)

lemma unique_ids_upd: "unique_ids (snd (upd sid rows)) = unique_ids rows"
  by (simp add: upd_rows unique_ids_def map_update_where change_id)

end

text \<open>Updates that never give a session a port it did not hold: they keep the table invariant.\<close>

locale port_safe_update = row_update +
  assumes change_port:
      "guard r \<Longrightarrow> holds_port (change r) \<Longrightarrow> holds_port r \<and> s_port (change r) = s_port r"
    and change_status: "guard r \<Longrightarrow> s_status r \<in> set VALID_STATUSES \<Longrightarrow>
      s_status (change r) \<in> set VALID_STATUSES"
begin

lemma wf_upd: "wf_store rows \<Longrightarrow> wf_store (snd (upd sid rows))"
  unfolding upd_rows
  by (rule wf_store_update_where) (auto simp: change_id wf_store_def change_port intro: change_status)

end

lemma holds_port_simps [simp]:
  "holds_port (r\<lparr>s_status := STATUS_NUKED\<rparr>) = False"
  "holds_port (r\<lparr>s_status := STATUS_ERROR\<rparr>) = False"
  "holds_port (r\<lparr>s_status := STATUS_EXPIRED\<rparr>) = True"
  "holds_port (r\<lparr>s_expires_at := e\<rparr>) = holds_port r"
  "holds_port (r\<lparr>s_ttl_extended := x\<rparr>) = holds_port r"
  by (simp_all add: holds_port_def)

interpretation nuke_status: port_safe_update "\<lambda>sid. set_status sid STATUS_NUKED" "\<lambda>_. True"
    "\<lambda>r. r\<lparr>s_status := STATUS_NUKED\<rparr>"
  by unfold_locales (simp_all add: store_run)

interpretation error_status: port_safe_update "\<lambda>sid. set_status sid STATUS_ERROR" "\<lambda>_. True"
    "\<lambda>r. r\<lparr>s_status := STATUS_ERROR\<rparr>"
  by unfold_locales (simp_all add: store_run)

interpretation mark_nuked: port_safe_update mark_nuked
    "\<lambda>r. s_status r \<notin> {STATUS_NUKED, STATUS_EXPIRED}" "\<lambda>r. r\<lparr>s_status := STATUS_NUKED\<rparr>"
  by unfold_locales (simp_all add: store_run)

interpretation to_ready: port_safe_update "\<lambda>sid. update_to_ready sid c e m"
    "\<lambda>r. s_status r = STATUS_STARTING"
    "\<lambda>r. r\<lparr>s_status := STATUS_READY, s_creds_enc := c, s_expires_at := e, s_max_extended_until := m\<rparr>"
  for c e m
  by unfold_locales (simp_all add: store_run holds_port_def)

interpretation ttl_update: port_safe_update "\<lambda>sid. update_ttl sid e x" "\<lambda>_. True"
    "\<lambda>r. r\<lparr>s_expires_at := e, s_ttl_extended := x\<rparr>"
  for e x
  by unfold_locales (simp_all add: store_run)

text \<open>\<^verbatim>\<open>update_port\<close> promises only the contract of an update: the new port may be held.\<close>

interpretation port_update: row_update "\<lambda>sid. update_port sid p" "\<lambda>_. True" "\<lambda>r. r\<lparr>s_port := p\<rparr>"
  for p
  by unfold_locales (simp_all add: store_run)

lemma wf_claim_expired:
  assumes "wf_store rows"
  shows "wf_store (snd (claim_expired now rows))"
proof -
  have "unique_ids rows" using assms by (simp add: wf_store_def)
  then show ?thesis
    using assms by (auto simp: store_run holds_port_def expired_due_def intro!: wf_store_update_where)
qed

lemma wf_claim_stuck: "wf_store rows \<Longrightarrow> wf_store (snd (claim_stuck now g rows))"
  by (simp add: store_run)

section \<open>Reserving a session\<close>

lemma check_draft_row: "check_draft d = Inr r \<Longrightarrow> r = row_of d"
  and check_draft_status: "check_draft d = Inr r \<Longrightarrow> s_status r \<in> set VALID_STATUSES"
  by (auto simp: check_draft_def row_of_def split: if_splits)

lemma insert_row_Inr:
  "insert_row r rows = (Inr u, rows') \<longleftrightarrow> s_id r \<notin> s_id ` set rows \<and> rows' = rows @ [r]"
  by (auto simp: insert_row_def)

lemma reserve_Inr:
  "reserve_session fac alloc rows = (Inr d, rows') \<longleftrightarrow>
     (\<exists>p. alloc (used_ports rows) = Inr p \<and> d = fac p \<and> check_draft d = Inr (row_of d)
          \<and> s_id (row_of d) \<notin> s_id ` set rows \<and> rows' = rows @ [row_of d])"
  unfolding reserve_session_def tx_Inr bindE_Inr thenE_Inr Let_def liftE_apply getsW_apply ret_apply
  by (auto simp: insert_row_Inr dest: check_draft_row)

lemma reserve_Inl: "reserve_session fac alloc rows = (Inl e, rows') \<Longrightarrow> rows' = rows"
  by (simp add: reserve_session_def tx_Inl)

lemma wf_append:
  assumes "wf_store rows" and "s_id r \<notin> s_id ` set rows" and "s_status r \<in> set VALID_STATUSES"
    and "s_port r \<notin> used_ports rows"
  shows "wf_store (rows @ [r])"
  using assms by (auto simp: wf_store_def unique_ids_def active_ports_distinct_def used_ports_def)

text \<open>
  What a port allocator promises to \<^const>\<open>reserve_session\<close>: a port of the range that is not in
  use, and an exception only when there is none.
\<close>

locale port_allocator =
  fixes alloc :: "int set \<Rightarrow> exn + int" and ports :: "int set"
  assumes alloc_fresh: "alloc used = Inr p \<Longrightarrow> p \<in> ports \<and> p \<notin> used"
    and alloc_complete: "alloc used = Inl e \<Longrightarrow> ports \<subseteq> used"
begin

lemma reserve_port:
  assumes "reserve_session fac alloc rows = (Inr d, rows')" and "\<And>p. d_port (fac p) = Some p"
  shows "s_port (row_of d) \<in> ports" and "s_port (row_of d) \<notin> used_ports rows"
proof -
  obtain p where "alloc (used_ports rows) = Inr p" and "d = fac p"
    using assms(1) unfolding reserve_Inr by blast
  with assms(2)[of p] alloc_fresh show "s_port (row_of d) \<in> ports"
    and "s_port (row_of d) \<notin> used_ports rows"
    by (auto simp: row_of_def)
qed

lemma reserve_wf:
  assumes "wf_store rows" and res: "reserve_session fac alloc rows = (r, rows')"
    and port: "\<And>p. d_port (fac p) = Some p"
  shows "wf_store rows'"
proof (cases r)
  case (Inl e)
  with assms show ?thesis by (auto dest: reserve_Inl)
next
  case (Inr d)
  with res have res': "reserve_session fac alloc rows = (Inr d, rows')" by simp
  then have "check_draft d = Inr (row_of d)" and "s_id (row_of d) \<notin> s_id ` set rows"
    and "rows' = rows @ [row_of d]"
    unfolding reserve_Inr by blast+
  then show ?thesis
    using assms(1) reserve_port(2)[OF res' port] by (auto intro: wf_append check_draft_status)
qed

text \<open>A reservation fails for want of a port only when every port of the range is held.\<close>

lemma reserve_free_port:
  assumes "p \<in> ports" and "p \<notin> used_ports rows"
  obtains q where "alloc (used_ports rows) = Inr q"
  using assms alloc_complete[of "used_ports rows"] by (cases "alloc (used_ports rows)") auto

end

end
