(* ===== verification/Runtime.thy ===== *)
theory Runtime
  imports State
begin

text \<open>
  The machine the service runs on. The operating system, the programs it starts (docker, mysql,
  ssh), the network, the clock, the random source and the Fernet library are not code of the
  repository: they are the fields of an \<open>env\<close>, functions on an unknown state \<open>'x\<close>. A \<open>world\<close>
  joins that state with the session store, the monotonic clock and the list of the requests made so
  far, in order. Everything the service does to its surroundings is a program built from the
  primitives below.
\<close>

section \<open>Processes\<close>

text \<open>The arguments of \<^verbatim>\<open>subprocess.run\<close>; \<open>None\<close> for an inherited environment or no input.\<close>

record proc =
  p_argv :: "string list"
  p_env :: "(string \<times> string) list option"
  p_stdin :: "string option"
  p_timeout :: int

text \<open>Its result; the output is the decoded text.\<close>

record completed =
  c_returncode :: int
  c_stdout :: string
  c_stderr :: string

text \<open>The two ends of a pipeline \<^verbatim>\<open>first | second\<close>.\<close>

record piped =
  first_rc :: int
  first_err :: string
  second_rc :: int
  second_err :: string

section \<open>The outside\<close>

text \<open>
  A call that takes time returns the milliseconds it took. \<open>e_run\<close> and \<open>e_pipe\<close> may raise (the
  program is missing, the timeout passed), as may the file operations.
\<close>

record 'x env =
  e_run :: "proc \<Rightarrow> 'x \<Rightarrow> (exn + completed) \<times> nat \<times> 'x"
  e_pipe :: "proc \<Rightarrow> proc \<Rightarrow> 'x \<Rightarrow> (exn + piped) \<times> nat \<times> 'x"
  e_spawn :: "string list \<Rightarrow> 'x \<Rightarrow> (exn + nat) \<times> nat \<times> 'x"
  e_poll :: "nat \<Rightarrow> 'x \<Rightarrow> int option"
  e_terminate :: "nat \<Rightarrow> 'x \<Rightarrow> (exn + unit) \<times> nat \<times> 'x"
  e_wait :: "nat \<Rightarrow> int \<Rightarrow> 'x \<Rightarrow> (exn + int) \<times> nat \<times> 'x"
  e_kill :: "nat \<Rightarrow> 'x \<Rightarrow> (exn + unit) \<times> nat \<times> 'x"
  e_connect :: "string \<Rightarrow> int \<Rightarrow> 'x \<Rightarrow> (exn + bool) \<times> nat \<times> 'x"
  e_free_port :: "'x \<Rightarrow> (exn + int) \<times> nat \<times> 'x"
  e_open :: "string \<Rightarrow> 'x \<Rightarrow> (exn + unit) \<times> nat \<times> 'x"
  e_mkdir :: "string \<Rightarrow> 'x \<Rightarrow> (exn + unit) \<times> nat \<times> 'x"
  e_write :: "string \<Rightarrow> bytes \<Rightarrow> 'x \<Rightarrow> (exn + unit) \<times> nat \<times> 'x"
  e_chmod :: "string \<Rightarrow> nat \<Rightarrow> 'x \<Rightarrow> (exn + unit) \<times> nat \<times> 'x"
  e_rmtree :: "string \<Rightarrow> 'x \<Rightarrow> (exn + unit) \<times> nat \<times> 'x"
  e_read :: "string \<Rightarrow> 'x \<Rightarrow> exn + bytes"
  e_exists :: "string \<Rightarrow> 'x \<Rightarrow> exn + bool"
  e_which :: "string \<Rightarrow> 'x \<Rightarrow> string option"
  e_environ :: "string \<Rightarrow> 'x \<Rightarrow> string option"
  e_time :: "'x \<Rightarrow> int"
  e_date :: "'x \<Rightarrow> string"
  e_uuid :: "'x \<Rightarrow> string \<times> 'x"
  e_random :: "nat \<Rightarrow> 'x \<Rightarrow> bytes \<times> 'x"
  e_randbelow :: "nat \<Rightarrow> 'x \<Rightarrow> nat \<times> 'x"
  e_encrypt :: "string \<Rightarrow> bytes \<Rightarrow> 'x \<Rightarrow> bytes \<times> 'x"
  e_decrypt :: "string \<Rightarrow> bytes \<Rightarrow> bytes option"
  e_key_ok :: "string \<Rightarrow> bool"

text \<open>The requests that change something outside, as they are recorded.\<close>

datatype event =
    Ran proc
  | Piped proc proc
  | Spawned "string list"
  | Terminated nat
  | Waited nat
  | Killed nat
  | Connected string int
  | PickedPort
  | Opened string
  | MadeDir string
  | Wrote string bytes
  | Chmodded string nat
  | Removed string

record 'x world =
  db :: store
  os :: 'x
  clock :: nat
  trace :: "event list"

section \<open>The primitives\<close>

definition os_call :: "event \<Rightarrow> ('x \<Rightarrow> (exn + 'a) \<times> nat \<times> 'x) \<Rightarrow> ('x world, 'a) prog" where
  "os_call ev f = (\<lambda>w. case f (os w) of (r, dt, x) \<Rightarrow>
     (r, w\<lparr>os := x, clock := clock w + dt, trace := trace w @ [ev]\<rparr>))"

definition os_read :: "('x \<Rightarrow> exn + 'a) \<Rightarrow> ('x world, 'a) prog" where
  "os_read f = (\<lambda>w. (f (os w), w))"

definition os_draw :: "('x \<Rightarrow> 'a \<times> 'x) \<Rightarrow> ('x world, 'a) prog" where
  "os_draw f = (\<lambda>w. case f (os w) of (a, x) \<Rightarrow> (Inr a, w\<lparr>os := x\<rparr>))"

definition run_proc :: "'x env \<Rightarrow> proc \<Rightarrow> ('x world, completed) prog" where
  "run_proc E p = os_call (Ran p) (e_run E p)"

definition write_file :: "'x env \<Rightarrow> string \<Rightarrow> bytes \<Rightarrow> ('x world, unit) prog" where
  "write_file E path content = os_call (Wrote path content) (e_write E path content)"

text \<open>\<^verbatim>\<open>Path.write_text\<close> encodes in UTF-8.\<close>

definition write_text :: "'x env \<Rightarrow> string \<Rightarrow> string \<Rightarrow> ('x world, unit) prog" where
  "write_text E path text = write_file E path (utf8_encode text)"

definition chmod :: "'x env \<Rightarrow> string \<Rightarrow> nat \<Rightarrow> ('x world, unit) prog" where
  "chmod E path mode = os_call (Chmodded path mode) (e_chmod E path mode)"

definition mkdir :: "'x env \<Rightarrow> string \<Rightarrow> ('x world, unit) prog" where
  "mkdir E path = os_call (MadeDir path) (e_mkdir E path)"

text \<open>\<^verbatim>\<open>shutil.rmtree(path, ignore_errors=True)\<close>.\<close>

definition rmtree :: "'x env \<Rightarrow> string \<Rightarrow> ('x world, unit) prog" where
  "rmtree E path = quietE (os_call (Removed path) (e_rmtree E path))"

definition path_exists :: "'x env \<Rightarrow> string \<Rightarrow> ('x world, bool) prog" where
  "path_exists E path = os_read (e_exists E path)"

definition read_bytes :: "'x env \<Rightarrow> string \<Rightarrow> ('x world, bytes) prog" where
  "read_bytes E path = os_read (e_read E path)"

definition tcp_connect :: "'x env \<Rightarrow> string \<Rightarrow> int \<Rightarrow> ('x world, bool) prog" where
  "tcp_connect E host port = os_call (Connected host port) (e_connect E host port)"

definition sleep_ms :: "nat \<Rightarrow> ('x world, unit) prog" where
  "sleep_ms ms = (\<lambda>w. (Inr (), w\<lparr>clock := clock w + ms\<rparr>))"

text \<open>\<^verbatim>\<open>int(time.time())\<close>.\<close>

definition now_s :: "'x env \<Rightarrow> ('x world, int) prog" where
  "now_s E = os_read (\<lambda>x. Inr (e_time E x))"

text \<open>\<^verbatim>\<open>except OSError\<close>: the class and its subclasses.\<close>

definition is_os_error :: "exn \<Rightarrow> bool" where
  "is_os_error e =
     (case e of OSError _ \<Rightarrow> True | FileNotFoundError _ \<Rightarrow> True | PermissionError _ \<Rightarrow> True | _ \<Rightarrow> False)"

text \<open>One operation of the session store.\<close>

definition store_op :: "(store, 'a) prog \<Rightarrow> ('x world, 'a) prog" where
  "store_op m = (\<lambda>w. case m (db w) of (r, rows) \<Rightarrow> (r, w\<lparr>db := rows\<rparr>))"

text \<open>\<^verbatim>\<open>Path / name\<close> for a relative name.\<close>

definition path_join :: "string \<Rightarrow> string \<Rightarrow> string" where
  "path_join dir name = (if dir = ''/'' then dir @ name else dir @ ''/'' @ name)"

section \<open>Frames of the primitives\<close>

named_theorems clock_intros

definition clock_mono :: "('x world, 'a) prog \<Rightarrow> bool" where
  "clock_mono m \<longleftrightarrow> (\<forall>w. clock w \<le> clock (snd (m w)))"

lemma clock_monoD: "clock_mono m \<Longrightarrow> m w = (r, w') \<Longrightarrow> clock w \<le> clock w'"
  by (metis clock_mono_def snd_conv)

lemma clock_mono_basic [clock_intros]:
  "clock_mono (ret a)" "clock_mono (throw e)" "clock_mono (liftE r)" "clock_mono (getsW g)"
  "clock_mono (os_call ev f)" "clock_mono (os_read h)" "clock_mono (os_draw d)"
  "clock_mono (store_op s)"
  by (auto simp: clock_mono_def prog_simps os_call_def os_read_def os_draw_def store_op_def
      split: prod.split)

lemma clock_mono_bindE [clock_intros]:
  "clock_mono m \<Longrightarrow> (\<And>a. clock_mono (n a)) \<Longrightarrow> clock_mono (bindE m n)"
  unfolding clock_mono_def bindE_def
  by (auto split: prod.split sum.split) (metis order_trans snd_conv)+

lemma clock_mono_thenE [clock_intros]:
  "clock_mono m \<Longrightarrow> clock_mono n \<Longrightarrow> clock_mono (thenE m n)"
  unfolding thenE_def by (rule clock_mono_bindE)

lemma clock_mono_catchE [clock_intros]:
  "clock_mono m \<Longrightarrow> (\<And>e. clock_mono (h e)) \<Longrightarrow> clock_mono (catchE m h)"
  unfolding clock_mono_def catchE_def
  by (auto split: prod.split sum.split) (metis order_trans snd_conv)+

lemma clock_mono_if [clock_intros]:
  "clock_mono m \<Longrightarrow> clock_mono n \<Longrightarrow> clock_mono (if b then m else n)"
  by simp

text \<open>Nothing but \<^const>\<open>store_op\<close> touches the session store.\<close>

lemma frames_db_prims [frame_intros]:
  "frames db (os_call ev f)" "frames db (os_read h)" "frames db (os_draw d)" "frames db (sleep_ms ms)"
  by (auto simp: frames_def os_call_def os_read_def os_draw_def sleep_ms_def split: prod.split)

lemma frames_db_ops [frame_intros]:
  "frames db (run_proc E p)" "frames db (write_file E q c)" "frames db (write_text E q t)"
  "frames db (chmod E q mode)" "frames db (mkdir E q)" "frames db (rmtree E q)"
  "frames db (path_exists E q)" "frames db (read_bytes E q)" "frames db (tcp_connect E h port)"
  "frames db (now_s E)"
  by (auto simp: run_proc_def write_file_def write_text_def chmod_def mkdir_def rmtree_def
      path_exists_def read_bytes_def tcp_connect_def now_s_def intro!: frame_intros)

lemma db_store_op [simp]: "db (snd (store_op m w)) = snd (m (db w))"
  and fst_store_op [simp]: "fst (store_op m w) = fst (m (db w))"
  by (simp_all add: store_op_def split: prod.split)

lemma store_op_eq: "store_op m w = (fst (m (db w)), w\<lparr>db := snd (m (db w))\<rparr>)"
  by (simp add: store_op_def split: prod.split)

lemma raises_os_call:
  assumes "\<And>x e. fst (f x) = Inl e \<Longrightarrow> P e"
  shows "raises (os_call ev f) P"
proof (rule raisesI)
  fix w e w'
  assume "os_call ev f w = (Inl e, w')"
  then have "fst (f (os w)) = Inl e" by (auto simp: os_call_def split: prod.splits)
  then show "P e" by (rule assms)
qed

section \<open>The requests a program makes\<close>

named_theorems adds_intros

text \<open>Every request \<open>m\<close> makes satisfies \<open>P\<close>.\<close>

definition adds :: "(event \<Rightarrow> bool) \<Rightarrow> ('x world, 'a) prog \<Rightarrow> bool" where
  "adds P m \<longleftrightarrow> (\<forall>w. \<exists>evs. trace (snd (m w)) = trace w @ evs \<and> (\<forall>ev \<in> set evs. P ev))"

lemma addsD: "adds P m \<Longrightarrow> m w = (r, w') \<Longrightarrow> \<exists>evs. trace w' = trace w @ evs \<and> (\<forall>ev \<in> set evs. P ev)"
  by (metis adds_def snd_conv)

lemma addsI:
  "(\<And>w r w'. m w = (r, w') \<Longrightarrow> \<exists>evs. trace w' = trace w @ evs \<and> (\<forall>ev \<in> set evs. P ev)) \<Longrightarrow> adds P m"
  unfolding adds_def by (metis prod.collapse)

lemma adds_pure [adds_intros]:
  "adds P (ret a)" "adds P (throw e)" "adds P (liftE r)" "adds P (getsW g)" "adds P (os_read h)"
  "adds P (os_draw d)" "adds P (store_op s)" "adds P (sleep_ms ms)"
  by (simp_all add: adds_def prog_simps os_read_def os_draw_def store_op_def sleep_ms_def split: prod.split)

lemma adds_os_call [adds_intros]: "P ev \<Longrightarrow> adds P (os_call ev f)"
  by (simp add: adds_def os_call_def split: prod.split)

lemma adds_trans:
  assumes "\<exists>evs. trace w1 = trace w @ evs \<and> (\<forall>ev \<in> set evs. P ev)"
    and "\<exists>evs. trace w2 = trace w1 @ evs \<and> (\<forall>ev \<in> set evs. P ev)"
  shows "\<exists>evs. trace w2 = trace w @ evs \<and> (\<forall>ev \<in> set evs. P ev)"
  using assms by (metis Un_iff append_assoc set_append)

lemma adds_bindE [adds_intros]:
  assumes "adds P m" and "\<And>a. adds P (n a)"
  shows "adds P (bindE m n)"
proof (rule addsI)
  fix w r w' assume run: "bindE m n w = (r, w')"
  obtain x w1 where m: "m w = (x, w1)" by fastforce
  note 1 = addsD[OF assms(1) m]
  show "\<exists>evs. trace w' = trace w @ evs \<and> (\<forall>ev \<in> set evs. P ev)"
  proof (cases x)
    case (Inl e)
    with run m 1 show ?thesis by (simp add: bindE_apply)
  next
    case (Inr a)
    with run m have "n a w1 = (r, w')" by (simp add: bindE_apply)
    from addsD[OF assms(2) this] 1 show ?thesis by (blast intro: adds_trans)
  qed
qed

lemma adds_thenE [adds_intros]: "adds P m \<Longrightarrow> adds P n \<Longrightarrow> adds P (thenE m n)"
  unfolding thenE_def by (rule adds_bindE)

lemma adds_catchE_cond:
  assumes "adds P m" and "raises m Q" and "\<And>e. Q e \<Longrightarrow> adds P (h e)"
  shows "adds P (catchE m h)"
proof (rule addsI)
  fix w r w' assume run: "catchE m h w = (r, w')"
  obtain x w1 where m: "m w = (x, w1)" by fastforce
  note 1 = addsD[OF assms(1) m]
  show "\<exists>evs. trace w' = trace w @ evs \<and> (\<forall>ev \<in> set evs. P ev)"
  proof (cases x)
    case (Inl e)
    with run m have "h e w1 = (r, w')" by (simp add: catchE_apply)
    moreover have "adds P (h e)" using assms(2,3) m Inl by (auto dest: raisesD)
    ultimately show ?thesis using 1 by (blast intro: adds_trans dest: addsD)
  next
    case (Inr a)
    with run m 1 show ?thesis by (simp add: catchE_apply)
  qed
qed

lemma adds_catchE [adds_intros]: "adds P m \<Longrightarrow> (\<And>e. adds P (h e)) \<Longrightarrow> adds P (catchE m h)"
  by (rule adds_catchE_cond[where Q = "\<lambda>_. True"]) (simp_all add: raises_def)

lemma adds_quietE [adds_intros]: "adds P m \<Longrightarrow> adds P (quietE m)"
  unfolding quietE_def by (intro adds_intros)

lemma adds_finallyE [adds_intros]:
  assumes "adds P m" and "adds P f"
  shows "adds P (finallyE m f)"
proof (rule addsI)
  fix w r w' assume run: "finallyE m f w = (r, w')"
  obtain x w1 where m: "m w = (x, w1)" by fastforce
  obtain y w2 where f: "f w1 = (y, w2)" by fastforce
  have "w' = w2" using run m f by (auto simp: finallyE_apply split: sum.splits)
  with addsD[OF assms(1) m] addsD[OF assms(2) f]
  show "\<exists>evs. trace w' = trace w @ evs \<and> (\<forall>ev \<in> set evs. P ev)" by (blast intro: adds_trans)
qed

lemma adds_for_eachE [adds_intros]: "(\<And>x. adds P (g x)) \<Longrightarrow> adds P (for_eachE g xs)"
  by (induction xs) (auto intro: adds_intros)

lemma adds_map_eachE [adds_intros]: "(\<And>x. adds P (g x)) \<Longrightarrow> adds P (map_eachE g xs)"
  by (induction xs) (auto intro: adds_intros)

lemma adds_if [adds_intros]: "adds P m \<Longrightarrow> adds P n \<Longrightarrow> adds P (if b then m else n)"
  by simp

end
