(* ===== verification/Json.thy ===== *)
theory Json
  imports Text "HOL-Library.List_Lexorder" "HOL-Library.Char_ord" "HOL-Library.Multiset"
begin

text \<open>
  The part of Python's \<^verbatim>\<open>json\<close> module behind \<^verbatim>\<open>dbs_json\<close> and the encrypted credentials:
  \<^verbatim>\<open>json.dumps\<close> with its separators, \<^verbatim>\<open>sort_keys\<close> and ASCII escapes, and \<^verbatim>\<open>json.loads\<close>
  as a recursive-descent parser with fuel. Floats are left out: no value the code stores has one.
  The main result is that parsing undoes printing.
\<close>

section \<open>Values\<close>

text \<open>An object is the list of its members in insertion order, as in a Python \<^verbatim>\<open>dict\<close>.\<close>

datatype json =
    JNull
  | JBool bool
  | JInt int
  | JStr string
  | JArr "json list"
  | JObj "(string \<times> json) list"

text \<open>\<^verbatim>\<open>d.get(k)\<close>; of duplicate members the last one counts, as when the dict was built.\<close>

definition jget :: "string \<Rightarrow> (string \<times> json) list \<Rightarrow> json option" where
  "jget k kvs = map_of (rev kvs) k"

section \<open>Printing\<close>

definition dquote :: char where
  "dquote = CHR 0x22"

definition backslash :: char where
  "backslash = CHR 0x5C"

definition esc_char :: "char \<Rightarrow> string" where
  "esc_char c =
     (let n = (of_char c :: nat) in
      if c = dquote \<or> c = backslash then [backslash, c]
      else if n = 10 then [backslash, CHR ''n'']
      else if n = 13 then [backslash, CHR ''r'']
      else if n = 9 then [backslash, CHR ''t'']
      else if n = 12 then [backslash, CHR ''f'']
      else if n = 8 then [backslash, CHR ''b'']
      else if 32 \<le> n \<and> n \<le> 126 then [c]
      else [backslash, CHR ''u'', CHR ''0'', CHR ''0'', hex_char (n div 16), hex_char (n mod 16)])"

definition dump_str :: "string \<Rightarrow> string" where
  "dump_str s = dquote # concat (map esc_char s) @ [dquote]"

text \<open>\<^verbatim>\<open>sort_keys=True\<close> sorts the members of every object by key.\<close>

fun sort_keys :: "json \<Rightarrow> json" where
  "sort_keys (JArr xs) = JArr (map sort_keys xs)"
| "sort_keys (JObj kvs) = JObj (sort_key fst (map (\<lambda>(k, v). (k, sort_keys v)) kvs))"
| "sort_keys v = v"

text \<open>\<open>isep\<close> and \<open>ksep\<close> are the pair \<^verbatim>\<open>separators\<close>.\<close>

fun dump :: "string \<Rightarrow> string \<Rightarrow> json \<Rightarrow> string" where
  "dump isep ksep JNull = ''null''"
| "dump isep ksep (JBool b) = (if b then ''true'' else ''false'')"
| "dump isep ksep (JInt i) = str_of_int i"
| "dump isep ksep (JStr s) = dump_str s"
| "dump isep ksep (JArr xs) = ''['' @ join isep (map (dump isep ksep) xs) @ '']''"
| "dump isep ksep (JObj kvs) =
     ''{'' @ join isep (map (\<lambda>(k, v). dump_str k @ ksep @ dump isep ksep v) kvs) @ ''}''"

text \<open>The two calls of the code: the defaults, and \<^verbatim>\<open>separators=(",", ":"), sort_keys=True\<close>.\<close>

definition dumps :: "json \<Rightarrow> string" where
  "dumps v = dump '', '' '': '' v"

definition dumps_compact :: "json \<Rightarrow> string" where
  "dumps_compact v = dump '','' '':'' (sort_keys v)"

section \<open>Parsing\<close>

definition is_ws :: "char \<Rightarrow> bool" where
  "is_ws c \<longleftrightarrow> c = CHR '' '' \<or> c = CHR 0x09 \<or> c = CHR 0x0A \<or> c = CHR 0x0D"

definition skip_ws :: "string \<Rightarrow> string" where
  "skip_ws s = dropWhile is_ws s"

text \<open>The value of a hexadecimal digit, in either case.\<close>

definition unhex :: "char \<Rightarrow> nat option" where
  "unhex c =
     (let n = (of_char c :: nat) in
      if 48 \<le> n \<and> n \<le> 57 then Some (n - 48)
      else if 97 \<le> n \<and> n \<le> 102 then Some (n - 87)
      else if 65 \<le> n \<and> n \<le> 70 then Some (n - 55)
      else None)"

definition unesc_u :: "char \<Rightarrow> char \<Rightarrow> char \<Rightarrow> char \<Rightarrow> char option" where
  "unesc_u a b c d =
     (case (unhex a, unhex b, unhex c, unhex d) of
        (Some p, Some q, Some x, Some y) \<Rightarrow>
          if p = 0 \<and> q = 0 then Some (char_of (16 * x + y)) else None
      | _ \<Rightarrow> None)"

text \<open>The one-character escapes.\<close>

definition unesc1 :: "char \<Rightarrow> char option" where
  "unesc1 c =
     (if c = dquote \<or> c = backslash \<or> c = CHR ''/'' then Some c
      else if c = CHR ''n'' then Some CHR 0x0A
      else if c = CHR ''r'' then Some CHR 0x0D
      else if c = CHR ''t'' then Some CHR 0x09
      else if c = CHR ''f'' then Some CHR 0x0C
      else if c = CHR ''b'' then Some CHR 0x08
      else None)"

text \<open>The rest of a string literal after its opening quote; control characters are errors.\<close>

fun parse_str :: "string \<Rightarrow> (string \<times> string) option" where
  "parse_str [] = None"
| "parse_str (c # cs) =
     (if c = dquote then Some ([], cs)
      else if c = backslash then
        (case cs of
           [] \<Rightarrow> None
         | e # cs1 \<Rightarrow>
             if e = CHR ''u'' then
               (case cs1 of
                  a # b # x # y # cs2 \<Rightarrow>
                    (case unesc_u a b x y of None \<Rightarrow> None
                     | Some ch \<Rightarrow> map_option (\<lambda>(s, r). (ch # s, r)) (parse_str cs2))
                | _ \<Rightarrow> None)
             else (case unesc1 e of None \<Rightarrow> None
                   | Some ch \<Rightarrow> map_option (\<lambda>(s, r). (ch # s, r)) (parse_str cs1)))
      else if (of_char c :: nat) < 32 then None
      else map_option (\<lambda>(s, r). (c # s, r)) (parse_str cs))"

fun nat_of_digits :: "nat \<Rightarrow> string \<Rightarrow> nat" where
  "nat_of_digits acc [] = acc"
| "nat_of_digits acc (c # cs) = nat_of_digits (10 * acc + (of_char c - 48)) cs"

text \<open>An integer literal: no leading zero, and no fraction or exponent after it.\<close>

definition parse_nat :: "string \<Rightarrow> (nat \<times> string) option" where
  "parse_nat s =
     (let ds = takeWhile is_digit s; r = dropWhile is_digit s in
      if ds = [] \<or> (hd ds = CHR ''0'' \<and> tl ds \<noteq> [])
         \<or> (r \<noteq> [] \<and> hd r \<in> {CHR ''.'', CHR ''e'', CHR ''E''})
      then None else Some (nat_of_digits 0 ds, r))"

definition parse_lit :: "string \<Rightarrow> json \<Rightarrow> string \<Rightarrow> (json \<times> string) option" where
  "parse_lit lit v s = (if prefix lit s then Some (v, drop (length lit) s) else None)"

fun parse_value :: "nat \<Rightarrow> string \<Rightarrow> (json \<times> string) option"
  and parse_elems :: "nat \<Rightarrow> string \<Rightarrow> (json list \<times> string) option"
  and parse_members :: "nat \<Rightarrow> string \<Rightarrow> ((string \<times> json) list \<times> string) option"
where
  "parse_value 0 s = None"
| "parse_value (Suc f) s =
     (case s of
        [] \<Rightarrow> None
      | c # cs \<Rightarrow>
          if c = dquote then map_option (\<lambda>(x, r). (JStr x, r)) (parse_str cs)
          else if c = CHR ''['' then
            (case skip_ws cs of
               [] \<Rightarrow> None
             | d # ds \<Rightarrow>
                 if d = CHR '']'' then Some (JArr [], ds)
                 else map_option (\<lambda>(xs, r). (JArr xs, r)) (parse_elems f (d # ds)))
          else if c = CHR ''{'' then
            (case skip_ws cs of
               [] \<Rightarrow> None
             | d # ds \<Rightarrow>
                 if d = CHR ''}'' then Some (JObj [], ds)
                 else map_option (\<lambda>(kvs, r). (JObj kvs, r)) (parse_members f (d # ds)))
          else if c = CHR ''n'' then parse_lit ''null'' JNull s
          else if c = CHR ''t'' then parse_lit ''true'' (JBool True) s
          else if c = CHR ''f'' then parse_lit ''false'' (JBool False) s
          else if c = CHR ''-'' then map_option (\<lambda>(n, r). (JInt (- int n), r)) (parse_nat cs)
          else map_option (\<lambda>(n, r). (JInt (int n), r)) (parse_nat s))"
| "parse_elems 0 s = None"
| "parse_elems (Suc f) s =
     (case parse_value f s of
        None \<Rightarrow> None
      | Some (v, r) \<Rightarrow>
          (case skip_ws r of
             [] \<Rightarrow> None
           | c # cs \<Rightarrow>
               if c = CHR '']'' then Some ([v], cs)
               else if c = CHR '','' then
                 map_option (\<lambda>(vs, r'). (v # vs, r')) (parse_elems f (skip_ws cs))
               else None))"
| "parse_members 0 s = None"
| "parse_members (Suc f) s =
     (case s of
        [] \<Rightarrow> None
      | q # qs \<Rightarrow>
          if q \<noteq> dquote then None
          else (case parse_str qs of
                  None \<Rightarrow> None
                | Some (k, r) \<Rightarrow>
                    (case skip_ws r of
                       [] \<Rightarrow> None
                     | c # cs \<Rightarrow>
                         if c \<noteq> CHR '':'' then None
                         else (case parse_value f (skip_ws cs) of
                                 None \<Rightarrow> None
                               | Some (v, r') \<Rightarrow>
                                   (case skip_ws r' of
                                      [] \<Rightarrow> None
                                    | e # es \<Rightarrow>
                                        if e = CHR ''}'' then Some ([(k, v)], es)
                                        else if e = CHR '','' then
                                          map_option (\<lambda>(kvs, r''). ((k, v) # kvs, r''))
                                            (parse_members f (skip_ws es))
                                        else None)))))"

declare parse_value.simps [simp del] parse_elems.simps [simp del] parse_members.simps [simp del]

text \<open>
  Fuel: a nested call either consumes a character or is the one call of \<^const>\<open>parse_value\<close> that
  \<^const>\<open>parse_elems\<close> makes on the same text, so twice the length is enough.
\<close>

definition loads :: "string \<Rightarrow> json option" where
  "loads s =
     (case parse_value (2 * length s + 2) (skip_ws s) of
        Some (v, r) \<Rightarrow> if skip_ws r = [] then Some v else None
      | None \<Rightarrow> None)"

section \<open>Parsing undoes printing\<close>

subsection \<open>Strings\<close>

lemma unhex_hex_char: "d < 16 \<Longrightarrow> unhex (hex_char d) = Some d"
proof -
  assume "d < 16"
  then have "d \<in> set [0..<16]" by simp
  moreover have "\<forall>d \<in> set [0..<16]. unhex (hex_char d) = Some d" by code_simp
  ultimately show ?thesis by blast
qed

lemma control_chars:
  "char_of (8::nat) = CHR 0x08" "char_of (9::nat) = CHR 0x09" "char_of (10::nat) = CHR 0x0A"
  "char_of (12::nat) = CHR 0x0C" "char_of (13::nat) = CHR 0x0D"
  by code_simp+

lemma esc_char_cases:
  obtains (one) e where "esc_char c = [backslash, e]" and "e \<noteq> CHR ''u''" and "unesc1 e = Some c"
  | (plain) "esc_char c = [c]" and "c \<noteq> dquote" and "c \<noteq> backslash" and "32 \<le> (of_char c :: nat)"
  | (u) x y where "esc_char c = [backslash, CHR ''u'', CHR ''0'', CHR ''0'', x, y]"
      and "unesc_u CHR ''0'' CHR ''0'' x y = Some c"
proof -
  define n where "n = (of_char c :: nat)"
  have c: "c = char_of n" and n: "n < 256" by (simp_all add: n_def)
  consider "c = dquote \<or> c = backslash" | "n \<in> {8, 9, 10, 12, 13}"
    | "c \<noteq> dquote" "c \<noteq> backslash" "32 \<le> n" "n \<le> 126"
    | "c \<noteq> dquote" "c \<noteq> backslash" "n \<notin> {8, 9, 10, 12, 13}" "\<not> (32 \<le> n \<and> n \<le> 126)"
    by fastforce
  then show thesis
  proof cases
    case 1
    then show thesis by (intro one[of c]) (auto simp: esc_char_def unesc1_def dquote_def backslash_def)
  next
    case 2
    then show thesis
      by (elim insertE emptyE; intro one[of "the (map_of [(8, CHR ''b''), (9, CHR ''t''),
            (10, CHR ''n''), (12, CHR ''f''), (13, CHR ''r'')] n)"])
        (simp_all add: c control_chars esc_char_def unesc1_def dquote_def backslash_def)
  next
    case 3
    then show thesis by (intro plain) (auto simp: esc_char_def n_def Let_def)
  next
    case 4
    have "n div 16 < 16" using n by (intro less_mult_imp_div_less) simp
    then have "unhex (hex_char (n div 16)) = Some (n div 16)"
      and "unhex (hex_char (n mod 16)) = Some (n mod 16)"
      by (simp_all add: unhex_hex_char)
    moreover have "unhex CHR ''0'' = Some 0" by code_simp
    moreover have "16 * (n div 16) + n mod 16 = n" by simp
    ultimately have "unesc_u CHR ''0'' CHR ''0'' (hex_char (n div 16)) (hex_char (n mod 16)) = Some c"
      by (simp add: unesc_u_def c)
    moreover have "esc_char c = [backslash, CHR ''u'', CHR ''0'', CHR ''0'',
        hex_char (n div 16), hex_char (n mod 16)]"
      using 4 by (auto simp: esc_char_def n_def Let_def)
    ultimately show thesis by (rule u[rotated])
  qed
qed

lemma quote_chars [simp]: "dquote \<noteq> backslash" "backslash \<noteq> dquote"
  by (simp_all add: dquote_def backslash_def)

lemma parse_str_esc_char:
  "parse_str (esc_char c @ t) = map_option (\<lambda>(s, r). (c # s, r)) (parse_str t)"
  by (cases c rule: esc_char_cases) simp_all

lemma parse_str_dump: "parse_str (concat (map esc_char s) @ dquote # t) = Some (s, t)"
proof (induction s)
  case Nil
  show ?case by simp
next
  case (Cons c s)
  then show ?case by (simp add: parse_str_esc_char del: parse_str.simps)
qed

subsection \<open>Integers\<close>

lemma digit_char_cases:
  "d < 10 \<Longrightarrow> is_digit (digit_char d) \<and> of_char (digit_char d) - 48 = d \<and> (digit_char d = CHR ''0'' \<longrightarrow> d = 0)"
proof -
  assume "d < 10"
  then have "d \<in> set [0..<10]" by simp
  moreover have "\<forall>d \<in> set [0..<10]. is_digit (digit_char d) \<and> of_char (digit_char d) - 48 = d
      \<and> (digit_char d = CHR ''0'' \<longrightarrow> d = 0)" by code_simp
  ultimately show ?thesis by blast
qed

lemma nat_of_digits_append:
  "nat_of_digits a (xs @ ys) = nat_of_digits (nat_of_digits a xs) ys"
  by (induction xs arbitrary: a) auto

lemma str_of_nat_digits:
  "list_all is_digit (str_of_nat n) \<and> str_of_nat n \<noteq> [] \<and> nat_of_digits 0 (str_of_nat n) = n
   \<and> (hd (str_of_nat n) = CHR ''0'' \<longrightarrow> n = 0)"
proof (induction n rule: str_of_nat.induct)
  case (1 n)
  show ?case
  proof (cases "n < 10")
    case True
    then show ?thesis
      using digit_char_cases[OF True] by (auto simp: str_of_nat.simps[of n])
  next
    case False
    then have d: "n mod 10 < 10" and "n div 10 \<noteq> 0" by auto
    with 1[OF False] False show ?thesis
      using digit_char_cases[OF d] by (simp add: str_of_nat.simps[of n] nat_of_digits_append)
  qed
qed

text \<open>What may follow a printed value inside a printed document.\<close>

definition closes :: "string \<Rightarrow> bool" where
  "closes r \<longleftrightarrow> (case r of [] \<Rightarrow> True | c # _ \<Rightarrow> c \<in> {CHR '','', CHR '']'', CHR ''}''})"

lemma parse_nat_print: "closes r \<Longrightarrow> parse_nat (str_of_nat n @ r) = Some (n, r)"
proof -
  assume r: "closes r"
  have ds: "list_all is_digit (str_of_nat n)" "str_of_nat n \<noteq> []"
    "nat_of_digits 0 (str_of_nat n) = n" "hd (str_of_nat n) = CHR ''0'' \<Longrightarrow> n = 0"
    using str_of_nat_digits by blast+
  have stop: "takeWhile is_digit r = []" "dropWhile is_digit r = r"
    using r by (auto simp: closes_def is_digit_def char_between_def split: list.splits)
  have split: "takeWhile is_digit (str_of_nat n @ r) = str_of_nat n"
    "dropWhile is_digit (str_of_nat n @ r) = r"
    using ds(1) stop by (simp_all add: list_all_iff takeWhile_append2 dropWhile_append2)
  have zero: "hd (str_of_nat n) = CHR ''0'' \<Longrightarrow> tl (str_of_nat n) = []"
    using ds(4) by (auto simp: str_of_nat.simps[of 0])
  have "r \<noteq> [] \<Longrightarrow> hd r \<notin> {CHR ''.'', CHR ''e'', CHR ''E''}"
    using r by (auto simp: closes_def split: list.splits)
  then show ?thesis
    using ds zero by (auto simp: parse_nat_def split Let_def)
qed

subsection \<open>Documents\<close>

fun jsize :: "json \<Rightarrow> nat" where
  "jsize (JArr xs) = Suc (sum_list (map (\<lambda>x. Suc (jsize x)) xs))"
| "jsize (JObj kvs) = Suc (sum_list (map (\<lambda>(k, v). Suc (jsize v)) kvs))"
| "jsize v = 1"

lemma skip_ws_Cons [simp]: "skip_ws (c # cs) = (if is_ws c then skip_ws cs else c # cs)"
  and skip_ws_Nil [simp]: "skip_ws [] = []"
  by (simp_all add: skip_ws_def)

lemma is_ws_simps [simp]:
  "is_ws CHR '' ''" "\<not> is_ws CHR '',''" "\<not> is_ws CHR '':''" "\<not> is_ws CHR ''[''" "\<not> is_ws CHR '']''"
  "\<not> is_ws CHR ''{''" "\<not> is_ws CHR ''}''" "\<not> is_ws dquote" "\<not> is_ws CHR ''-''"
  by (simp_all add: is_ws_def dquote_def)

lemma is_digit_first: "is_digit c \<Longrightarrow> \<not> is_ws c \<and>
  c \<notin> {dquote, CHR ''['', CHR ''{'', CHR '']'', CHR ''}'', CHR ''n'', CHR ''t'', CHR ''f'', CHR ''-''}"
  by (auto simp: is_digit_def char_between_def is_ws_def dquote_def)

text \<open>The first character of a printed value is no blank and no closing bracket.\<close>

lemma dump_first:
  obtains c cs where "dump isep ksep v = c # cs" and "\<not> is_ws c" and "c \<notin> {CHR '']'', CHR ''}''}"
proof (cases v)
  case (JInt i)
  define ds where "ds = str_of_nat (nat i)"
  have "list_all is_digit ds" and "ds \<noteq> []"
    unfolding ds_def using str_of_nat_digits by blast+
  then obtain d ds' where "ds = d # ds'" and "is_digit d" by (cases ds) auto
  then show thesis
    using that JInt is_digit_first[of d] by (cases "i < 0") (auto simp: str_of_int_def ds_def)
next
  case (JStr s)
  then show thesis using that by (simp add: dump_str_def) (simp add: dquote_def)
next
  case (JBool b)
  then show thesis using that by (cases b) (auto simp: is_ws_def)
qed (use that in \<open>auto simp: is_ws_def\<close>)

lemma skip_ws_dump [simp]: "skip_ws (dump isep ksep v @ t) = dump isep ksep v @ t"
  by (rule dump_first[of isep ksep v]) simp

definition item_sep :: "string \<Rightarrow> bool" where
  "item_sep s \<longleftrightarrow> s = '','' \<or> s = '', ''"

definition key_sep :: "string \<Rightarrow> bool" where
  "key_sep s \<longleftrightarrow> s = '':'' \<or> s = '': ''"

lemma closes_simps [simp]:
  "closes (CHR '','' # t)" "closes (CHR '']'' # t)" "closes (CHR ''}'' # t)" "closes []"
  by (simp_all add: closes_def)

lemma closes_item_sep: "item_sep isep \<Longrightarrow> closes (isep @ t)"
  by (auto simp: item_sep_def)

text \<open>A list of items, given that each item reads back.\<close>

lemma parse_elems_dump:
  assumes isep: "item_sep isep" and ne: "xs \<noteq> []"
    and items: "\<And>x f r. x \<in> set xs \<Longrightarrow> jsize x \<le> f \<Longrightarrow> closes r \<Longrightarrow>
      parse_value f (dump isep ksep x @ r) = Some (x, r)"
    and fuel: "sum_list (map (\<lambda>x. Suc (jsize x)) xs) \<le> f"
  shows "parse_elems f (join isep (map (dump isep ksep) xs) @ CHR '']'' # t) = Some (xs, t)"
  using ne items fuel
proof (induction xs arbitrary: f rule: list_nonempty_induct)
  case (single x)
  then obtain g where g: "f = Suc g" "jsize x \<le> g" by (cases f) auto
  with single(1)[of x g "CHR '']'' # t"] show ?case by (simp add: parse_elems.simps)
next
  case (cons x xs)
  then obtain g where g: "f = Suc g" "jsize x \<le> g"
    "sum_list (map (\<lambda>x. Suc (jsize x)) xs) \<le> g" by (cases f) auto
  obtain y ys where xs: "xs = y # ys" using cons.hyps by (cases xs) auto
  define u where "u = join isep (map (dump isep ksep) xs) @ CHR '']'' # t"
  have u: "skip_ws u = u"
  proof -
    have "\<exists>s. u = dump isep ksep y @ s" unfolding u_def xs by (cases ys) auto
    then show ?thesis by auto
  qed
  have "parse_value g (dump isep ksep x @ isep @ u) = Some (x, isep @ u)"
    using cons.prems(1) g(2) closes_item_sep[OF isep] by simp
  moreover have "parse_elems g u = Some (xs, t)"
    unfolding u_def using cons.prems(1) g(3) by (intro cons.IH) auto
  moreover have "join isep (map (dump isep ksep) (x # xs)) @ CHR '']'' # t
      = dump isep ksep x @ isep @ u"
    unfolding u_def xs by simp
  ultimately show ?case
    using isep u by (auto simp: parse_elems.simps g(1) item_sep_def)
qed

text \<open>The members of an object, in the same way.\<close>

definition dump_member :: "string \<Rightarrow> string \<Rightarrow> string \<times> json \<Rightarrow> string" where
  "dump_member isep ksep = (\<lambda>(k, v). dump_str k @ ksep @ dump isep ksep v)"

lemma parse_str_dump_str: "dump_str k @ t = dquote # ks \<Longrightarrow> parse_str ks = Some (k, t)"
  by (auto simp: dump_str_def parse_str_dump)

lemma parse_members_dump:
  assumes isep: "item_sep isep" and ksep: "key_sep ksep" and ne: "kvs \<noteq> []"
    and items: "\<And>k v f r. (k, v) \<in> set kvs \<Longrightarrow> jsize v \<le> f \<Longrightarrow> closes r \<Longrightarrow>
      parse_value f (dump isep ksep v @ r) = Some (v, r)"
    and fuel: "sum_list (map (\<lambda>(k, v). Suc (jsize v)) kvs) \<le> f"
  shows "parse_members f (join isep (map (dump_member isep ksep) kvs) @ CHR ''}'' # t) = Some (kvs, t)"
  using ne items fuel
proof (induction kvs arbitrary: f rule: list_nonempty_induct)
  case (single m)
  obtain k v where m: "m = (k, v)" by (cases m)
  with single obtain g where g: "f = Suc g" "jsize v \<le> g" by (cases f) auto
  with single(1)[of k v g "CHR ''}'' # t"] m
  have "parse_value g (dump isep ksep v @ CHR ''}'' # t) = Some (v, CHR ''}'' # t)" by simp
  then show ?case
    using ksep by (auto simp: parse_members.simps m g(1) dump_member_def key_sep_def
        dump_str_def parse_str_dump)
next
  case (cons m kvs)
  obtain k v where m: "m = (k, v)" by (cases m)
  with cons obtain g where g: "f = Suc g" "jsize v \<le> g"
    "sum_list (map (\<lambda>(k, v). Suc (jsize v)) kvs) \<le> g" by (cases f) auto
  obtain y ys where xs: "kvs = y # ys" using cons.hyps by (cases kvs) auto
  define u where "u = join isep (map (dump_member isep ksep) kvs) @ CHR ''}'' # t"
  have u: "skip_ws u = u"
  proof -
    have "\<exists>s. u = dquote # s"
      unfolding u_def xs by (cases ys) (auto simp: dump_member_def dump_str_def split: prod.split)
    then show ?thesis by auto
  qed
  have "parse_value g (dump isep ksep v @ isep @ u) = Some (v, isep @ u)"
    using cons.prems(1)[of k v] g(2) closes_item_sep[OF isep] by (simp add: m)
  moreover have "parse_members g u = Some (kvs, t)"
    unfolding u_def using cons.prems(1) g(3) by (intro cons.IH) auto
  moreover have "join isep (map (dump_member isep ksep) (m # kvs)) @ CHR ''}'' # t
      = dump_str k @ ksep @ dump isep ksep v @ isep @ u"
    unfolding u_def xs by (simp add: m dump_member_def)
  ultimately show ?case
    using isep ksep u by (auto simp: parse_members.simps g(1) m item_sep_def key_sep_def
        dump_str_def parse_str_dump)
qed

text \<open>The three constructors whose dumps are read to the end of the value.\<close>

lemma parse_int_dump:
  assumes "closes r"
  shows "parse_value (Suc f) (dump isep ksep (JInt i) @ r) = Some (JInt i, r)"
proof -
  define ds where "ds = str_of_nat (nat i)"
  have "list_all is_digit ds" and "ds \<noteq> []"
    unfolding ds_def using str_of_nat_digits by blast+
  then obtain d ds' where ds: "ds = d # ds'" and "is_digit d" by (cases ds) auto
  then have d: "d \<notin> {dquote, CHR ''['', CHR ''{'', CHR ''n'', CHR ''t'', CHR ''f'', CHR ''-''}"
    using is_digit_first[of d] by auto
  have "parse_nat (ds @ r) = Some (nat i, r)"
    unfolding ds_def using assms by (rule parse_nat_print)
  then show ?thesis
    using d ds parse_nat_print[OF assms, of "nat (- i)"]
    by (auto simp: parse_value.simps str_of_int_def ds_def dquote_def)
qed

lemma parse_array_dump:
  assumes isep: "item_sep isep"
    and items: "\<And>x f r. x \<in> set xs \<Longrightarrow> jsize x \<le> f \<Longrightarrow> closes r \<Longrightarrow>
      parse_value f (dump isep ksep x @ r) = Some (x, r)"
    and fuel: "sum_list (map (\<lambda>x. Suc (jsize x)) xs) \<le> f"
  shows "parse_value (Suc f) (dump isep ksep (JArr xs) @ r) = Some (JArr xs, r)"
proof (cases xs)
  case Nil
  then show ?thesis by (simp add: parse_value.simps dquote_def)
next
  case (Cons y ys)
  define u where "u = join isep (map (dump isep ksep) xs) @ CHR '']'' # r"
  have p: "parse_elems f u = Some (xs, r)"
    unfolding u_def using Cons by (intro parse_elems_dump[OF isep _ items fuel]) simp_all
  have "\<exists>s. u = dump isep ksep y @ s" unfolding u_def Cons by (cases ys) auto
  then obtain c cs where u: "u = c # cs" "\<not> is_ws c" "c \<noteq> CHR '']''"
    by (metis append_Cons dump_first insertCI)
  with p show ?thesis by (simp add: parse_value.simps dquote_def u_def[symmetric])
qed

lemma parse_object_dump:
  assumes isep: "item_sep isep" and ksep: "key_sep ksep"
    and items: "\<And>k v f r. (k, v) \<in> set kvs \<Longrightarrow> jsize v \<le> f \<Longrightarrow> closes r \<Longrightarrow>
      parse_value f (dump isep ksep v @ r) = Some (v, r)"
    and fuel: "sum_list (map (\<lambda>(k, v). Suc (jsize v)) kvs) \<le> f"
  shows "parse_value (Suc f) (dump isep ksep (JObj kvs) @ r) = Some (JObj kvs, r)"
proof (cases kvs)
  case Nil
  then show ?thesis by (simp add: parse_value.simps dquote_def)
next
  case (Cons y ys)
  define u where "u = join isep (map (dump_member isep ksep) kvs) @ CHR ''}'' # r"
  have dump: "dump isep ksep (JObj kvs) @ r = CHR ''{'' # u"
    by (simp add: dump_member_def u_def)
  have p: "parse_members f u = Some (kvs, r)"
    unfolding u_def using Cons by (intro parse_members_dump[OF isep ksep _ items fuel]) simp_all
  have "\<exists>s. u = dquote # s"
    unfolding u_def Cons by (cases ys) (auto simp: dump_member_def dump_str_def split: prod.split)
  with p show ?thesis unfolding dump
    by (auto simp: parse_value.simps) (auto simp: dquote_def)
qed

lemma parse_value_dump:
  assumes isep: "item_sep isep" and ksep: "key_sep ksep"
  shows "jsize v \<le> f \<Longrightarrow> closes r \<Longrightarrow> parse_value f (dump isep ksep v @ r) = Some (v, r)"
proof (induction v arbitrary: f r)
  case (JInt i)
  then show ?case by (cases f) (simp_all only: parse_int_dump jsize.simps)
next
  case (JStr s)
  then show ?case by (cases f) (auto simp: parse_value.simps dump_str_def parse_str_dump)
next
  case (JArr xs)
  then show ?case
    by (cases f) (auto simp del: dump.simps intro!: parse_array_dump[OF isep] JArr.IH)
next
  case (JObj kvs)
  then show ?case
    by (cases f) (auto simp: snds.simps simp del: dump.simps intro!: parse_object_dump[OF isep ksep] JObj.IH)
qed (auto simp: parse_value.simps parse_lit_def dquote_def gr0_conv_Suc Suc_le_eq)

subsection \<open>Enough fuel, and the two codecs\<close>

lemma length_join_ge:
  assumes "sep \<noteq> []" and "xs \<noteq> []"
  shows "sum_list (map (\<lambda>x. Suc (length (f x))) xs) \<le> Suc (length (join sep (map f xs)))"
  using assms(2)
proof (induction xs rule: list_nonempty_induct)
  case (cons x xs)
  then obtain y ys where "xs = y # ys" by (cases xs) auto
  with cons assms(1) show ?case by (cases sep) auto
qed simp

lemma jsize_le_length: "item_sep isep \<Longrightarrow> jsize v \<le> length (dump isep ksep v)"
proof (induction v)
  case (JInt i)
  show ?case using str_of_nat_digits[of "nat i"] by (cases "str_of_nat (nat i)") (auto simp: str_of_int_def)
next
  case (JArr xs)
  show ?case
  proof (cases "xs = []")
    case False
    have "sum_list (map (\<lambda>x. Suc (jsize x)) xs) \<le> sum_list (map (\<lambda>x. Suc (length (dump isep ksep x))) xs)"
      using JArr by (intro sum_list_mono) simp
    also have "\<dots> \<le> Suc (length (join isep (map (dump isep ksep) xs)))"
      using JArr.prems False by (intro length_join_ge) (auto simp: item_sep_def)
    finally show ?thesis by simp
  qed simp
next
  case (JObj kvs)
  show ?case
  proof (cases "kvs = []")
    case False
    have "sum_list (map (\<lambda>(k, v). Suc (jsize v)) kvs)
        \<le> sum_list (map (\<lambda>m. Suc (length (dump_member isep ksep m))) kvs)"
      using JObj by (intro sum_list_mono) (fastforce simp: dump_member_def snds.simps)
    also have "\<dots> \<le> Suc (length (join isep (map (dump_member isep ksep) kvs)))"
      using JObj.prems False by (intro length_join_ge) (auto simp: item_sep_def)
    finally show ?thesis by (simp add: dump_member_def)
  qed simp
qed (simp_all add: dump_str_def)

lemma loads_dump:
  assumes "item_sep isep" and "key_sep ksep"
  shows "loads (dump isep ksep v) = Some v"
proof -
  have "jsize v \<le> 2 * length (dump isep ksep v) + 2"
    using jsize_le_length[OF assms(1), of v ksep] by simp
  from parse_value_dump[OF assms this, of "[]"] skip_ws_dump[of isep ksep v "[]"]
  show ?thesis by (simp add: loads_def)
qed

interpretation json: codec "\<lambda>_. True" dumps loads
  by unfold_locales (simp add: dumps_def loads_dump item_sep_def key_sep_def)

lemma loads_dumps_compact: "loads (dumps_compact v) = Some (sort_keys v)"
  by (simp add: dumps_compact_def loads_dump item_sep_def key_sep_def)

interpretation json_compact: codec "\<lambda>v. sort_keys v = v" dumps_compact loads
  by unfold_locales (simp add: loads_dumps_compact)

text \<open>Sorting the members does not change what a lookup finds.\<close>

lemma jget_sort_keys:
  assumes "distinct (map fst kvs)" and "sort_keys (JObj kvs) = JObj kvs'"
  shows "jget k kvs' = map_option sort_keys (jget k kvs)"
proof -
  define mkvs where "mkvs = map (\<lambda>(k, v). (k, sort_keys v)) kvs"
  have kvs': "kvs' = sort_key fst mkvs"
    using assms(2) by (simp add: mkvs_def)
  have dist: "distinct (map fst mkvs)"
    using assms(1) by (simp add: mkvs_def case_prod_beta comp_def)
  have "mset (map fst (sort_key fst mkvs)) = mset (map fst mkvs)" by simp
  then have dist': "distinct (map fst kvs')"
    unfolding kvs' using dist mset_eq_imp_distinct_iff by metis
  have "map_of (rev kvs') = map_of (rev mkvs)"
    using dist dist' by (subst map_of_inject_set) (simp_all add: kvs' rev_map[symmetric])
  moreover have "map_of (rev mkvs) k = map_option sort_keys (map_of (rev kvs) k)"
    unfolding mkvs_def by (simp add: rev_map map_of_map)
  ultimately show ?thesis by (simp add: jget_def)
qed

end
