(* ===== verification/Docker_Ops.thy ===== *)
theory Docker_Ops
  imports Runtime Json
begin

text \<open>
  \<^verbatim>\<open>api/docker_ops.py\<close>: port allocation, the session's directories, the rendered files, and
  the docker commands. The Jinja templates under \<^verbatim>\<open>templates/\<close> are plain concatenations (the
  \<^verbatim>\<open>j2\<close> extension has autoescaping off) and are written out.
\<close>

section \<open>Ports\<close>

fun scan_ports :: "int set \<Rightarrow> int list \<Rightarrow> exn + int" where
  "scan_ports used [] = Inl (DockerOpsError ''no free ports in configured range'')"
| "scan_ports used (p # ps) = (if p \<notin> used then Inr p else scan_ports used ps)"

definition allocate_port :: "int set \<Rightarrow> settings \<Rightarrow> exn + int" where
  "allocate_port used s = scan_ports used (port_range s)"

lemma scan_ports_fresh: "scan_ports used ps = Inr p \<Longrightarrow> p \<in> set ps \<and> p \<notin> used"
  by (induction ps) (auto split: if_splits)

lemma scan_ports_least:
  "scan_ports used ps = Inr p \<Longrightarrow> sorted ps \<Longrightarrow> q \<in> set ps \<Longrightarrow> q \<notin> used \<Longrightarrow> p \<le> q"
  by (induction ps) (auto split: if_splits dest: scan_ports_fresh)

lemma scan_ports_Inl: "scan_ports used ps = Inl e \<longleftrightarrow>
    set ps \<subseteq> used \<and> e = DockerOpsError ''no free ports in configured range''"
  by (induction ps) auto

text \<open>The allocator meets the contract \<^const>\<open>reserve_session\<close> relies on.\<close>

interpretation docker_ports: port_allocator "\<lambda>used. allocate_port used s" "set (port_range s)" for s
  by unfold_locales (auto simp: allocate_port_def scan_ports_Inl simp del: in_port_range
      dest: scan_ports_fresh)

section \<open>Directories\<close>

record session_paths =
  sp_session_dir :: string
  sp_compose_path :: string
  sp_cnf_path :: string
  sp_tls_dir :: string
  sp_log_dir :: string

definition make_session_paths ::
    "'x env \<Rightarrow> string \<Rightarrow> string \<Rightarrow> string \<Rightarrow> settings \<Rightarrow> ('x world, session_paths) prog" where
  "make_session_paths E sid ticket date_str s =
     (let compose_dir = path_join (sandbox_compose_dir s) sid;
          log_dir = path_join (path_join (sandbox_log_dir s) (ticket @ ''-'' @ date_str)) sid;
          tls_dir = path_join (sandbox_tls_dir s) sid
      in thenE (mkdir E compose_dir)
        (thenE (mkdir E log_dir)
        (thenE (mkdir E tls_dir)
        (ret \<lparr>sp_session_dir = compose_dir,
              sp_compose_path = path_join compose_dir ''docker-compose.yml'',
              sp_cnf_path = path_join compose_dir ''mysqld.cnf'',
              sp_tls_dir = tls_dir, sp_log_dir = log_dir\<rparr>))))"

section \<open>Rendered files\<close>

definition newline :: string where
  "newline = [CHR 0x0A]"

definition dq :: string where
  "dq = [CHR 0x22]"

definition sq :: string where
  "sq = [CHR 0x27]"

record compose_vars =
  v_container_name :: string
  v_mysql_image :: string
  v_sid :: string
  v_bind_host :: string
  v_host_port :: int
  v_root_password :: string
  v_log_dir :: string
  v_tls_dir :: string
  v_cnf_path :: string

text \<open>The file modes are \<^verbatim>\<open>0o640\<close> = 416 and \<^verbatim>\<open>0o644\<close> = 420.

  \<^verbatim>\<open>templates/docker-compose.yml.j2\<close>: the lines before the published port, the port, the rest.\<close>

definition compose_head :: "compose_vars \<Rightarrow> string list" where
  "compose_head v =
     [''services:'',
      ''  mysql:'',
      ''    container_name: '' @ v_container_name v,
      ''    image: '' @ v_mysql_image v,
      ''    user: '' @ dq @ ''999:999'' @ dq,
      ''    restart: '' @ dq @ ''no'' @ dq,
      ''    command:'',
      ''      - --ssl-ca=/etc/mysql/tls/ca.pem'',
      ''      - --ssl-cert=/etc/mysql/tls/server-cert.pem'',
      ''      - --ssl-key=/etc/mysql/tls/server-key.pem'',
      ''      - --require-secure-transport=ON'',
      ''      - --local-infile=0'',
      ''      - --performance-schema=ON'',
      ''    environment:'',
      ''      MYSQL_ROOT_PASSWORD: '' @ dq @ v_root_password v @ dq,
      ''      MYSQL_ROOT_HOST: '' @ dq @ ''%'' @ dq,
      ''    cap_drop:'',
      ''      - ALL'',
      ''    security_opt:'',
      ''      - no-new-privileges'',
      ''    pids_limit: 256'',
      ''    cpus: 1.0'',
      ''    mem_limit: 2g'',
      ''    ports:'']"

definition port_line :: "compose_vars \<Rightarrow> string" where
  "port_line v = ''      - '' @ dq @ v_bind_host v @ '':'' @ str_of_int (v_host_port v) @ '':3306'' @ dq"

definition compose_tail :: "compose_vars \<Rightarrow> string list" where
  "compose_tail v =
     [''    volumes:'',
      ''      - sandbox-'' @ v_sid v @ ''-data:/var/lib/mysql'',
      ''      - '' @ dq @ v_log_dir v @ '':/var/log/mysql'' @ dq,
      ''      - '' @ dq @ v_tls_dir v @ '':/etc/mysql/tls:ro'' @ dq,
      ''      - '' @ dq @ v_cnf_path v @ '':/etc/mysql/conf.d/sandbox.cnf:ro'' @ dq,
      ''    healthcheck:'',
      ''      test:'',
      ''        - CMD-SHELL'',
      ''        - mysqladmin ping -h 127.0.0.1 -uroot -p'' @ dq @ ''$$MYSQL_ROOT_PASSWORD'' @ dq
        @ '' --ssl-mode=REQUIRED --ssl-ca=/etc/mysql/tls/ca.pem'',
      ''      interval: 5s'',
      ''      timeout: 5s'',
      ''      retries: 60'',
      ''      start_period: 180s'',
      [],
      ''volumes:'',
      ''  sandbox-'' @ v_sid v @ ''-data:'']"

definition compose_text :: "compose_vars \<Rightarrow> string" where
  "compose_text v = join newline (compose_head v @ [port_line v] @ compose_tail v)"

definition render_compose ::
    "'x env \<Rightarrow> session_paths \<Rightarrow> string \<Rightarrow> string \<Rightarrow> string \<Rightarrow> string \<Rightarrow> int \<Rightarrow> string
      \<Rightarrow> ('x world, string) prog" where
  "render_compose E paths sid container_name mysql_image bind_host host_port root_password =
     (let rendered = compose_text
        \<lparr>v_container_name = container_name, v_mysql_image = mysql_image, v_sid = sid,
         v_bind_host = bind_host, v_host_port = host_port, v_root_password = root_password,
         v_log_dir = sp_log_dir paths, v_tls_dir = sp_tls_dir paths,
         v_cnf_path = sp_cnf_path paths\<rparr>
      in thenE (write_text E (sp_compose_path paths) rendered)
        (thenE (chmod E (sp_compose_path paths) 416)
        (ret (sp_compose_path paths))))"

text \<open>\<^verbatim>\<open>templates/mysqld.cnf.j2\<close>, which has no variables.\<close>

definition mysqld_cnf_text :: string where
  "mysqld_cnf_text = join newline
     [''[mysqld]'',
      ''ssl-ca = /etc/mysql/tls/ca.pem'',
      ''ssl-cert = /etc/mysql/tls/server-cert.pem'',
      ''ssl-key = /etc/mysql/tls/server-key.pem'',
      ''require-secure-transport = ON'',
      ''local-infile = 0'',
      ''performance-schema = ON'',
      ''# default-authentication-plugin is a CLI-only option in MySQL 8.x; the'',
      ''# server refuses it from mysqld.cnf with MY-000067. We start the container'',
      ''# with `--default-authentication-plugin=caching_sha2_password` instead.'',
      ''skip-name-resolve'',
      ''log_error = /var/log/mysql/error.log'',
      ''slow_query_log = 1'',
      ''slow_query_log_file = /var/log/mysql/slow.log'',
      ''long_query_time = 2'',
      ''# Full statement audit for the sandbox: every Connect/Query/Quit lands in'',
      ''# general.log, which is bind-mounted to /var/log/sandboxes/<ticket>-<date>/<sid>/'',
      ''# and preserved after nuke + logrotate. Disk use at typical interactive load'',
      ''# is small; per-query fsync cost is acceptable for a per-DB-scoped dev session.'',
      ''general_log = 1'',
      ''general_log_file = /var/log/mysql/general.log'',
      ''log_output = FILE'',
      ''max_connections = 50'']"

definition render_mysqld_cnf :: "'x env \<Rightarrow> session_paths \<Rightarrow> ('x world, string) prog" where
  "render_mysqld_cnf E paths =
     thenE (write_text E (sp_cnf_path paths) mysqld_cnf_text)
    (thenE (chmod E (sp_cnf_path paths) 420)
    (ret (sp_cnf_path paths)))"

text \<open>\<^verbatim>\<open>templates/grant_user.sql.j2\<close>: one block per grant, the loop's newlines trimmed.\<close>

record grant =
  g_db :: string
  g_user :: string
  g_password :: string

definition grant_block :: "grant \<Rightarrow> string" where
  "grant_block g = join newline
     [''CREATE USER IF NOT EXISTS '' @ sq @ g_user g @ sq @ ''@'' @ sq @ ''%'' @ sq
        @ '' IDENTIFIED BY '' @ sq @ g_password g @ sq @ '' REQUIRE SSL;'',
      ''GRANT SELECT, INSERT, UPDATE, DELETE, CREATE, DROP, INDEX, ALTER,'',
      ''      CREATE TEMPORARY TABLES, LOCK TABLES, EXECUTE, CREATE VIEW, SHOW VIEW,'',
      ''      CREATE ROUTINE, ALTER ROUTINE, EVENT, TRIGGER'',
      ''  ON `'' @ g_db g @ ''`.* TO '' @ sq @ g_user g @ sq @ ''@'' @ sq @ ''%'' @ sq @ '';'',
      ''FLUSH PRIVILEGES;'',
      []]"

definition render_grant_sql :: "grant list \<Rightarrow> string" where
  "render_grant_sql grants = concat (map grant_block grants)"

definition root_alphabet :: string where
  "root_alphabet = ''abcdefghijklmnopqrstuvwxyzABCDEFGHIJKLMNOPQRSTUVWXYZ0123456789''"

definition gen_root_password :: "'x env \<Rightarrow> ('x world, string) prog" where
  "gen_root_password E = map_eachE
     (\<lambda>_. bindE (os_draw (e_randbelow E (length root_alphabet)))
            (\<lambda>k. ret (root_alphabet ! (k mod length root_alphabet))))
     (replicate 32 ())"

section \<open>Docker commands\<close>

definition compose :: "'x env \<Rightarrow> string \<Rightarrow> string list \<Rightarrow> int \<Rightarrow> ('x world, completed) prog" where
  "compose E compose_path args timeout =
     run_proc E \<lparr>p_argv = [''docker'', ''compose'', ''-f'', compose_path] @ args,
                 p_env = None, p_stdin = None, p_timeout = timeout\<rparr>"

definition up_session :: "'x env \<Rightarrow> string \<Rightarrow> int \<Rightarrow> ('x world, unit) prog" where
  "up_session E compose_path timeout =
     bindE (compose E compose_path [''up'', ''-d''] timeout) (\<lambda>proc.
     if c_returncode proc \<noteq> 0
     then throw (DockerOpsError (''docker compose up failed (rc='' @ str_of_int (c_returncode proc)
            @ ''): '' @ take 2000 (c_stderr proc)))
     else ret ())"

definition down_session :: "'x env \<Rightarrow> string \<Rightarrow> bool \<Rightarrow> int \<Rightarrow> ('x world, unit) prog" where
  "down_session E compose_path remove_volumes timeout =
     bindE (compose E compose_path (if remove_volumes then [''down'', ''-v''] else [''down'']) timeout)
       (\<lambda>proc.
     if c_returncode proc \<noteq> 0
     then throw (DockerOpsError (''docker compose down failed (rc='' @ str_of_int (c_returncode proc)
            @ ''): '' @ take 2000 (c_stderr proc)))
     else ret ())"

text \<open>
  The lookups of \<^verbatim>\<open>_read_published_port\<close> in docker's JSON. \<open>None\<close> is any exception on the way
  (a missing index, \<^verbatim>\<open>.get\<close> on something that is no dictionary).
\<close>

definition get_key :: "string \<Rightarrow> json \<Rightarrow> json \<Rightarrow> json option" where
  "get_key k dflt j =
     (case j of JObj kvs \<Rightarrow> Some (case jget k kvs of None \<Rightarrow> dflt | Some v \<Rightarrow> v) | _ \<Rightarrow> None)"

definition get_first :: "json \<Rightarrow> json option" where
  "get_first j = (case j of JArr (x # _) \<Rightarrow> Some x | _ \<Rightarrow> None)"

fun json_truthy :: "json \<Rightarrow> bool" where
  "json_truthy JNull = False"
| "json_truthy (JBool b) = b"
| "json_truthy (JInt i) = (i \<noteq> 0)"
| "json_truthy (JStr s) = (s \<noteq> [])"
| "json_truthy (JArr xs) = (xs \<noteq> [])"
| "json_truthy (JObj kvs) = (kvs \<noteq> [])"

text \<open>
  \<^verbatim>\<open>host_port and str(host_port).isdigit()\<close>, then \<^verbatim>\<open>int(host_port)\<close>: \<open>Some None\<close> when the
  test fails and the code goes on. (The superscript digits of Latin-1 pass \<^verbatim>\<open>isdigit\<close> and make
  \<^verbatim>\<open>int\<close> raise.)
\<close>

definition py_isdigit :: "char \<Rightarrow> bool" where
  "py_isdigit c \<longleftrightarrow> is_digit c \<or> (of_char c :: nat) \<in> {178, 179, 185}"

definition port_number :: "json \<Rightarrow> int option option" where
  "port_number j =
     (case j of
        JStr s \<Rightarrow>
          if s \<noteq> [] \<and> list_all py_isdigit s
          then (if list_all is_digit s then Some (Some (int (nat_of_digits 0 s))) else None)
          else Some None
      | JInt i \<Rightarrow> Some (if i > 0 then Some i else None)
      | _ \<Rightarrow> Some None)"

text \<open>One of the two places docker reports a binding.\<close>

definition binding_port :: "string \<Rightarrow> string \<Rightarrow> json \<Rightarrow> int option option" where
  "binding_port section ports data =
     Option.bind (get_first data) (\<lambda>d.
     Option.bind (get_key section (JObj []) d) (\<lambda>cfg.
     Option.bind (get_key ports (JObj []) cfg) (\<lambda>bindings_by_port.
     Option.bind (get_key ''3306/tcp'' JNull bindings_by_port) (\<lambda>bindings.
     if json_truthy bindings
     then Option.bind (get_first bindings) (\<lambda>b.
          Option.bind (get_key ''HostPort'' JNull b) port_number)
     else Some None))))"

definition published_port :: "string \<Rightarrow> int option" where
  "published_port out =
     (case Option.bind (loads out) (\<lambda>data.
        case binding_port ''NetworkSettings'' ''Ports'' data of
          None \<Rightarrow> None
        | Some (Some p) \<Rightarrow> Some (Some p)
        | Some None \<Rightarrow> binding_port ''HostConfig'' ''PortBindings'' data) of
        Some (Some p) \<Rightarrow> Some p
      | _ \<Rightarrow> None)"

definition read_published_port :: "'x env \<Rightarrow> string \<Rightarrow> ('x world, int option) prog" where
  "read_published_port E container_name =
     bindE (run_proc E \<lparr>p_argv = [''docker'', ''inspect'', container_name], p_env = None,
                        p_stdin = None, p_timeout = 5\<rparr>)
       (\<lambda>proc. if c_returncode proc \<noteq> 0 then ret None else ret (published_port (c_stdout proc)))"

text \<open>\<^verbatim>\<open>_tcp_open\<close>: \<^verbatim>\<open>OSError\<close> and its subclasses are caught.\<close>

definition tcp_open :: "'x env \<Rightarrow> string \<Rightarrow> int \<Rightarrow> ('x world, bool) prog" where
  "tcp_open E host port = catchE (tcp_connect E host port)
     (\<lambda>e. if is_os_error e then ret False else throw e)"

text \<open>\<^verbatim>\<open>port and _tcp_open("127.0.0.1", port, timeout=2)\<close>.\<close>

definition port_answers :: "'x env \<Rightarrow> int option \<Rightarrow> ('x world, bool) prog" where
  "port_answers E port =
     (case port of None \<Rightarrow> ret False
      | Some p \<Rightarrow> if p = 0 then ret False else tcp_open E ''127.0.0.1'' p)"

definition str_opt_int :: "int option \<Rightarrow> string" where
  "str_opt_int p = (case p of None \<Rightarrow> ''None'' | Some i \<Rightarrow> str_of_int i)"

text \<open>
  One turn of the loop of \<^verbatim>\<open>wait_healthy\<close>: \<open>Inl\<close> to return, \<open>Inr\<close> the new
  \<^verbatim>\<open>last_status\<close> and \<^verbatim>\<open>last_tcp\<close> to go on.
\<close>

definition healthy_probe ::
    "'x env \<Rightarrow> string \<Rightarrow> string \<Rightarrow> ('x world, unit + string) prog" where
  "healthy_probe E container_name last_status =
     bindE (run_proc E \<lparr>p_argv = [''docker'', ''inspect'', ''--format'', ''{{.State.Health.Status}}'',
                                  container_name], p_env = None, p_stdin = None, p_timeout = 5\<rparr>)
       (\<lambda>proc.
     if c_returncode proc \<noteq> 0 then ret (Inr last_status)
     else let st = strip (c_stdout proc) in
       if st \<noteq> ''healthy'' then ret (Inr st)
       else bindE (read_published_port E container_name) (\<lambda>port.
            bindE (port_answers E port) (\<lambda>ok. ret (if ok then Inl () else Inr st))))"

definition healthy_turn ::
    "'x env \<Rightarrow> string \<Rightarrow> string \<Rightarrow> ('x world, unit + string \<times> string) prog" where
  "healthy_turn E container_name last_status =
     bindE (healthy_probe E container_name last_status) (\<lambda>probe.
     case probe of
       Inl _ \<Rightarrow> ret (Inl ())
     | Inr st \<Rightarrow>
         bindE (read_published_port E container_name) (\<lambda>port.
         bindE (port_answers E port) (\<lambda>ok.
         ret (if ok then Inl () else Inr (st, ''port='' @ str_opt_int port)))))"

lemma clock_mono_healthy_turn: "clock_mono (healthy_turn E c st)"
proof -
  have tcp: "clock_mono (tcp_open E h p)" for h p
    unfolding tcp_open_def tcp_connect_def by (intro clock_intros)
  have ans: "clock_mono (port_answers E p)" for p
    unfolding port_answers_def using tcp by (auto split: option.split intro: clock_intros)
  have port: "clock_mono (read_published_port E c)"
    unfolding read_published_port_def run_proc_def by (intro clock_intros)
  have "clock_mono (healthy_probe E c st)"
    unfolding healthy_probe_def run_proc_def Let_def by (intro clock_intros port ans)
  then show ?thesis
    unfolding healthy_turn_def by (auto split: sum.split intro!: clock_intros port ans)
qed

text \<open>
  The loop ends because every turn sleeps two seconds of the monotonic clock: with \<open>deadline\<close>
  ahead by \<open>t\<close> milliseconds there are at most \<open>t div 2000 + 1\<close> turns.
\<close>

function wait_healthy_loop ::
    "'x env \<Rightarrow> string \<Rightarrow> int \<Rightarrow> nat \<Rightarrow> string \<Rightarrow> string \<Rightarrow> 'x world \<Rightarrow> (exn + unit) \<times> 'x world" where
  "wait_healthy_loop E c timeout deadline st tcp w =
     (if clock w < deadline
      then (case healthy_turn E c st w of
              (Inl e, w') \<Rightarrow> (Inl e, w')
            | (Inr (Inl _), w') \<Rightarrow> (Inr (), w')
            | (Inr (Inr (st', tcp')), w') \<Rightarrow>
                wait_healthy_loop E c timeout deadline st' tcp' (w'\<lparr>clock := clock w' + 2000\<rparr>))
      else (Inl (DockerOpsError (''container '' @ c @ '' did not become ready in ''
              @ str_of_int timeout @ ''s; last docker status: '' @ st @ ''; tcp probe: '' @ tcp)), w))"
  by pat_completeness auto
termination
  by (relation "measure (\<lambda>(E, c, timeout, deadline, st, tcp, w). deadline - clock w)")
    (auto dest!: sym[of _ "healthy_turn _ _ _ _"] clock_monoD[OF clock_mono_healthy_turn])

declare wait_healthy_loop.simps [simp del]

definition wait_healthy :: "'x env \<Rightarrow> string \<Rightarrow> int \<Rightarrow> ('x world, unit) prog" where
  "wait_healthy E c timeout = (\<lambda>w.
     wait_healthy_loop E c timeout (nat (int (clock w) + 1000 * timeout)) ''unknown'' ''unknown'' w)"

section \<open>The deprecated rewriting of the port\<close>

text \<open>
  \<^verbatim>\<open>replace_port_in_compose\<close>. The three alternatives of its pattern are matched by hand: no
  repetition in them can take what follows it, so there is nothing to backtrack, and the third
  alternative is a case of the second. The result is the text behind the match.
\<close>

text \<open>\<^verbatim>\<open>\$\{[^}]*\}\<close>.\<close>

definition match_variable :: "string \<Rightarrow> string option" where
  "match_variable s =
     (case s of
        c # d # r \<Rightarrow>
          if c = CHR 0x24 \<and> d = CHR 0x7B
          then (case dropWhile (\<lambda>x. x \<noteq> CHR 0x7D) r of [] \<Rightarrow> None | _ # rest \<Rightarrow> Some rest)
          else None
      | _ \<Rightarrow> None)"

text \<open>\<^verbatim>\<open>[0-9.]+:\d+:3306"\<close>.\<close>

definition match_address :: "string \<Rightarrow> string option" where
  "match_address s =
     (let in_host = (\<lambda>c. is_digit c \<or> c = CHR ''.'') in
      if takeWhile in_host s = [] then None
      else (case dropWhile in_host s of
          [] \<Rightarrow> None
        | c # r \<Rightarrow>
            if c \<noteq> CHR '':'' \<or> takeWhile is_digit r = [] then None
            else (let rest = dropWhile is_digit r; close = '':3306'' @ dq in
              if take (length close) rest = close then Some (drop (length close) rest) else None)))"

definition match_mapping :: "string \<Rightarrow> string option" where
  "match_mapping s =
     (case s of
        [] \<Rightarrow> None
      | c # r \<Rightarrow>
          if c \<noteq> CHR ''-'' then None
          else (case dropWhile is_space r of
              [] \<Rightarrow> None
            | q # inner \<Rightarrow>
                if q \<noteq> CHR 0x22 then None
                else (case match_variable inner of
                    Some rest \<Rightarrow> Some rest
                  | None \<Rightarrow> match_address inner)))"

lemma match_variable_shorter: "match_variable s = Some rest \<Longrightarrow> length rest < length s"
  by (auto simp: match_variable_def split: list.splits if_splits)
    (metis length_Cons length_dropWhile_le less_Suc_eq_le less_SucI Suc_le_lessD)

lemma match_address_shorter:
  assumes "match_address s = Some rest"
  shows "length rest < length s"
proof -
  let ?h = "\<lambda>c. is_digit c \<or> c = CHR ''.''"
  obtain c r where r: "dropWhile ?h s = c # r" and "rest = drop (length ('':3306'' @ dq)) (dropWhile is_digit r)"
    using assms by (auto simp: match_address_def Let_def split: list.splits if_splits)
  then have "length rest \<le> length (dropWhile is_digit r)" by simp
  also have "\<dots> \<le> length r" by (rule length_dropWhile_le)
  also have "\<dots> < length s" using length_dropWhile_le[of ?h s] r by simp
  finally show ?thesis .
qed

lemma match_mapping_shorter:
  assumes "match_mapping s = Some rest"
  shows "length rest < length s"
proof -
  obtain c r q inner where s: "s = c # r" and r: "dropWhile is_space r = q # inner"
    and m: "match_variable inner = Some rest \<or> match_address inner = Some rest"
    using assms by (auto simp: match_mapping_def split: list.splits if_splits option.splits)
  have "length rest < length inner"
    using m match_variable_shorter match_address_shorter by blast
  with length_dropWhile_le[of is_space r] s r show ?thesis by simp
qed

text \<open>\<^verbatim>\<open>pattern.subn(new, text)\<close>, from left to right; \<open>new\<close> has no backslash.\<close>

function subn :: "string \<Rightarrow> string \<Rightarrow> string \<times> nat" where
  "subn new [] = ([], 0)"
| "subn new (c # s) =
     (case match_mapping (c # s) of
        Some rest \<Rightarrow> (case subn new rest of (t, n) \<Rightarrow> (new @ t, Suc n))
      | None \<Rightarrow> (case subn new s of (t, n) \<Rightarrow> (c # t, n)))"
  by pat_completeness auto
termination
  by (relation "measure (length \<circ> snd)") (auto dest: match_mapping_shorter)

text \<open>\<^verbatim>\<open>text.replace(old, new, 1)\<close>.\<close>

fun replace_first :: "string \<Rightarrow> string \<Rightarrow> string \<Rightarrow> string" where
  "replace_first old new [] = (if old = [] then new else [])"
| "replace_first old new (c # s) =
     (if take (length old) (c # s) = old then new @ drop (length old) (c # s)
      else c # replace_first old new s)"

text \<open>
  \<^verbatim>\<open>read_text\<close>: UTF-8, and every line end becomes one newline; the flag says that the last
  character was a carriage return.
\<close>

fun universal_newlines :: "bool \<Rightarrow> string \<Rightarrow> string" where
  "universal_newlines after_cr [] = []"
| "universal_newlines after_cr (c # s) =
     (if c = CHR 0x0D then CHR 0x0A # universal_newlines True s
      else if c = CHR 0x0A \<and> after_cr then universal_newlines False s
      else c # universal_newlines False s)"

definition read_text :: "'x env \<Rightarrow> string \<Rightarrow> ('x world, string) prog" where
  "read_text E path =
     bindE (read_bytes E path) (\<lambda>raw.
     case utf8_decode raw of
       None \<Rightarrow> throw (ValueError ''invalid utf-8'')
     | Some text \<Rightarrow> ret (universal_newlines False text))"

definition replace_port_in_compose ::
    "'x env \<Rightarrow> string \<Rightarrow> string \<Rightarrow> int \<Rightarrow> ('x world, unit) prog" where
  "replace_port_in_compose E compose_path new_bind_host new_host_port =
     bindE (read_text E compose_path) (\<lambda>text.
     let new_line = ''      - '' @ dq @ new_bind_host @ '':'' @ str_of_int new_host_port @ '':3306'' @ dq;
         (new_text, n) = subn new_line text;
         new_text2 = replace_first (''- '' @ dq @ ''127.0.0.1'') (''- '' @ dq @ new_bind_host) text in
     if n = 0 \<and> new_text2 = text
     then throw (DockerOpsError (''could not find port mapping in compose: '' @ compose_path))
     else thenE (write_text E compose_path (if n = 0 then new_text2 else new_text))
            (chmod E compose_path 416))"

section \<open>Frames\<close>

text \<open>No docker operation touches the session store.\<close>

lemma frames_db_docker [frame_intros]:
  "frames db (make_session_paths E sid ticket date s)"
  "frames db (render_compose E paths sid c img bind port pw)"
  "frames db (render_mysqld_cnf E paths)"
  "frames db (gen_root_password E)"
  "frames db (compose E path args timeout)"
  "frames db (up_session E path timeout)"
  "frames db (down_session E path v timeout)"
  unfolding make_session_paths_def render_compose_def render_mysqld_cnf_def gen_root_password_def
    compose_def up_session_def down_session_def Let_def
  by (intro frame_intros)+

lemma frames_db_healthy_turn: "frames db (healthy_turn E c st)"
proof -
  have tcp: "frames db (tcp_open E h p)" for h p
    unfolding tcp_open_def by (intro frame_intros)
  have ans: "frames db (port_answers E p)" for p
    unfolding port_answers_def using tcp by (auto split: option.split intro: frame_intros)
  have port: "frames db (read_published_port E c)"
    unfolding read_published_port_def by (intro frame_intros)
  have "frames db (healthy_probe E c st)"
    unfolding healthy_probe_def Let_def by (intro frame_intros port ans)
  then show ?thesis
    unfolding healthy_turn_def by (auto split: sum.split intro!: frame_intros port ans)
qed

lemma wait_healthy_loop_db:
  "db (snd (wait_healthy_loop E c timeout deadline st tcp w)) = db w"
proof (induction E c timeout deadline st tcp w rule: wait_healthy_loop.induct)
  case (1 E c timeout deadline st tcp w)
  obtain r w1 where turn: "healthy_turn E c st w = (r, w1)" by fastforce
  with frames_db_healthy_turn have w1: "db w1 = db w" by (rule framesD)
  note unfold = wait_healthy_loop.simps[of E c timeout deadline st tcp w]
  show ?case
  proof (cases "clock w < deadline")
    case True
    with 1 turn w1 show ?thesis
      by (cases r) (auto simp: unfold split: sum.split)
  next
    case False
    then show ?thesis by (simp add: unfold)
  qed
qed

lemma frames_db_wait_healthy [frame_intros]: "frames db (wait_healthy E c timeout)"
  by (simp add: frames_def wait_healthy_def wait_healthy_loop_db)

end
