(* ===== verification/Ssh_Tunnel.thy ===== *)
theory Ssh_Tunnel
  imports Runtime
begin

text \<open>
  \<^verbatim>\<open>api/ssh_tunnel.py\<close>: a local forward held by an \<^verbatim>\<open>ssh -N -L\<close> process. The context
  manager \<^verbatim>\<open>open_tunnel\<close> becomes a program that takes the body of the \<^verbatim>\<open>with\<close> statement.
\<close>

text \<open>\<open>t_proc\<close> is the identity of the ssh process.\<close>

record tunnel =
  t_local_port :: int
  t_local_host :: string
  t_proc :: nat

definition terminate_proc :: "'x env \<Rightarrow> nat \<Rightarrow> ('x world, unit) prog" where
  "terminate_proc E pid = os_call (Terminated pid) (e_terminate E pid)"

definition kill_proc :: "'x env \<Rightarrow> nat \<Rightarrow> ('x world, unit) prog" where
  "kill_proc E pid = os_call (Killed pid) (e_kill E pid)"

definition wait_proc :: "'x env \<Rightarrow> nat \<Rightarrow> int \<Rightarrow> ('x world, int) prog" where
  "wait_proc E pid timeout = os_call (Waited pid) (e_wait E pid timeout)"

definition on_timeout :: "('w, unit) prog \<Rightarrow> exn \<Rightarrow> ('w, unit) prog" where
  "on_timeout m e = (case e of TimeoutExpired _ \<Rightarrow> m | _ \<Rightarrow> throw e)"

text \<open>\<^verbatim>\<open>Tunnel.close\<close>.\<close>

definition close_tunnel :: "'x env \<Rightarrow> tunnel \<Rightarrow> ('x world, unit) prog" where
  "close_tunnel E t =
     bindE (getsW (\<lambda>w. e_poll E (t_proc t) (os w))) (\<lambda>rc.
     if rc \<noteq> None then ret ()
     else quietE
       (thenE (terminate_proc E (t_proc t))
       (catchE (thenE (wait_proc E (t_proc t) 3) (ret ()))
          (on_timeout (thenE (kill_proc E (t_proc t))
                      (thenE (wait_proc E (t_proc t) 2) (ret ())))))))"

text \<open>
  \<^verbatim>\<open>_wait_listening\<close>: connection attempts until one succeeds or the deadline passes. A refused
  attempt sleeps 100 ms, so the loop ends.
\<close>

function wait_listening_loop ::
    "'x env \<Rightarrow> string \<Rightarrow> int \<Rightarrow> nat \<Rightarrow> 'x world \<Rightarrow> (exn + bool) \<times> 'x world" where
  "wait_listening_loop E host port deadline w =
     (if clock w < deadline
      then (case tcp_connect E host port w of
              (Inr _, w') \<Rightarrow> (Inr True, w')
            | (Inl e, w') \<Rightarrow>
                if is_os_error e
                then wait_listening_loop E host port deadline (w'\<lparr>clock := clock w' + 100\<rparr>)
                else (Inl e, w'))
      else (Inr False, w))"
  by pat_completeness auto
termination
  by (relation "measure (\<lambda>(E, host, port, deadline, w). deadline - clock w)")
    (auto simp: tcp_connect_def dest!: sym[of _ "os_call _ _ _"] clock_monoD[OF clock_mono_basic(5)])

declare wait_listening_loop.simps [simp del]

definition wait_listening :: "'x env \<Rightarrow> string \<Rightarrow> int \<Rightarrow> nat \<Rightarrow> ('x world, bool) prog" where
  "wait_listening E host port timeout_ms =
     (\<lambda>w. wait_listening_loop E host port (clock w + timeout_ms) w)"

definition pick_local_port :: "'x env \<Rightarrow> ('x world, int) prog" where
  "pick_local_port E = os_call PickedPort (e_free_port E)"

text \<open>\<^verbatim>\<open>a or b\<close> on optional strings.\<close>

definition or_str :: "string option \<Rightarrow> string \<Rightarrow> string" where
  "or_str a b = (case a of Some s \<Rightarrow> (if s \<noteq> [] then s else b) | None \<Rightarrow> b)"

definition known_hosts_file :: "'x env \<Rightarrow> string \<Rightarrow> ('x world, string) prog" where
  "known_hosts_file E ssh_user =
     bindE (getsW (\<lambda>w. or_str (e_environ E ''SUDO_USER'' (os w))
                        (or_str (e_environ E ''USER'' (os w)) ssh_user))) (\<lambda>sudo_user.
     let candidate = path_join (path_join (path_join ''/home'' sudo_user) ''.ssh'') ''known_hosts'';
         fallback = ''/home/lytadmin/.ssh/known_hosts'' in
     bindE (path_exists E candidate) (\<lambda>ok.
     if ok then ret candidate
     else bindE (path_exists E fallback) (\<lambda>ok'.
          ret (if ok' then fallback else ''/dev/null''))))"

record tunnel_args =
  ta_ssh_host :: string
  ta_ssh_port :: int
  ta_ssh_user :: string
  ta_ssh_key :: string
  ta_remote_host :: string
  ta_remote_port :: int
  ta_bind_host :: string

definition forward_spec :: "tunnel_args \<Rightarrow> int \<Rightarrow> string" where
  "forward_spec a local_port = ta_bind_host a @ '':'' @ str_of_int local_port @ '':''
     @ ta_remote_host a @ '':'' @ str_of_int (ta_remote_port a)"

definition ssh_cmd :: "tunnel_args \<Rightarrow> int \<Rightarrow> string \<Rightarrow> string list" where
  "ssh_cmd a local_port known_hosts =
     [''ssh'', ''-N'', ''-T'', ''-x'', ''-a'',
      ''-o'', ''BatchMode=yes'',
      ''-o'', ''StrictHostKeyChecking=yes'',
      ''-o'', ''UserKnownHostsFile='' @ known_hosts,
      ''-o'', ''ExitOnForwardFailure=yes'',
      ''-o'', ''ServerAliveInterval=15'',
      ''-o'', ''ServerAliveCountMax=3'',
      ''-o'', ''TCPKeepAlive=yes'',
      ''-i'', ta_ssh_key a,
      ''-p'', str_of_int (ta_ssh_port a),
      ''-L'', forward_spec a local_port,
      ta_ssh_user a @ ''@'' @ ta_ssh_host a]"

definition stderr_log :: string where
  "stderr_log = ''/var/log/sandboxes/ssh-tunnel.err.log''"

text \<open>The forward is up, or an exception: when it does not come up the process is terminated first.\<close>

definition start_tunnel :: "'x env \<Rightarrow> tunnel_args \<Rightarrow> ('x world, tunnel) prog" where
  "start_tunnel E a =
     bindE (path_exists E (ta_ssh_key a)) (\<lambda>have_key.
     if \<not> have_key then throw (TunnelError (''ssh key not found: '' @ ta_ssh_key a))
     else
     bindE (pick_local_port E) (\<lambda>local_port.
     bindE (known_hosts_file E (ta_ssh_user a)) (\<lambda>known_hosts.
     let cmd = ssh_cmd a local_port known_hosts in
     thenE (mkdir E ''/var/log/sandboxes'')
    (thenE (os_call (Opened stderr_log) (e_open E stderr_log))
    (bindE (os_call (Spawned cmd) (e_spawn E cmd)) (\<lambda>pid.
     bindE (wait_listening E (ta_bind_host a) local_port 10000) (\<lambda>up.
     if \<not> up then
       thenE (terminate_proc E pid)
      (thenE (catchE (thenE (wait_proc E pid 3) (ret ())) (on_timeout (kill_proc E pid)))
      (throw (TunnelError
        (''ssh -L forward did not become ready within 10s (host='' @ ta_ssh_host a @ '':''
         @ str_of_int (ta_ssh_port a) @ '' user='' @ ta_ssh_user a @ '' forward=''
         @ ta_bind_host a @ '':'' @ str_of_int local_port @ ''->'' @ ta_remote_host a @ '':''
         @ str_of_int (ta_remote_port a) @ ''); see '' @ stderr_log))))
     else
     bindE (getsW (\<lambda>w. e_poll E pid (os w))) (\<lambda>rc.
     case rc of
       Some code \<Rightarrow> throw (TunnelError (''ssh -L exited prematurely (rc='' @ str_of_int code
                            @ ''); see '' @ stderr_log))
     | None \<Rightarrow> ret \<lparr>t_local_port = local_port, t_local_host = ta_bind_host a, t_proc = pid\<rparr>))))))))"

text \<open>\<^verbatim>\<open>with open_tunnel(...) as tunnel: body\<close>: the tunnel is closed however the body ends.
  Opening the log file of ssh is part of \<open>start_tunnel\<close>; closing this unbuffered file again, on which
  no later operation depends, is left out.\<close>

definition open_tunnel ::
    "'x env \<Rightarrow> tunnel_args \<Rightarrow> (tunnel \<Rightarrow> ('x world, 'a) prog) \<Rightarrow> ('x world, 'a) prog" where
  "open_tunnel E a body =
     bindE (start_tunnel E a) (\<lambda>t. finallyE (body t) (close_tunnel E t))"

section \<open>Frames\<close>

lemma wait_listening_loop_db: "db (snd (wait_listening_loop E h p deadline w)) = db w"
proof (induction E h p deadline w rule: wait_listening_loop.induct)
  case (1 E h p deadline w)
  obtain r w1 where call: "tcp_connect E h p w = (r, w1)" by fastforce
  with frames_db_ops(9) have "db w1 = db w" by (rule framesD)
  with 1 call show ?case
    by (auto simp: wait_listening_loop.simps[of E h p deadline w] split: sum.split)
qed

lemma frames_db_close_tunnel [frame_intros]: "frames db (close_tunnel E t)"
  unfolding close_tunnel_def terminate_proc_def kill_proc_def wait_proc_def on_timeout_def
  by (auto split: exn.split intro!: frame_intros)

lemma frames_db_start_tunnel [frame_intros]: "frames db (start_tunnel E a)"
proof -
  have "frames db (wait_listening E h p ms)" for h p ms
    by (simp add: frames_def wait_listening_def wait_listening_loop_db)
  moreover have "frames db (known_hosts_file E u)" for u
    unfolding known_hosts_file_def Let_def by (intro frame_intros)
  ultimately show ?thesis
    unfolding start_tunnel_def pick_local_port_def terminate_proc_def kill_proc_def wait_proc_def
      on_timeout_def Let_def
    by (auto split: exn.split option.split intro!: frame_intros)
qed

lemma frames_db_open_tunnel [frame_intros]:
  "(\<And>t. frames db (body t)) \<Longrightarrow> frames db (open_tunnel E a body)"
  unfolding open_tunnel_def by (intro frame_intros)

end
