(* ===== verification/Mysql_Ops.thy ===== *)
theory Mysql_Ops
  imports Ssh_Tunnel
begin

text \<open>
  \<^verbatim>\<open>api/mysql_ops.py\<close>: the command lines of \<^verbatim>\<open>mysqldump\<close>, \<^verbatim>\<open>mysql\<close> and
  \<^verbatim>\<open>mysqladmin\<close>, the environment of the children, and what their results mean.
\<close>

section \<open>Environment and command lines\<close>

definition resolve_binary :: "'x env \<Rightarrow> string \<Rightarrow> ('x world, string) prog" where
  "resolve_binary E name =
     bindE (getsW (\<lambda>w. e_which E name (os w))) (\<lambda>path.
     if truthy path then ret (the path)
     else throw (MySQLOpsError (''required binary not found on PATH: '' @ name)))"

text \<open>\<^verbatim>\<open>os.environ.get(k, default)\<close>.\<close>

definition environ_get :: "'x env \<Rightarrow> string \<Rightarrow> string \<Rightarrow> 'x world \<Rightarrow> string" where
  "environ_get E k dflt w = (case e_environ E k (os w) of Some v \<Rightarrow> v | None \<Rightarrow> dflt)"

definition mysql_env :: "'x env \<Rightarrow> string option \<Rightarrow> 'x world \<Rightarrow> (string \<times> string) list" where
  "mysql_env E password w =
     [(''PATH'', environ_get E ''PATH'' ''/usr/local/sbin:/usr/local/bin:/usr/sbin:/usr/bin:/sbin:/bin'' w),
      (''LANG'', ''C.UTF-8''),
      (''LC_ALL'', ''C.UTF-8''),
      (''HOME'', environ_get E ''HOME'' ''/root'' w)]
     @ (case password of None \<Rightarrow> [] | Some p \<Rightarrow> [(''MYSQL_PWD'', p)])"

text \<open>Where a client connects, and as whom.\<close>

record target =
  tg_host :: string
  tg_port :: int
  tg_user :: string
  tg_password :: string
  tg_ssl_ca :: "string option"

definition connect_args :: "target \<Rightarrow> string list" where
  "connect_args t =
     [''--host='' @ tg_host t, ''--port='' @ str_of_int (tg_port t), ''--user='' @ tg_user t]
     @ (case tg_ssl_ca t of None \<Rightarrow> [] | Some ca \<Rightarrow> [''--ssl-mode=REQUIRED'', ''--ssl-ca='' @ ca])"

definition mysqldump_flags :: "string list" where
  "mysqldump_flags =
     [''--single-transaction'', ''--quick'', ''--routines'', ''--triggers'', ''--events'',
      ''--no-tablespaces'', ''--no-create-db'', ''--column-statistics=0'', ''--ssl-mode=DISABLED'']"

text \<open>\<open>host\<close> is the optional override of the tunnel's local address.\<close>

definition mysqldump_cmd ::
    "'x env \<Rightarrow> tunnel \<Rightarrow> string \<Rightarrow> string \<Rightarrow> string option \<Rightarrow> string list \<Rightarrow> string list
      \<Rightarrow> ('x world, string list) prog" where
  "mysqldump_cmd E t dbname user host tables extra_args =
     bindE (resolve_binary E ''mysqldump'') (\<lambda>mysqldump.
     let host_arg = (case host of Some h \<Rightarrow> h | None \<Rightarrow> t_local_host t) in
     ret (mysqldump # mysqldump_flags
          @ [''--host='' @ host_arg, ''--port='' @ str_of_int (t_local_port t), ''--user='' @ user]
          @ extra_args @ [dbname] @ tables))"

definition mysql_restore_cmd :: "'x env \<Rightarrow> target \<Rightarrow> string \<Rightarrow> ('x world, string list) prog" where
  "mysql_restore_cmd E t dbname =
     bindE (resolve_binary E ''mysql'') (\<lambda>mysql. ret (mysql # connect_args t @ [dbname]))"

text \<open>\<^verbatim>\<open>f" tables={list(tables)}" if tables else ""\<close>.\<close>

definition tables_note :: "string list \<Rightarrow> string" where
  "tables_note tables = (if tables \<noteq> [] then '' tables='' @ repr_names tables else [])"

definition failed_note :: "int \<Rightarrow> string \<Rightarrow> string" where
  "failed_note rc err = '' failed (rc='' @ str_of_int rc @ ''): '' @ err"

definition run_mysql ::
    "'x env \<Rightarrow> string list \<Rightarrow> string \<Rightarrow> string option \<Rightarrow> int \<Rightarrow> ('x world, completed) prog" where
  "run_mysql E cmd password stdin timeout =
     bindE (getsW (mysql_env E (Some password))) (\<lambda>child_env.
     run_proc E \<lparr>p_argv = cmd, p_env = Some child_env, p_stdin = stdin, p_timeout = timeout\<rparr>)"

section \<open>The operations\<close>

definition dump_db ::
    "'x env \<Rightarrow> tunnel \<Rightarrow> string \<Rightarrow> string \<Rightarrow> string \<Rightarrow> string option \<Rightarrow> string list \<Rightarrow> string list
      \<Rightarrow> ('x world, string) prog" where
  "dump_db E t dbname user password host tables extra_args =
     bindE (mysqldump_cmd E t dbname user host tables extra_args) (\<lambda>cmd.
     bindE (run_mysql E cmd password None 1800) (\<lambda>proc.
     if c_returncode proc \<noteq> 0
     then throw (MySQLOpsError (''mysqldump '' @ dbname @ tables_note tables
            @ failed_note (c_returncode proc) (take 2000 (c_stderr proc))))
     else ret (c_stdout proc)))"

definition create_database_sql :: "string \<Rightarrow> string" where
  "create_database_sql dbname =
     ''CREATE DATABASE IF NOT EXISTS `'' @ dbname @ ''` CHARACTER SET utf8mb4 COLLATE utf8mb4_0900_ai_ci''"

definition ensure_database :: "'x env \<Rightarrow> target \<Rightarrow> string \<Rightarrow> ('x world, unit) prog" where
  "ensure_database E t dbname =
     bindE (resolve_binary E ''mysql'') (\<lambda>mysql.
     bindE (run_mysql E (mysql # connect_args t @ [''-e'', create_database_sql dbname]) (tg_password t) None 30) (\<lambda>proc.
     if c_returncode proc \<noteq> 0
     then throw (MySQLOpsError (''CREATE DATABASE '' @ dbname
            @ failed_note (c_returncode proc) (take 500 (c_stderr proc))))
     else ret ()))"

definition restore_db :: "'x env \<Rightarrow> target \<Rightarrow> string \<Rightarrow> string \<Rightarrow> ('x world, unit) prog" where
  "restore_db E t dbname sql =
     thenE (ensure_database E t dbname)
    (bindE (mysql_restore_cmd E t dbname) (\<lambda>cmd.
     bindE (run_mysql E cmd (tg_password t) (Some sql) 1800) (\<lambda>proc.
     if c_returncode proc \<noteq> 0
     then throw (MySQLOpsError (''mysql restore '' @ dbname
            @ failed_note (c_returncode proc) (take 2000 (c_stderr proc))))
     else ret ())))"

text \<open>
  The parts of the error of a failed pipeline: the restore side first, then the dump side.
\<close>

definition clone_failures :: "string \<Rightarrow> string \<Rightarrow> string list \<Rightarrow> piped \<Rightarrow> string list" where
  "clone_failures source_db target_db tables p =
     (if second_rc p \<noteq> 0
      then [''mysql restore '' @ target_db @ failed_note (second_rc p) (take 2000 (second_err p))]
      else [])
     @ (if first_rc p \<noteq> 0
        then [''mysqldump '' @ source_db @ tables_note tables
              @ failed_note (first_rc p) (take 2000 (first_err p))]
        else [])"

text \<open>
  Starting the two processes, reading the restore side to its end and reaping the dump side is one
  call of the outside; when its timeout passes both processes are killed and reaped there.
\<close>

definition clone_db ::
    "'x env \<Rightarrow> tunnel \<Rightarrow> string \<Rightarrow> string \<Rightarrow> string \<Rightarrow> target \<Rightarrow> string \<Rightarrow> string option
      \<Rightarrow> string list \<Rightarrow> string list \<Rightarrow> int \<Rightarrow> ('x world, unit) prog" where
  "clone_db E t source_db source_user source_password target target_db host tables extra_args
       timeout_seconds =
     thenE (ensure_database E target target_db)
    (bindE (mysqldump_cmd E t source_db source_user host tables extra_args) (\<lambda>dump_cmd.
     bindE (mysql_restore_cmd E target target_db) (\<lambda>restore_cmd.
     bindE (getsW (mysql_env E (Some source_password))) (\<lambda>dump_env.
     bindE (getsW (mysql_env E (Some (tg_password target)))) (\<lambda>restore_env.
     let dump_proc = \<lparr>p_argv = dump_cmd, p_env = Some dump_env, p_stdin = None, p_timeout = 30\<rparr>;
         restore_proc = \<lparr>p_argv = restore_cmd, p_env = Some restore_env, p_stdin = None,
                         p_timeout = timeout_seconds\<rparr> in
     bindE (catchE (os_call (Piped dump_proc restore_proc) (e_pipe E dump_proc restore_proc))
              (\<lambda>e. case e of
                 TimeoutExpired _ \<Rightarrow>
                   throw (MySQLOpsError (''streaming clone '' @ source_db @ ''->'' @ target_db
                     @ '' exceeded '' @ str_of_int timeout_seconds @ ''s''))
               | _ \<Rightarrow> throw e)) (\<lambda>p.
     let parts = clone_failures source_db target_db tables p in
     if parts \<noteq> [] then throw (MySQLOpsError (join ''; '' parts)) else ret ()))))))"

definition apply_grants :: "'x env \<Rightarrow> target \<Rightarrow> string list \<Rightarrow> ('x world, unit) prog" where
  "apply_grants E t sql_statements =
     bindE (resolve_binary E ''mysql'') (\<lambda>mysql.
     let sql = join [CHR 0x0A] sql_statements in
     bindE (run_mysql E (mysql # connect_args t) (tg_password t) (Some sql) 60) (\<lambda>proc.
     if c_returncode proc \<noteq> 0
     then throw (MySQLOpsError (''mysql grants''
            @ failed_note (c_returncode proc) (take 2000 (c_stderr proc))))
     else ret ()))"

definition set_general_log :: "'x env \<Rightarrow> bool \<Rightarrow> target \<Rightarrow> ('x world, unit) prog" where
  "set_general_log E enabled t =
     bindE (resolve_binary E ''mysql'') (\<lambda>mysql.
     let val = (if enabled then ''1'' else ''0'') in
     bindE (run_mysql E (mysql # connect_args t @ [''-e'', ''SET GLOBAL general_log = '' @ val])
              (tg_password t) None 30) (\<lambda>proc.
     if c_returncode proc \<noteq> 0
     then throw (MySQLOpsError (''set general_log='' @ val
            @ failed_note (c_returncode proc) (take 500 (c_stderr proc))))
     else ret ()))"

text \<open>The polling loop of \<^verbatim>\<open>wait_ready\<close>; a failed ping sleeps one second, so it ends.\<close>

function wait_ready_loop ::
    "'x env \<Rightarrow> string list \<Rightarrow> target \<Rightarrow> int \<Rightarrow> nat \<Rightarrow> string \<Rightarrow> 'x world \<Rightarrow> (exn + unit) \<times> 'x world" where
  "wait_ready_loop E cmd t timeout deadline last_err w =
     (if clock w < deadline
      then (case run_mysql E cmd (tg_password t) None 5 w of
              (Inl e, w') \<Rightarrow> (Inl e, w')
            | (Inr proc, w') \<Rightarrow>
                if c_returncode proc = 0 then (Inr (), w')
                else wait_ready_loop E cmd t timeout deadline (strip (c_stderr proc))
                       (w'\<lparr>clock := clock w' + 1000\<rparr>))
      else (Inl (MySQLOpsError (''mysql at '' @ tg_host t @ '':'' @ str_of_int (tg_port t)
              @ '' did not become ready in '' @ str_of_int timeout @ ''s; last error: '' @ last_err)), w))"
  by pat_completeness auto
termination
  by (relation "measure (\<lambda>(E, cmd, t, timeout, deadline, last_err, w). deadline - clock w)")
    (auto simp: run_mysql_def run_proc_def bindE_Inr getsW_apply dest!: sym[of _ "bindE _ _ _"]
      clock_monoD[OF clock_mono_basic(5)])

declare wait_ready_loop.simps [simp del]

definition wait_ready :: "'x env \<Rightarrow> target \<Rightarrow> int \<Rightarrow> ('x world, unit) prog" where
  "wait_ready E t timeout =
     bindE (resolve_binary E ''mysqladmin'') (\<lambda>mysqladmin w.
     wait_ready_loop E (mysqladmin # ''ping'' # connect_args t) t timeout
       (nat (int (clock w) + 1000 * timeout)) ''no attempt yet'' w)"

section \<open>Frames\<close>

lemma frames_db_resolve [frame_intros]: "frames db (resolve_binary E name)"
  unfolding resolve_binary_def by (intro frame_intros)

lemma frames_db_run_mysql [frame_intros]: "frames db (run_mysql E cmd pw inp timeout)"
  unfolding run_mysql_def by (intro frame_intros)

lemma frames_db_mysql [frame_intros]:
  "frames db (dump_db E t d u pw h ts xs)"
  "frames db (ensure_database E tg d)"
  "frames db (restore_db E tg d sql)"
  "frames db (apply_grants E tg sqls)"
  "frames db (set_general_log E b tg)"
  unfolding dump_db_def mysqldump_cmd_def ensure_database_def restore_db_def mysql_restore_cmd_def
    apply_grants_def set_general_log_def Let_def
  by (intro frame_intros)+

lemma frames_db_clone_db [frame_intros]:
  "frames db (clone_db E t sd su sp tg td h ts xs timeout)"
  unfolding clone_db_def mysqldump_cmd_def mysql_restore_cmd_def Let_def
  by (auto split: exn.split intro!: frame_intros)

lemma wait_ready_loop_db: "db (snd (wait_ready_loop E cmd t timeout deadline err w)) = db w"
proof (induction E cmd t timeout deadline err w rule: wait_ready_loop.induct)
  case (1 E cmd t timeout deadline err w)
  obtain r w1 where call: "run_mysql E cmd (tg_password t) None 5 w = (r, w1)" by fastforce
  with frames_db_run_mysql have "db w1 = db w" by (rule framesD)
  with 1 call show ?case
    by (auto simp: wait_ready_loop.simps[of E cmd t timeout deadline err w] split: sum.split)
qed

lemma frames_db_wait_ready [frame_intros]: "frames db (wait_ready E t timeout)"
  unfolding wait_ready_def by (intro frame_intros) (simp add: frames_def wait_ready_loop_db)

end
