(* ===== verification/Tls_Ops.thy ===== *)
theory Tls_Ops
  imports Runtime
begin

text \<open>
  \<^verbatim>\<open>api/tls_ops.py\<close>: the CA, server and client certificates of one session. The X.509 library
  is the record \<open>x509\<close>: it draws keys and serial numbers and serialises. A certificate is the list of
  fields its builder was given, with the key that signed it.
\<close>

text \<open>A key pair is named by a number; seconds since the epoch stand for dates.\<close>

datatype eku = ServerAuth | ClientAuth

datatype san = DNSName string | IPAddress string

record cert =
  c_subject :: string
  c_issuer :: string
  c_public_key :: nat
  c_serial :: int
  c_not_before :: int
  c_not_after :: int
  c_san :: "san list option"
  c_ca :: bool
  c_path_length :: "int option"
  c_cert_sign :: bool
  c_eku :: "eku option"
  c_ski :: nat
  c_aki :: "nat option"
  c_signed_by :: nat

record 'x x509 =
  x_new_key :: "'x \<Rightarrow> nat \<times> 'x"
  x_serial :: "'x \<Rightarrow> int \<times> 'x"
  x_key_pem :: "nat \<Rightarrow> bytes"
  x_cert_pem :: "cert \<Rightarrow> bytes"

definition CERT_VALIDITY_DAYS :: int where
  "CERT_VALIDITY_DAYS = 365"

definition day_s :: int where
  "day_s = 86400"

record tls_material =
  ca_cert_path :: string
  ca_key_path :: string
  server_cert_path :: string
  server_key_path :: string
  client_cert_path :: string
  client_key_path :: string

text \<open>\<^verbatim>\<open>path.parent\<close> of a file directly below \<open>dir\<close> is \<open>dir\<close>; the modes are \<^verbatim>\<open>0o600\<close> and \<^verbatim>\<open>0o644\<close>.\<close>

definition write_key ::
    "'x env \<Rightarrow> 'x x509 \<Rightarrow> string \<Rightarrow> string \<Rightarrow> nat \<Rightarrow> ('x world, unit) prog" where
  "write_key E X dir name key =
     (let path = path_join dir name in
      thenE (mkdir E dir) (thenE (write_file E path (x_key_pem X key)) (chmod E path 384)))"

definition write_cert ::
    "'x env \<Rightarrow> 'x x509 \<Rightarrow> string \<Rightarrow> string \<Rightarrow> cert \<Rightarrow> ('x world, unit) prog" where
  "write_cert E X dir name cert =
     (let path = path_join dir name in
      thenE (mkdir E dir) (thenE (write_file E path (x_cert_pem X cert)) (chmod E path 420)))"

definition build_ca :: "'x env \<Rightarrow> 'x x509 \<Rightarrow> string \<Rightarrow> ('x world, cert \<times> nat) prog" where
  "build_ca E X common_name =
     bindE (os_draw (x_new_key X)) (\<lambda>key.
     bindE (now_s E) (\<lambda>now.
     bindE (os_draw (x_serial X)) (\<lambda>serial.
     ret (\<lparr>c_subject = common_name, c_issuer = common_name, c_public_key = key, c_serial = serial,
           c_not_before = now - 60, c_not_after = now + CERT_VALIDITY_DAYS * 2 * day_s,
           c_san = None, c_ca = True, c_path_length = Some 0, c_cert_sign = True, c_eku = None,
           c_ski = key, c_aki = None, c_signed_by = key\<rparr>, key))))"

text \<open>\<^verbatim>\<open>IPv4Address(ip)\<close>: four decimal octets without leading zeros, or \<^verbatim>\<open>ValueError\<close>.\<close>

fun split_on :: "char \<Rightarrow> string \<Rightarrow> string list" where
  "split_on c [] = [[]]"
| "split_on c (x # xs) =
     (if x = c then [] # split_on c xs
      else (case split_on c xs of [] \<Rightarrow> [[x]] | w # ws \<Rightarrow> (x # w) # ws))"

fun octet_value :: "nat \<Rightarrow> string \<Rightarrow> nat" where
  "octet_value acc [] = acc"
| "octet_value acc (c # cs) = octet_value (10 * acc + (of_char c - 48)) cs"

definition octet_ok :: "string \<Rightarrow> bool" where
  "octet_ok s \<longleftrightarrow> s \<noteq> [] \<and> length s \<le> 3 \<and> list_all is_digit s
     \<and> (hd s = CHR ''0'' \<longrightarrow> length s = 1) \<and> octet_value 0 s \<le> 255"

definition ipv4_ok :: "string \<Rightarrow> bool" where
  "ipv4_ok s \<longleftrightarrow> (let os = split_on CHR ''.'' s in length os = 4 \<and> list_all octet_ok os)"

text \<open>The entries of the subject alternative name; an invalid IPv4 entry is logged and dropped.\<close>

definition san_entries :: "string list \<Rightarrow> string list \<Rightarrow> san list" where
  "san_entries sans_dns sans_ip = map DNSName sans_dns @ map IPAddress (filter ipv4_ok sans_ip)"

definition sign_leaf ::
    "'x env \<Rightarrow> 'x x509 \<Rightarrow> cert \<Rightarrow> nat \<Rightarrow> string \<Rightarrow> string list \<Rightarrow> string list \<Rightarrow> bool
      \<Rightarrow> ('x world, cert \<times> nat) prog" where
  "sign_leaf E X ca_cert ca_key common_name sans_dns sans_ip server_auth =
     bindE (os_draw (x_new_key X)) (\<lambda>key.
     bindE (now_s E) (\<lambda>now.
     bindE (os_draw (x_serial X)) (\<lambda>serial.
     ret (\<lparr>c_subject = common_name, c_issuer = c_subject ca_cert, c_public_key = key,
           c_serial = serial, c_not_before = now - 60,
           c_not_after = now + CERT_VALIDITY_DAYS * day_s,
           c_san = Some (san_entries sans_dns sans_ip), c_ca = False, c_path_length = None,
           c_cert_sign = False, c_eku = Some (if server_auth then ServerAuth else ClientAuth),
           c_ski = key, c_aki = Some ca_key, c_signed_by = ca_key\<rparr>, key))))"

text \<open>\<^verbatim>\<open>[mysql_host_ip] if mysql_host_ip else []\<close>, with the loopback address appended.\<close>

definition server_ips :: "string option \<Rightarrow> string list" where
  "server_ips mysql_host_ip =
     (if truthy mysql_host_ip then [the mysql_host_ip] else []) @ [''127.0.0.1'']"

definition generate_session_tls ::
    "'x env \<Rightarrow> 'x x509 \<Rightarrow> string \<Rightarrow> string \<Rightarrow> string \<Rightarrow> string option \<Rightarrow> ('x world, tls_material) prog"
where
  "generate_session_tls E X sid out_dir container_hostname mysql_host_ip =
     thenE (mkdir E out_dir)
    (bindE (build_ca E X (''sandbox-ca-'' @ sid)) (\<lambda>(ca_cert, ca_key).
     thenE (write_cert E X out_dir ''ca.pem'' ca_cert)
    (thenE (write_key E X out_dir ''ca.key'' ca_key)
    (bindE (sign_leaf E X ca_cert ca_key container_hostname [container_hostname]
              (server_ips mysql_host_ip) True) (\<lambda>(server_cert, server_key).
     thenE (write_cert E X out_dir ''server-cert.pem'' server_cert)
    (thenE (write_key E X out_dir ''server-key.pem'' server_key)
    (bindE (sign_leaf E X ca_cert ca_key (''sandbox-client-'' @ sid)
              [''client.'' @ sid @ ''.sandbox''] [] False) (\<lambda>(client_cert, client_key).
     thenE (write_cert E X out_dir ''client-cert.pem'' client_cert)
    (thenE (write_key E X out_dir ''client-key.pem'' client_key)
    (ret \<lparr>ca_cert_path = path_join out_dir ''ca.pem'', ca_key_path = path_join out_dir ''ca.key'',
          server_cert_path = path_join out_dir ''server-cert.pem'',
          server_key_path = path_join out_dir ''server-key.pem'',
          client_cert_path = path_join out_dir ''client-cert.pem'',
          client_key_path = path_join out_dir ''client-key.pem''\<rparr>))))))))))"

definition read_ca_pem :: "'x env \<Rightarrow> string \<Rightarrow> ('x world, bytes) prog" where
  "read_ca_pem E path = read_bytes E path"

lemma frames_db_tls [frame_intros]: "frames db (generate_session_tls E X sid dir h ip)"
proof -
  have "frames db (write_cert E X d n c)" and "frames db (write_key E X d n k)" for d n c k
    unfolding write_cert_def write_key_def Let_def by (intro frame_intros)+
  moreover have "frames db (build_ca E X cn)" for cn
    unfolding build_ca_def by (intro frame_intros)
  moreover have "frames db (sign_leaf E X c k cn dns ips b)" for c k cn dns ips b
    unfolding sign_leaf_def by (intro frame_intros)
  ultimately show ?thesis
    unfolding generate_session_tls_def by (auto split: prod.split intro!: frame_intros)
qed

end
