(* ===== verification/Crypto.thy ===== *)
theory Crypto
  imports Runtime Json
begin

text \<open>
  \<^verbatim>\<open>api/crypto.py\<close>: passwords, the encrypted credentials blob, and the HMAC-SHA256 webhook
  signature. Fernet is a field of the environment; \<^verbatim>\<open>hashlib.sha256\<close> and \<^verbatim>\<open>hmac.new\<close>
  are part of Python's standard library and are defined here (FIPS 180-4, its constants in decimal, and RFC 2104).
\<close>

unbundle bit_operations_syntax

section \<open>SHA-256 and HMAC\<close>

type_synonym w32 = "32 word"

definition rotr :: "nat \<Rightarrow> w32 \<Rightarrow> w32" where
  "rotr n x = drop_bit n x OR push_bit (32 - n) x"

definition sha_k :: "w32 list" where
  "sha_k =
    [1116352408, 1899447441, 3049323471, 3921009573, 961987163, 1508970993, 2453635748,
      2870763221, 3624381080, 310598401, 607225278, 1426881987, 1925078388, 2162078206,
      2614888103, 3248222580, 3835390401, 4022224774, 264347078, 604807628, 770255983,
      1249150122, 1555081692, 1996064986, 2554220882, 2821834349, 2952996808, 3210313671,
      3336571891, 3584528711, 113926993, 338241895, 666307205, 773529912, 1294757372,
      1396182291, 1695183700, 1986661051, 2177026350, 2456956037, 2730485921, 2820302411,
      3259730800, 3345764771, 3516065817, 3600352804, 4094571909, 275423344, 430227734,
      506948616, 659060556, 883997877, 958139571, 1322822218, 1537002063, 1747873779,
      1955562222, 2024104815, 2227730452, 2361852424, 2428436474, 2756734187, 3204031479,
      3329325298]"

definition sha_init :: "w32 list" where
  "sha_init =
    [1779033703, 3144134277, 1013904242, 2773480762, 1359893119, 2600822924, 528734635,
      1541459225]"

fun words_of_bytes :: "bytes \<Rightarrow> w32 list" where
  "words_of_bytes (a # b # c # d # bs) =
     (push_bit 24 (ucast a) OR push_bit 16 (ucast b) OR push_bit 8 (ucast c) OR ucast d)
       # words_of_bytes bs"
| "words_of_bytes _ = []"

definition bytes_of_word :: "w32 \<Rightarrow> bytes" where
  "bytes_of_word x = map (\<lambda>k. ucast (drop_bit k x)) [24, 16, 8, 0]"

text \<open>Padding: a one bit, zeros up to 56 modulo 64, the length in bits as 64 bits.\<close>

definition sha_pad :: "bytes \<Rightarrow> bytes" where
  "sha_pad m = m @ [0x80] @ replicate ((119 - length m mod 64) mod 64) 0
     @ map (\<lambda>k. ucast (drop_bit k (of_nat (8 * length m) :: 64 word)))
         [56, 48, 40, 32, 24, 16, 8, 0]"

text \<open>The message schedule, extended word by word.\<close>

fun sha_extend :: "nat \<Rightarrow> w32 list \<Rightarrow> w32 list" where
  "sha_extend 0 ws = ws"
| "sha_extend (Suc n) ws =
     (let t = length ws;
          x = ws ! (t - 15); y = ws ! (t - 2);
          s0 = rotr 7 x XOR rotr 18 x XOR drop_bit 3 x;
          s1 = rotr 17 y XOR rotr 19 y XOR drop_bit 10 y
      in sha_extend n (ws @ [ws ! (t - 16) + s0 + ws ! (t - 7) + s1]))"

fun sha_round :: "w32 list \<Rightarrow> w32 \<times> w32 \<Rightarrow> w32 list" where
  "sha_round [a, b, c, d, e, f, g, h] (k, w) =
     (let s1 = rotr 6 e XOR rotr 11 e XOR rotr 25 e;
          ch = (e AND f) XOR (NOT e AND g);
          t1 = h + s1 + ch + k + w;
          s0 = rotr 2 a XOR rotr 13 a XOR rotr 22 a;
          maj = (a AND b) XOR (a AND c) XOR (b AND c)
      in [t1 + s0 + maj, a, b, c, d + t1, e, f, g])"
| "sha_round hs _ = hs"

definition sha_block :: "w32 list \<Rightarrow> w32 list \<Rightarrow> w32 list" where
  "sha_block hs ws = map2 (+) hs (foldl sha_round hs (zip sha_k (sha_extend 48 ws)))"

fun sha_blocks :: "nat \<Rightarrow> w32 list \<Rightarrow> w32 list \<Rightarrow> w32 list" where
  "sha_blocks 0 hs ws = hs"
| "sha_blocks (Suc n) hs ws = sha_blocks n (sha_block hs (take 16 ws)) (drop 16 ws)"

definition sha256 :: "bytes \<Rightarrow> bytes" where
  "sha256 m = (let ws = words_of_bytes (sha_pad m)
               in concat (map bytes_of_word (sha_blocks (length ws div 16) sha_init ws)))"

definition hmac_sha256 :: "bytes \<Rightarrow> bytes \<Rightarrow> bytes" where
  "hmac_sha256 key msg =
     (let k0 = (if length key > 64 then sha256 key else key);
          k = k0 @ replicate (64 - length k0) 0
      in sha256 (map (\<lambda>b. b XOR 0x5c) k @ sha256 (map (\<lambda>b. b XOR 0x36) k @ msg)))"

section \<open>The functions of \<^verbatim>\<open>crypto.py\<close>\<close>

definition gen_password :: "'x env \<Rightarrow> nat \<Rightarrow> ('x world, string) prog" where
  "gen_password E nbytes =
     bindE (os_draw (e_random E nbytes)) (\<lambda>bs. ret (token_urlsafe bs))"

text \<open>A Fernet object is its key.\<close>

definition fernet_from_key :: "'x env \<Rightarrow> string \<Rightarrow> exn + string" where
  "fernet_from_key E key =
     (if e_key_ok E key then Inr key
      else Inl (ValueError ''SANDBOX_FERNET_KEY is not a valid Fernet key''))"

definition encrypt_creds :: "'x env \<Rightarrow> json \<Rightarrow> string \<Rightarrow> ('x world, bytes) prog" where
  "encrypt_creds E creds fernet =
     (let payload = utf8_encode (dumps_compact creds) in os_draw (e_encrypt E fernet payload))"

text \<open>The decoding errors of \<^verbatim>\<open>bytes.decode\<close> and \<^verbatim>\<open>json.loads\<close> are \<^verbatim>\<open>ValueError\<close>s too.\<close>

definition decrypt_creds :: "'x env \<Rightarrow> bytes \<Rightarrow> string \<Rightarrow> exn + json" where
  "decrypt_creds E token fernet =
     (case e_decrypt E fernet token of
        None \<Rightarrow> Inl (ValueError ''Invalid Fernet token (key mismatch or corruption)'')
      | Some raw \<Rightarrow>
          (case utf8_decode raw of
             None \<Rightarrow> Inl (ValueError ''invalid utf-8'')
           | Some text \<Rightarrow>
               (case loads text of
                  None \<Rightarrow> Inl (ValueError ''invalid json'')
                | Some creds \<Rightarrow> Inr creds)))"

definition constant_time_eq :: "string \<Rightarrow> string \<Rightarrow> bool" where
  "constant_time_eq a b \<longleftrightarrow> utf8_encode a = utf8_encode b"

definition webhook_signature :: "string \<Rightarrow> bytes \<Rightarrow> string" where
  "webhook_signature secret body = ''sha256='' @ hex (hmac_sha256 (utf8_encode secret) body)"

definition verify_webhook_signature :: "string \<Rightarrow> bytes \<Rightarrow> string \<Rightarrow> bool" where
  "verify_webhook_signature secret body header =
     (if header = [] then False
      else let expected = webhook_signature secret body in constant_time_eq expected header)"

section \<open>Facts\<close>

lemma constant_time_eq_iff [simp]: "constant_time_eq a b \<longleftrightarrow> a = b"
  by (simp add: constant_time_eq_def)

lemma verify_webhook_signature_iff:
  "verify_webhook_signature secret body header \<longleftrightarrow> header = webhook_signature secret body"
  by (auto simp: verify_webhook_signature_def webhook_signature_def)

text \<open>
  What the code relies on of Fernet (its documented behaviour): a token decrypts to what was
  encrypted under the same key, and the one-byte placeholder of an unfinished session is no token.
\<close>

definition fernet_roundtrip :: "'x env \<Rightarrow> string \<Rightarrow> bool" where
  "fernet_roundtrip E key \<longleftrightarrow> (\<forall>b x. e_decrypt E key (fst (e_encrypt E key b x)) = Some b)"

definition placeholder_creds :: bytes where
  "placeholder_creds = [0]"

definition rejects_placeholder :: "'x env \<Rightarrow> string \<Rightarrow> bool" where
  "rejects_placeholder E key \<longleftrightarrow> e_decrypt E key placeholder_creds = None"

lemma decrypt_encrypt:
  assumes "fernet_roundtrip E key" and "encrypt_creds E creds key w = (Inr token, w')"
  shows "decrypt_creds E token key = Inr (sort_keys creds)"
proof -
  obtain x where "token = fst (e_encrypt E key (utf8_encode (dumps_compact creds)) x)"
    using assms(2) by (auto simp: encrypt_creds_def os_draw_def split: prod.splits)
       (metis fst_conv)
  with assms(1) show ?thesis
    by (simp add: decrypt_creds_def fernet_roundtrip_def utf8_decode_encode loads_dumps_compact)
qed

lemma length_sha256: "length (sha256 m) = 32"
proof -
  have len: "length (sha_round hs kw) = length hs" for hs kw
    by (cases "(hs, kw)" rule: sha_round.cases) (simp_all add: Let_def)
  have "length (foldl sha_round hs kws) = length hs" for hs kws
    by (induction kws arbitrary: hs) (simp_all add: len)
  then have "length (sha_block hs ws) = length hs" for hs ws
    by (simp add: sha_block_def)
  then have "length (sha_blocks n hs ws) = length hs" for n hs ws
    by (induction n arbitrary: hs ws) simp_all
  then have "length (sha_blocks n sha_init ws) = 8" for n ws
    by (simp add: sha_init_def)
  then show ?thesis
    by (simp add: sha256_def Let_def length_concat comp_def bytes_of_word_def sum_list_triv)
qed

end
