(* ===== verification/Models.thy ===== *)
theory Models
  imports Json
begin

text \<open>
  \<^verbatim>\<open>api/models.py\<close>: the request models and their validators. A request body is a JSON value;
  every rejection is a \<^verbatim>\<open>ValueError\<close> (which pydantic turns into the 422 answer).
\<close>

section \<open>Names\<close>

text \<open>
  \<^verbatim>\<open>re.match(r"^[A-Za-z0-9_]+$", s)\<close>. In Python's \<^verbatim>\<open>re\<close> the \<^verbatim>\<open>$\<close> also matches before
  a newline that ends the string.
\<close>

definition name_re :: "string \<Rightarrow> bool" where
  "name_re s =
     (let body = (if s \<noteq> [] \<and> last s = CHR 0x0A then butlast s else s)
      in body \<noteq> [] \<and> list_all word_char body)"

text \<open>\<^verbatim>\<open>repr\<close> of a string without special characters.\<close>

definition quoted :: "string \<Rightarrow> string" where
  "quoted s = [CHR 0x27] @ s @ [CHR 0x27]"

definition MAX_NAME_LEN :: nat where
  "MAX_NAME_LEN = 64"

definition validate_name :: "string \<Rightarrow> string \<Rightarrow> exn + string" where
  "validate_name v kind =
     (if v = [] \<or> length v > MAX_NAME_LEN \<or> \<not> name_re v
      then Inl (ValueError (''invalid '' @ kind @ '' name: '' @ quoted v))
      else Inr v)"

section \<open>Database specifications\<close>

datatype tables = TNone | TAll | TList "string list"

record dbspec =
  spec_name :: string
  spec_tables :: tables

text \<open>The loop over the table names, with the set of those seen.\<close>

fun check_tables :: "string set \<Rightarrow> json list \<Rightarrow> exn + string list" where
  "check_tables seen [] = Inr []"
| "check_tables seen (JStr t # vs) =
     (case validate_name t ''table'' of
        Inl e \<Rightarrow> Inl e
      | Inr _ \<Rightarrow>
          if t \<in> seen then Inl (ValueError (''duplicate table: '' @ t))
          else (case check_tables (insert t seen) vs of Inl e \<Rightarrow> Inl e | Inr ts \<Rightarrow> Inr (t # ts)))"
| "check_tables seen (v # vs) = Inl (ValueError ''each table must be a string'')"

definition check_table_list :: "json list \<Rightarrow> exn + tables" where
  "check_table_list vs =
     (if vs = []
      then Inl (ValueError (''tables must be non-empty if provided (or omit/'' @ quoted ''all'' @ '' for full DB)''))
      else (case check_tables {} vs of Inl e \<Rightarrow> Inl e | Inr ts \<Rightarrow> Inr (TList ts)))"

definition normalise_tables :: "json \<Rightarrow> exn + tables" where
  "normalise_tables v =
     (case v of
        JNull \<Rightarrow> Inr TNone
      | JStr s \<Rightarrow> if s = ''all'' then Inr TAll else check_table_list [JStr s]
      | JArr vs \<Rightarrow> check_table_list vs
      | _ \<Rightarrow> Inl (ValueError (''tables must be a list of strings or '' @ quoted ''all'')))"

text \<open>A \<^verbatim>\<open>DBSpec\<close> from an object; unknown members are ignored.\<close>

definition make_dbspec :: "(string \<times> json) list \<Rightarrow> exn + dbspec" where
  "make_dbspec kvs =
     (case jget ''name'' kvs of
        Some (JStr n) \<Rightarrow>
          (case validate_name n ''db'' of
             Inl e \<Rightarrow> Inl e
           | Inr name \<Rightarrow>
               (case (case jget ''tables'' kvs of None \<Rightarrow> Inr TNone | Some v \<Rightarrow> normalise_tables v) of
                  Inl e \<Rightarrow> Inl e
                | Inr ts \<Rightarrow> Inr \<lparr>spec_name = name, spec_tables = ts\<rparr>))
      | Some _ \<Rightarrow> Inl (ValueError ''name must be a string'')
      | None \<Rightarrow> Inl (ValueError ''name: field required''))"

definition is_full :: "dbspec \<Rightarrow> bool" where
  "is_full d \<longleftrightarrow> spec_tables d = TNone \<or> spec_tables d = TAll \<or> spec_tables d = TList []"

definition table_list :: "dbspec \<Rightarrow> string list option" where
  "table_list d =
     (if is_full d then None
      else (case spec_tables d of TAll \<Rightarrow> None | TNone \<Rightarrow> None | TList ts \<Rightarrow> Some ts))"

text \<open>\<^verbatim>\<open>DBSpec.model_dump()\<close>.\<close>

definition dump_dbspec :: "dbspec \<Rightarrow> json" where
  "dump_dbspec d = JObj
     [(''name'', JStr (spec_name d)),
      (''tables'', case spec_tables d of TNone \<Rightarrow> JNull | TAll \<Rightarrow> JStr ''all''
                   | TList ts \<Rightarrow> JArr (map JStr ts))]"

section \<open>Requests\<close>

text \<open>
  pydantic's \<^verbatim>\<open>pattern\<close> uses Rust's regular expressions, where \<^verbatim>\<open>$\<close> is the end of the text.
\<close>

definition ticket_ok :: "string \<Rightarrow> bool" where
  "ticket_ok t \<longleftrightarrow> 1 \<le> length t \<and> length t \<le> 64 \<and> list_all ticket_char t"

text \<open>\<^verbatim>\<open>_accept_legacy_strings\<close>: the members every item stands for.\<close>

fun accept_legacy_strings :: "json list \<Rightarrow> exn + (string \<times> json) list list" where
  "accept_legacy_strings [] = Inr []"
| "accept_legacy_strings (JStr s # vs) =
     (case accept_legacy_strings vs of
        Inl e \<Rightarrow> Inl e | Inr out \<Rightarrow> Inr ([(''name'', JStr s)] # out))"
| "accept_legacy_strings (JObj kvs # vs) =
     (case accept_legacy_strings vs of Inl e \<Rightarrow> Inl e | Inr out \<Rightarrow> Inr (kvs # out))"
| "accept_legacy_strings (v # vs) =
     Inl (ValueError ''each db must be a string or {name, tables}'')"

fun make_dbspecs :: "(string \<times> json) list list \<Rightarrow> exn + dbspec list" where
  "make_dbspecs [] = Inr []"
| "make_dbspecs (kvs # rest) =
     (case make_dbspec kvs of
        Inl e \<Rightarrow> Inl e
      | Inr d \<Rightarrow> (case make_dbspecs rest of Inl e \<Rightarrow> Inl e | Inr ds \<Rightarrow> Inr (d # ds)))"

definition unique_dbs :: "dbspec list \<Rightarrow> exn + dbspec list" where
  "unique_dbs ds =
     (let names = map spec_name ds in
      if card (set names) \<noteq> length names then Inl (ValueError ''dbs must be unique'') else Inr ds)"

definition check_dbs :: "json \<Rightarrow> exn + dbspec list" where
  "check_dbs v =
     (case v of
        JArr items \<Rightarrow>
          (case accept_legacy_strings items of
             Inl e \<Rightarrow> Inl e
           | Inr out \<Rightarrow>
               (case make_dbspecs out of
                  Inl e \<Rightarrow> Inl e
                | Inr ds \<Rightarrow>
                    if length ds < 1 \<or> length ds > 10
                    then Inl (ValueError ''dbs: between 1 and 10 items'')
                    else unique_dbs ds))
      | _ \<Rightarrow> Inl (ValueError ''dbs: a list is required''))"

record create_request =
  cr_ticket :: string
  cr_dbs :: "dbspec list"

definition make_create_request :: "json \<Rightarrow> exn + create_request" where
  "make_create_request body =
     (case body of
        JObj kvs \<Rightarrow>
          (case (jget ''ticket'' kvs, jget ''dbs'' kvs) of
             (Some (JStr t), Some v) \<Rightarrow>
               if \<not> ticket_ok t then Inl (ValueError ''ticket: invalid'')
               else (case check_dbs v of
                       Inl e \<Rightarrow> Inl e | Inr ds \<Rightarrow> Inr \<lparr>cr_ticket = t, cr_dbs = ds\<rparr>)
           | _ \<Rightarrow> Inl (ValueError ''ticket and dbs are required''))
      | _ \<Rightarrow> Inl (ValueError ''an object is required''))"

record ticket_closed_request =
  tc_ticket :: string
  tc_session_id :: string

definition make_ticket_closed_request :: "json \<Rightarrow> exn + ticket_closed_request" where
  "make_ticket_closed_request body =
     (case body of
        JObj kvs \<Rightarrow>
          (case (jget ''ticket'' kvs, jget ''session_id'' kvs) of
             (Some (JStr t), Some (JStr sid)) \<Rightarrow>
               if \<not> ticket_ok t then Inl (ValueError ''ticket: invalid'')
               else if length sid < 8 then Inl (ValueError ''session_id: too short'')
               else Inr \<lparr>tc_ticket = t, tc_session_id = sid\<rparr>
           | _ \<Rightarrow> Inl (ValueError ''ticket and session_id are required''))
      | _ \<Rightarrow> Inl (ValueError ''an object is required''))"

section \<open>Responses\<close>

record database_info =
  di_name :: string
  di_user :: string
  di_password :: string
  di_tables :: "string list option"

text \<open>\<^verbatim>\<open>list[TableName] | None = None\<close>: a list of strings, null, or nothing.\<close>

fun string_list :: "json list \<Rightarrow> exn + string list" where
  "string_list [] = Inr []"
| "string_list (JStr s # vs) =
     (case string_list vs of Inl e \<Rightarrow> Inl e | Inr ss \<Rightarrow> Inr (s # ss))"
| "string_list (v # vs) = Inl (ValidationError ''tables: a string is required'')"

definition optional_tables :: "json option \<Rightarrow> exn + string list option" where
  "optional_tables v =
     (case v of
        None \<Rightarrow> Inr None
      | Some JNull \<Rightarrow> Inr None
      | Some (JArr vs) \<Rightarrow> (case string_list vs of Inl e \<Rightarrow> Inl e | Inr ss \<Rightarrow> Inr (Some ss))
      | Some _ \<Rightarrow> Inl (ValidationError ''tables: a list is required''))"

text \<open>\<^verbatim>\<open>DatabaseInfo(**d)\<close>: only a mapping can be unpacked; further members are ignored.\<close>

definition make_database_info :: "json \<Rightarrow> exn + database_info" where
  "make_database_info d =
     (case d of
        JObj kvs \<Rightarrow>
          (case (jget ''name'' kvs, jget ''user'' kvs, jget ''password'' kvs) of
             (Some (JStr n), Some (JStr u), Some (JStr p)) \<Rightarrow>
               (case optional_tables (jget ''tables'' kvs) of
                  Inl e \<Rightarrow> Inl e
                | Inr ts \<Rightarrow> Inr \<lparr>di_name = n, di_user = u, di_password = p, di_tables = ts\<rparr>)
           | _ \<Rightarrow> Inl (ValidationError ''name, user and password are required''))
      | _ \<Rightarrow> Inl (TypeError ''argument after ** must be a mapping''))"

text \<open>\<^verbatim>\<open>[DatabaseInfo(**d) for d in ...]\<close>; what is iterated over may be any JSON value.\<close>

fun make_database_infos :: "json list \<Rightarrow> exn + database_info list" where
  "make_database_infos [] = Inr []"
| "make_database_infos (d # ds) =
     (case make_database_info d of
        Inl e \<Rightarrow> Inl e
      | Inr i \<Rightarrow> (case make_database_infos ds of Inl e \<Rightarrow> Inl e | Inr is \<Rightarrow> Inr (i # is)))"

definition iterate :: "json \<Rightarrow> exn + json list" where
  "iterate v =
     (case v of
        JArr xs \<Rightarrow> Inr xs
      | JStr s \<Rightarrow> Inr (map (\<lambda>c. JStr [c]) s)
      | JObj kvs \<Rightarrow> Inr (map JStr (remdups (map fst kvs)))
      | _ \<Rightarrow> Inl (TypeError ''object is not iterable''))"

definition database_infos :: "json \<Rightarrow> exn + database_info list" where
  "database_infos v =
     (case iterate v of Inl e \<Rightarrow> Inl e | Inr ds \<Rightarrow> make_database_infos ds)"

text \<open>The \<^verbatim>\<open>Literal\<close> of a session's status.\<close>

definition status_literal :: "string \<Rightarrow> exn + string" where
  "status_literal st =
     (if st \<in> {''starting'', ''ready'', ''expired'', ''nuked'', ''error''} then Inr st
      else Inl (ValidationError ''status: unexpected value''))"

lemma string_list_map [simp]: "string_list (map JStr ss) = Inr ss"
  by (induction ss) simp_all

section \<open>What validation guarantees\<close>

lemma validate_name_Inr:
  "validate_name v kind = Inr w \<longleftrightarrow> w = v \<and> length v \<le> 64 \<and> name_re v"
  by (auto simp: validate_name_def MAX_NAME_LEN_def name_re_def)

text \<open>The characters of an accepted name: word characters, and perhaps one final newline.\<close>

lemma newline_not_word: "list_all word_char s \<Longrightarrow> s \<noteq> [] \<Longrightarrow> last s \<noteq> CHR 0x0A"
proof
  assume "list_all word_char s" and "s \<noteq> []" and "last s = CHR 0x0A"
  then have "word_char CHR 0x0A" using last_in_set[of s] by (auto simp: list_all_iff)
  then show False by code_simp
qed

lemma name_re_iff:
  "name_re s \<longleftrightarrow> (\<exists>body. (s = body \<or> s = body @ [CHR 0x0A]) \<and> body \<noteq> [] \<and> list_all word_char body)"
proof
  assume re: "name_re s"
  show "\<exists>body. (s = body \<or> s = body @ [CHR 0x0A]) \<and> body \<noteq> [] \<and> list_all word_char body"
  proof (cases "s \<noteq> [] \<and> last s = CHR 0x0A")
    case True
    then have "s = butlast s @ [CHR 0x0A]" by (metis append_butlast_last_id)
    moreover have "butlast s \<noteq> [] \<and> list_all word_char (butlast s)"
      using re True by (simp add: name_re_def Let_def)
    ultimately show ?thesis by blast
  next
    case False
    with re show ?thesis by (auto simp: name_re_def Let_def)
  qed
next
  assume "\<exists>body. (s = body \<or> s = body @ [CHR 0x0A]) \<and> body \<noteq> [] \<and> list_all word_char body"
  then obtain body where s: "s = body \<or> s = body @ [CHR 0x0A]"
    and b: "body \<noteq> []" "list_all word_char body" by blast
  from newline_not_word[OF b(2,1)] s b show "name_re s" by (auto simp: name_re_def)
qed

lemma check_tables_Inr:
  "check_tables seen vs = Inr ts \<Longrightarrow>
     vs = map JStr ts \<and> distinct ts \<and> set ts \<inter> seen = {}
     \<and> (\<forall>t \<in> set ts. length t \<le> 64 \<and> name_re t)"
proof (induction seen vs arbitrary: ts rule: check_tables.induct)
  case (2 seen t vs)
  obtain u where u: "validate_name t ''table'' = Inr u"
    using 2(2) by (cases "validate_name t ''table''") simp_all
  have t: "t \<notin> seen" using 2(2) u by (cases "t \<in> seen") simp_all
  obtain ts' where ts': "check_tables (insert t seen) vs = Inr ts'"
    using 2(2) u t by (cases "check_tables (insert t seen) vs") simp_all
  with 2(2) u t have "ts = t # ts'" by simp
  with 2(1)[OF u t ts'] t u show ?case by (simp add: validate_name_Inr)
qed simp_all

text \<open>A specification that passed validation.\<close>

definition valid_dbspec :: "dbspec \<Rightarrow> bool" where
  "valid_dbspec d \<longleftrightarrow> length (spec_name d) \<le> 64 \<and> name_re (spec_name d)
     \<and> (case spec_tables d of
          TList ts \<Rightarrow> ts \<noteq> [] \<and> distinct ts \<and> (\<forall>t \<in> set ts. length t \<le> 64 \<and> name_re t)
        | _ \<Rightarrow> True)"

lemma check_table_list_Inr:
  "check_table_list vs = Inr t \<Longrightarrow> \<exists>ts. t = TList ts \<and> vs = map JStr ts \<and> ts \<noteq> [] \<and> distinct ts
     \<and> (\<forall>x \<in> set ts. length x \<le> 64 \<and> name_re x)"
  by (auto simp: check_table_list_def split: if_splits sum.splits dest!: check_tables_Inr)

lemma make_dbspec_valid: "make_dbspec kvs = Inr d \<Longrightarrow> valid_dbspec d"
  by (auto simp: make_dbspec_def valid_dbspec_def validate_name_Inr normalise_tables_def
      split: option.splits json.splits sum.splits if_splits dest!: check_table_list_Inr)

lemma make_dbspecs_valid: "make_dbspecs xs = Inr ds \<Longrightarrow> \<forall>d \<in> set ds. valid_dbspec d"
  by (induction xs arbitrary: ds) (auto split: sum.splits intro: make_dbspec_valid)

lemma check_dbs_valid:
  assumes "check_dbs v = Inr ds"
  shows "1 \<le> length ds \<and> length ds \<le> 10 \<and> distinct (map spec_name ds) \<and> (\<forall>d \<in> set ds. valid_dbspec d)"
  using assms
  by (auto simp: check_dbs_def unique_dbs_def Let_def card_distinct Suc_le_eq
      split: json.splits sum.splits if_splits dest: make_dbspecs_valid)

text \<open>The validated request, as the service receives it.\<close>

definition valid_request :: "create_request \<Rightarrow> bool" where
  "valid_request r \<longleftrightarrow> ticket_ok (cr_ticket r) \<and> 1 \<le> length (cr_dbs r) \<and> length (cr_dbs r) \<le> 10
     \<and> distinct (map spec_name (cr_dbs r)) \<and> (\<forall>d \<in> set (cr_dbs r). valid_dbspec d)"

lemma make_create_request_valid: "make_create_request body = Inr r \<Longrightarrow> valid_request r"
  by (auto simp: make_create_request_def valid_request_def
      split: json.splits option.splits if_splits sum.splits dest!: check_dbs_valid)

end
