(* ===== verification/Service.thy ===== *)
theory Service
  imports Docker_Ops Mysql_Ops Tls_Ops Crypto Models
begin

text \<open>
  \<^verbatim>\<open>api/service.py\<close>: the session service. As in the code, every operation it uses is a field
  of the \<open>service\<close> record, injected by the caller; \<open>build_service\<close> (\<^verbatim>\<open>main._build_service\<close>) fills
  them with the real operations. The locale \<open>store_neutral\<close> states what the lemmas rely on: no
  injected operation touches the session store.
\<close>

section \<open>Failures\<close>

definition classify_failure :: "exn \<Rightarrow> string \<times> string" where
  "classify_failure e =
     (case e of
        TunnelError m \<Rightarrow> (''ssh'', ''SSH tunnel failed: '' @ m)
      | MySQLOpsError m \<Rightarrow>
          if py_in ''mysqldump'' (lower m) then (''dump'', ''prod dump failed: '' @ m)
          else if py_in ''create database'' (lower m)
          then (''restore'', ''create database failed: '' @ m)
          else (''restore'', ''mysql restore failed: '' @ m)
      | DockerOpsError m \<Rightarrow>
          if py_in ''port'' (lower m) then (''port'', ''container port error: '' @ m)
          else (''container'', ''container error: '' @ m)
      | _ \<Rightarrow> (''internal'', ''unexpected error: '' @ exn_str e))"

section \<open>The service\<close>

text \<open>
  The paths, ports and texts are positional here. \<open>sv_down_session\<close> gets \<open>None\<close> where the code
  leaves out \<^verbatim>\<open>remove_volumes\<close>. \<^verbatim>\<open>dump_db\<close>, \<^verbatim>\<open>restore_db\<close> and
  \<^verbatim>\<open>replace_port_in_compose\<close> are injected too but never called by the service.
\<close>

record 'x service =
  sv_settings :: settings
  sv_fernet :: string
  sv_open_tunnel ::
    "tunnel_args \<Rightarrow> (tunnel \<Rightarrow> ('x world, unit) prog) \<Rightarrow> ('x world, unit) prog"
  sv_clone_db :: "tunnel \<Rightarrow> string \<Rightarrow> string \<Rightarrow> string \<Rightarrow> target \<Rightarrow> string \<Rightarrow> string option \<Rightarrow> string list
    \<Rightarrow> ('x world, unit) prog"
  sv_apply_grants :: "target \<Rightarrow> string list \<Rightarrow> ('x world, unit) prog"
  sv_wait_ready :: "target \<Rightarrow> int \<Rightarrow> ('x world, unit) prog"
  sv_set_general_log :: "bool \<Rightarrow> target \<Rightarrow> ('x world, unit) prog"
  sv_up_session :: "string \<Rightarrow> ('x world, unit) prog"
  sv_down_session :: "string \<Rightarrow> bool option \<Rightarrow> ('x world, unit) prog"
  sv_render_compose :: "session_paths \<Rightarrow> string \<Rightarrow> string \<Rightarrow> string \<Rightarrow> string \<Rightarrow> int \<Rightarrow> string
    \<Rightarrow> ('x world, string) prog"
  sv_render_mysqld_cnf :: "session_paths \<Rightarrow> ('x world, string) prog"
  sv_render_grant_sql :: "grant list \<Rightarrow> string"
  sv_generate_session_tls ::
    "string \<Rightarrow> string \<Rightarrow> string \<Rightarrow> string option \<Rightarrow> ('x world, tls_material) prog"
  sv_wait_healthy :: "string \<Rightarrow> int \<Rightarrow> ('x world, unit) prog"
  sv_make_session_paths ::
    "string \<Rightarrow> string \<Rightarrow> string \<Rightarrow> settings \<Rightarrow> ('x world, session_paths) prog"
  sv_allocate_port :: "int set \<Rightarrow> settings \<Rightarrow> exn + int"
  sv_gen_root_password :: "('x world, string) prog"

definition real_service :: "'x env \<Rightarrow> 'x x509 \<Rightarrow> settings \<Rightarrow> string \<Rightarrow> 'x service" where
  "real_service E X s fernet =
     \<lparr>sv_settings = s, sv_fernet = fernet,
      sv_open_tunnel = open_tunnel E,
      sv_clone_db = (\<lambda>t sd su sp tg td h ts. clone_db E t sd su sp tg td h ts [] 7200),
      sv_apply_grants = apply_grants E, sv_wait_ready = wait_ready E,
      sv_set_general_log = set_general_log E,
      sv_up_session = (\<lambda>p. up_session E p 600),
      sv_down_session = (\<lambda>p v. down_session E p (case v of None \<Rightarrow> True | Some b \<Rightarrow> b) 120),
      sv_render_compose = render_compose E, sv_render_mysqld_cnf = render_mysqld_cnf E,
      sv_render_grant_sql = render_grant_sql,
      sv_generate_session_tls = generate_session_tls E X, sv_wait_healthy = wait_healthy E,
      sv_make_session_paths = make_session_paths E, sv_allocate_port = allocate_port,
      sv_gen_root_password = gen_root_password E\<rparr>"

definition build_service :: "'x env \<Rightarrow> 'x x509 \<Rightarrow> settings \<Rightarrow> exn + 'x service" where
  "build_service E X s =
     (case fernet_from_key E (sandbox_fernet_key s) of
        Inl e \<Rightarrow> Inl e
      | Inr fernet \<Rightarrow> Inr (real_service E X s fernet))"

section \<open>Creating a session\<close>

record db_cred =
  dc_name :: string
  dc_user :: string
  dc_password :: string
  dc_tables :: "string list option"

definition cred_json :: "db_cred \<Rightarrow> json" where
  "cred_json c = JObj
     [(''name'', JStr (dc_name c)), (''user'', JStr (dc_user c)),
      (''password'', JStr (dc_password c)),
      (''tables'', case dc_tables c of None \<Rightarrow> JNull | Some ts \<Rightarrow> JArr (map JStr ts))]"

definition creds_json :: "db_cred list \<Rightarrow> string \<Rightarrow> json" where
  "creds_json creds root_password =
     JObj [(''dbs'', JArr (map cred_json creds)), (''root_password'', JStr root_password)]"

definition grant_of :: "db_cred \<Rightarrow> grant" where
  "grant_of c = \<lparr>g_db = dc_name c, g_user = dc_user c, g_password = dc_password c\<rparr>"

definition info_of :: "db_cred \<Rightarrow> database_info" where
  "info_of c = \<lparr>di_name = dc_name c, di_user = dc_user c, di_password = dc_password c,
     di_tables = dc_tables c\<rparr>"

text \<open>One turn of the first loop of \<^verbatim>\<open>_do_create\<close>: four random bytes, then the password.\<close>

definition make_cred :: "'x env \<Rightarrow> dbspec \<Rightarrow> ('x world, db_cred) prog" where
  "make_cred E spec =
     bindE (os_draw (e_random E 4)) (\<lambda>tok.
     bindE (gen_password E 24) (\<lambda>pw.
     ret \<lparr>dc_name = spec_name spec, dc_user = ''u_'' @ spec_name spec @ ''_'' @ token_hex tok,
          dc_password = pw, dc_tables = table_list spec\<rparr>))"

text \<open>What \<^verbatim>\<open>_do_create\<close> is called with, and the answer of \<^verbatim>\<open>create\<close>; times stay epoch seconds.\<close>

record create_args =
  ca_sid :: string
  ca_dbs :: "dbspec list"
  ca_paths :: session_paths
  ca_host_port :: int
  ca_container_name :: string
  ca_created_at :: int

record create_result =
  rs_session_id :: string
  rs_api_host :: string
  rs_mysql_host :: string
  rs_mysql_port :: int
  rs_expires_at :: int
  rs_max_extended_until :: int
  rs_ca_url :: string
  rs_databases :: "database_info list"

definition ca_url :: "string \<Rightarrow> string \<Rightarrow> string" where
  "ca_url host sid = ''https://'' @ host @ ''/session-tls/'' @ sid @ ''/ca.pem''"

definition ca_path :: "create_args \<Rightarrow> string" where
  "ca_path a = path_join (sp_tls_dir (ca_paths a)) ''ca.pem''"

text \<open>The sandbox as its clients on this host address it.\<close>

definition root_target :: "create_args \<Rightarrow> string \<Rightarrow> target" where
  "root_target a root_password =
     \<lparr>tg_host = ''127.0.0.1'', tg_port = ca_host_port a, tg_user = ''root'',
      tg_password = root_password, tg_ssl_ca = Some (ca_path a)\<rparr>"

text \<open>Certificates, the private compose file, and a server that answers on the loopback port.\<close>

definition start_private :: "'x service \<Rightarrow> create_args \<Rightarrow> string \<Rightarrow> ('x world, unit) prog" where
  "start_private S a root_password =
     bindE (sv_generate_session_tls S (ca_sid a) (sp_tls_dir (ca_paths a)) (ca_container_name a)
              (Some (sandbox_mysql_host (sv_settings S)))) (\<lambda>_.
     bindE (sv_render_compose S (ca_paths a) (ca_sid a) (ca_container_name a)
              (sandbox_mysql_image (sv_settings S)) ''127.0.0.1'' (ca_host_port a) root_password) (\<lambda>_.
     bindE (sv_render_mysqld_cnf S (ca_paths a)) (\<lambda>_.
     thenE (sv_up_session S (sp_compose_path (ca_paths a)))
    (thenE (sv_wait_healthy S (ca_container_name a) 600)
    (sv_wait_ready S (root_target a root_password) 60)))))"

definition tunnel_args_of :: "settings \<Rightarrow> tunnel_args" where
  "tunnel_args_of s =
     \<lparr>ta_ssh_host = prod_ssh_host s, ta_ssh_port = prod_ssh_port s, ta_ssh_user = prod_ssh_user s,
      ta_ssh_key = prod_ssh_key s, ta_remote_host = prod_mysql_host s,
      ta_remote_port = prod_mysql_port s, ta_bind_host = sandbox_tunnel_bind_host s\<rparr>"

text \<open>The clones, inside the tunnel and with the audit log off.\<close>

definition clone_all :: "'x service \<Rightarrow> create_args \<Rightarrow> string \<Rightarrow> ('x world, unit) prog" where
  "clone_all S a root_password =
     thenE (quietE (sv_set_general_log S False (root_target a root_password)))
    (thenE (sv_open_tunnel S (tunnel_args_of (sv_settings S)) (\<lambda>tunnel.
       for_eachE (\<lambda>spec.
         sv_clone_db S tunnel (spec_name spec) (prod_mysql_user (sv_settings S))
           (prod_mysql_password (sv_settings S)) (root_target a root_password) (spec_name spec)
           (Some (t_local_host tunnel)) (case table_list spec of None \<Rightarrow> [] | Some ts \<Rightarrow> ts))
         (ca_dbs a)))
    (quietE (sv_set_general_log S True (root_target a root_password))))"

text \<open>The grants, then the public compose file and the restart behind it.\<close>

definition publish ::
    "'x service \<Rightarrow> create_args \<Rightarrow> string \<Rightarrow> db_cred list \<Rightarrow> ('x world, unit) prog" where
  "publish S a root_password creds =
     thenE (sv_apply_grants S (root_target a root_password)
              [sv_render_grant_sql S (map grant_of creds)])
    (bindE (sv_render_compose S (ca_paths a) (ca_sid a) (ca_container_name a)
              (sandbox_mysql_image (sv_settings S)) ''0.0.0.0'' (ca_host_port a) root_password) (\<lambda>_.
     thenE (sv_down_session S (sp_compose_path (ca_paths a)) (Some False))
    (thenE (sv_up_session S (sp_compose_path (ca_paths a)))
    (sv_wait_healthy S (ca_container_name a) 300))))"

text \<open>
  The answer of a create that succeeded. The times stay epoch seconds: \<^verbatim>\<open>datetime.fromtimestamp\<close> is
  left out here and in \<open>reset_result\<close>, and with it the exception it raises past the year 9999, that is
  for a configured lifetime of some 8000 years.
\<close>

definition create_answer :: "settings \<Rightarrow> create_args \<Rightarrow> db_cred list \<Rightarrow> create_result" where
  "create_answer s a creds =
     \<lparr>rs_session_id = ca_sid a, rs_api_host = sandbox_public_host s,
      rs_mysql_host = sandbox_mysql_host s, rs_mysql_port = ca_host_port a,
      rs_expires_at = ca_created_at a + sandbox_ttl_default_seconds s,
      rs_max_extended_until = ca_created_at a + sandbox_ttl_max_seconds s,
      rs_ca_url = ca_url (sandbox_public_host s) (ca_sid a), rs_databases = map info_of creds\<rparr>"

text \<open>The row becomes \<^verbatim>\<open>ready\<close>, or, if someone took it away meanwhile, the container goes.\<close>

definition commit_ready ::
    "'x service \<Rightarrow> 'x env \<Rightarrow> create_args \<Rightarrow> string \<Rightarrow> db_cred list \<Rightarrow> ('x world, create_result) prog"
where
  "commit_ready S E a root_password creds =
     (let s = sv_settings S;
          expires_at = ca_created_at a + sandbox_ttl_default_seconds s;
          max_extended_until = ca_created_at a + sandbox_ttl_max_seconds s in
      bindE (encrypt_creds E (creds_json creds root_password) (sv_fernet S)) (\<lambda>creds_blob.
      bindE (store_op (update_to_ready (ca_sid a) creds_blob expires_at max_extended_until)) (\<lambda>won.
      if \<not> won then
        thenE (quietE (sv_down_session S (sp_compose_path (ca_paths a)) (Some True)))
          (throw (CreateSessionError ''internal'' (ca_sid a) ''session row vanished during create''))
      else ret (create_answer s a creds))))"

definition do_create ::
    "'x service \<Rightarrow> 'x env \<Rightarrow> create_args \<Rightarrow> ('x world, create_result) prog" where
  "do_create S E a =
     bindE (map_eachE (make_cred E) (ca_dbs a)) (\<lambda>creds.
     bindE (sv_gen_root_password S) (\<lambda>root_password.
     thenE (start_private S a root_password)
    (thenE (clone_all S a root_password)
    (thenE (publish S a root_password creds)
    (commit_ready S E a root_password creds)))))"

text \<open>The log directory stays, for the post-mortem.\<close>

definition cleanup_failed_create ::
    "'x service \<Rightarrow> 'x env \<Rightarrow> session_paths \<Rightarrow> ('x world, unit) prog" where
  "cleanup_failed_create S E paths =
     thenE (quietE (sv_down_session S (sp_compose_path paths) (Some True)))
    (quietE (thenE (rmtree E (sp_session_dir paths)) (rmtree E (sp_tls_dir paths))))"

text \<open>\<^verbatim>\<open>_factory\<close>: the placeholder row of a create in progress.\<close>

definition placeholder ::
    "settings \<Rightarrow> string \<Rightarrow> string \<Rightarrow> string \<Rightarrow> dbspec list \<Rightarrow> session_paths \<Rightarrow> int \<Rightarrow> int \<Rightarrow> draft" where
  "placeholder s sid ticket date_str dbs paths now host_port =
     \<lparr>d_id = Some sid, d_ticket = Some ticket, d_date = Some date_str,
      d_dbs_json = Some (dumps (JArr (map dump_dbspec dbs))),
      d_creds_enc = Some placeholder_creds,
      d_host = Some (sandbox_public_host s), d_mysql_host = Some (sandbox_mysql_host s),
      d_port = Some host_port, d_container_name = Some (''sandbox-'' @ sid),
      d_compose_path = Some (sp_compose_path paths), d_tls_dir = Some (sp_tls_dir paths),
      d_log_dir = Some (sp_log_dir paths), d_created_at = Some now,
      d_expires_at = Some (now + 3600), d_max_extended_until = Some now,
      d_ttl_extended = Some 0, d_status = Some STATUS_STARTING\<rparr>"

text \<open>The \<^verbatim>\<open>except DockerOpsError\<close> clause around the reservation.\<close>

definition reserve_failed ::
    "'x env \<Rightarrow> string \<Rightarrow> session_paths \<Rightarrow> exn \<Rightarrow> ('x world, 'a) prog" where
  "reserve_failed E sid paths e =
     (case e of
        DockerOpsError m \<Rightarrow>
          thenE (rmtree E (sp_session_dir paths))
         (thenE (rmtree E (sp_tls_dir paths))
         (thenE (rmtree E (sp_log_dir paths))
         (throw (CreateSessionError ''port'' sid m))))
      | _ \<Rightarrow> throw e)"

text \<open>The handler around \<^verbatim>\<open>_do_create\<close>.\<close>

definition create_failed ::
    "'x service \<Rightarrow> 'x env \<Rightarrow> string \<Rightarrow> session_paths \<Rightarrow> exn \<Rightarrow> ('x world, 'a) prog" where
  "create_failed S E sid paths e =
     (case classify_failure e of (category, msg) \<Rightarrow>
      thenE (cleanup_failed_create S E paths)
     (thenE (quietE (store_op (set_status sid STATUS_ERROR)))
     (case e of
        CreateSessionError _ _ _ \<Rightarrow> throw e
      | _ \<Rightarrow> throw (CreateSessionError category sid msg))))"

definition create_session ::
    "'x service \<Rightarrow> 'x env \<Rightarrow> string \<Rightarrow> dbspec list \<Rightarrow> ('x world, create_result) prog" where
  "create_session S E ticket dbs =
     bindE (os_draw (e_uuid E)) (\<lambda>sid.
     bindE (now_s E) (\<lambda>now.
     bindE (os_read (\<lambda>x. Inr (e_date E x))) (\<lambda>date_str.
     bindE (sv_make_session_paths S sid ticket date_str (sv_settings S)) (\<lambda>paths.
     bindE (catchE
         (store_op (reserve_session (placeholder (sv_settings S) sid ticket date_str dbs paths now)
            (\<lambda>used. sv_allocate_port S used (sv_settings S))))
         (reserve_failed E sid paths)) (\<lambda>row.
     catchE
       (do_create S E
         \<lparr>ca_sid = sid, ca_dbs = dbs, ca_paths = paths, ca_host_port = the (d_port row),
          ca_container_name = the (d_container_name row), ca_created_at = now\<rparr>)
       (create_failed S E sid paths))))))"

section \<open>The other operations\<close>

record session_view =
  vw_session_id :: string
  vw_ticket :: string
  vw_status :: string
  vw_api_host :: string
  vw_mysql_host :: string
  vw_mysql_port :: int
  vw_expires_at :: int
  vw_max_extended_until :: int
  vw_ttl_extended :: bool
  vw_ca_url :: string
  vw_databases :: json

text \<open>\<^verbatim>\<open>creds["dbs"]\<close>.\<close>

definition json_index :: "string \<Rightarrow> json \<Rightarrow> exn + json" where
  "json_index k j =
     (case j of
        JObj kvs \<Rightarrow> (case jget k kvs of None \<Rightarrow> Inl (KeyError k) | Some v \<Rightarrow> Inr v)
      | _ \<Rightarrow> Inl (TypeError ''not a mapping''))"

definition view_of :: "session \<Rightarrow> json \<Rightarrow> session_view" where
  "view_of r dbs =
     \<lparr>vw_session_id = s_id r, vw_ticket = s_ticket r, vw_status = s_status r,
      vw_api_host = s_host r, vw_mysql_host = s_mysql_host r, vw_mysql_port = s_port r,
      vw_expires_at = s_expires_at r, vw_max_extended_until = s_max_extended_until r,
      vw_ttl_extended = (s_ttl_extended r \<noteq> 0), vw_ca_url = ca_url (s_host r) (s_id r),
      vw_databases = dbs\<rparr>"

definition view ::
    "'x service \<Rightarrow> 'x env \<Rightarrow> string \<Rightarrow> ('x world, session_view option) prog" where
  "view S E sid =
     bindE (getsW (\<lambda>w. get sid (db w))) (\<lambda>record.
     case record of
       None \<Rightarrow> ret None
     | Some r \<Rightarrow>
         bindE (liftE (decrypt_creds E (s_creds_enc r) (sv_fernet S))) (\<lambda>creds.
         bindE (liftE (json_index ''dbs'' creds)) (\<lambda>dbs. ret (Some (view_of r dbs)))))"

record reset_result =
  rr_session_id :: string
  rr_expires_at :: int
  rr_max_extended_until :: int
  rr_reset_used :: bool

text \<open>The decision \<^verbatim>\<open>reset_ttl\<close> takes on the row it read: the new expiry or an exception.\<close>

definition reset_decision :: "settings \<Rightarrow> int \<Rightarrow> session \<Rightarrow> exn + int" where
  "reset_decision s now r =
     (if s_status r \<noteq> STATUS_READY
      then Inl (PermissionError (''cannot reset ttl for status='' @ s_status r))
      else if s_ttl_extended r \<noteq> 0 then Inl (PermissionError ''ttl already extended once'')
      else if now \<ge> s_max_extended_until r then Inl (PermissionError ''max ttl already reached'')
      else Inr (min (s_max_extended_until r) (s_expires_at r + sandbox_ttl_reset_add_seconds s)))"

definition reset_ttl ::
    "'x service \<Rightarrow> 'x env \<Rightarrow> string \<Rightarrow> ('x world, reset_result) prog" where
  "reset_ttl S E sid =
     bindE (getsW (\<lambda>w. get sid (db w))) (\<lambda>record.
     case record of
       None \<Rightarrow> throw (KeyError sid)
     | Some r \<Rightarrow>
         bindE (now_s E) (\<lambda>now.
         bindE (liftE (reset_decision (sv_settings S) now r)) (\<lambda>new_expires_at.
         bindE (store_op (update_ttl sid new_expires_at 1)) (\<lambda>_.
         ret \<lparr>rr_session_id = sid, rr_expires_at = new_expires_at,
              rr_max_extended_until = s_max_extended_until r, rr_reset_used = True\<rparr>))))"

definition nuke :: "'x service \<Rightarrow> string \<Rightarrow> ('x world, unit) prog" where
  "nuke S sid =
     bindE (getsW (\<lambda>w. get sid (db w))) (\<lambda>record.
     case record of
       None \<Rightarrow> throw (KeyError sid)
     | Some r \<Rightarrow>
         thenE (quietE (sv_down_session S (s_compose_path r) None))
           (store_op (set_status sid STATUS_NUKED)))"

definition nuke_by_ticket :: "'x service \<Rightarrow> string \<Rightarrow> string \<Rightarrow> ('x world, string) prog" where
  "nuke_by_ticket S ticket sid =
     bindE (getsW (\<lambda>w. get sid (db w))) (\<lambda>record.
     case record of
       None \<Rightarrow> throw (KeyError sid)
     | Some r \<Rightarrow>
         if s_ticket r \<noteq> ticket then throw (KeyError sid)
         else if s_status r = STATUS_NUKED then ret ''already_nuked''
         else
           thenE (quietE (sv_down_session S (s_compose_path r) None))
          (thenE (store_op (set_status sid STATUS_NUKED)) (ret ''nuked'')))"

definition ca_pem :: "'x env \<Rightarrow> string \<Rightarrow> ('x world, bytes) prog" where
  "ca_pem E sid =
     bindE (getsW (\<lambda>w. get sid (db w))) (\<lambda>record.
     case record of
       None \<Rightarrow> throw (KeyError sid)
     | Some r \<Rightarrow>
         let ca = path_join (s_tls_dir r) ''ca.pem'' in
         bindE (path_exists E ca) (\<lambda>ok.
         if ok then read_bytes E ca else throw (FileNotFoundError ca)))"

text \<open>The row a session starts with.\<close>

definition first_row ::
    "settings \<Rightarrow> string \<Rightarrow> string \<Rightarrow> string \<Rightarrow> dbspec list \<Rightarrow> session_paths \<Rightarrow> int \<Rightarrow> int \<Rightarrow> session"
where
  "first_row s sid ticket date dbs paths now port =
     row_of (placeholder s sid ticket date dbs paths now port)"

lemma first_row_simps [simp]:
  "s_id (first_row s sid t d dbs paths now port) = sid"
  "s_ticket (first_row s sid t d dbs paths now port) = t"
  "s_port (first_row s sid t d dbs paths now port) = port"
  "s_status (first_row s sid t d dbs paths now port) = STATUS_STARTING"
  "s_created_at (first_row s sid t d dbs paths now port) = now"
  "s_expires_at (first_row s sid t d dbs paths now port) = now + 3600"
  "s_max_extended_until (first_row s sid t d dbs paths now port) = now"
  "s_ttl_extended (first_row s sid t d dbs paths now port) = 0"
  "s_creds_enc (first_row s sid t d dbs paths now port) = placeholder_creds"
  "s_compose_path (first_row s sid t d dbs paths now port) = sp_compose_path paths"
  "s_tls_dir (first_row s sid t d dbs paths now port) = sp_tls_dir paths"
  "s_host (first_row s sid t d dbs paths now port) = sandbox_public_host s"
  "s_mysql_host (first_row s sid t d dbs paths now port) = sandbox_mysql_host s"
  by (simp_all add: first_row_def row_of_def placeholder_def)

lemma placeholder_ok:
  "check_draft (placeholder s sid t d dbs paths now port)
     = Inr (row_of (placeholder s sid t d dbs paths now port))"
  by (simp add: check_draft_def missing_fields_def placeholder_def)

section \<open>What the service relies on\<close>

text \<open>
  The contract of the injected operations: none of them touches the session store. With it the
  store's contents are decided by the service alone.
\<close>

locale store_neutral =
  fixes S :: "'x service"
  assumes neutral_tunnel:
      "(\<And>t. frames db (body t)) \<Longrightarrow> frames db (sv_open_tunnel S a body)"
    and neutral_clone: "frames db (sv_clone_db S t sd su sp tg td h ts)"
    and neutral_grants: "frames db (sv_apply_grants S tg sqls)"
    and neutral_wait_ready: "frames db (sv_wait_ready S tg n)"
    and neutral_log: "frames db (sv_set_general_log S b tg)"
    and neutral_up: "frames db (sv_up_session S path)"
    and neutral_down: "frames db (sv_down_session S path v)"
    and neutral_compose: "frames db (sv_render_compose S paths sid c img bind port pw)"
    and neutral_cnf: "frames db (sv_render_mysqld_cnf S paths)"
    and neutral_tls: "frames db (sv_generate_session_tls S sid dir c ip)"
    and neutral_healthy: "frames db (sv_wait_healthy S c n)"
    and neutral_paths: "frames db (sv_make_session_paths S sid ticket date s)"
    and neutral_root: "frames db (sv_gen_root_password S)"
begin

lemmas neutral = neutral_tunnel neutral_clone neutral_grants neutral_wait_ready neutral_log
  neutral_up neutral_down neutral_compose neutral_cnf neutral_tls neutral_healthy neutral_paths
  neutral_root

lemma frames_make_cred: "frames db (make_cred E spec)"
  unfolding make_cred_def gen_password_def by (intro frame_intros)

lemma frames_start_private: "frames db (start_private S a pw)"
  unfolding start_private_def by (intro frame_intros neutral)

lemma frames_clone_all: "frames db (clone_all S a pw)"
  unfolding clone_all_def by (intro frame_intros neutral)

lemma frames_publish: "frames db (publish S a pw creds)"
  unfolding publish_def by (intro frame_intros neutral)

lemma frames_cleanup: "frames db (cleanup_failed_create S E paths)"
  unfolding cleanup_failed_create_def by (intro frame_intros neutral)

lemma frames_encrypt: "frames db (encrypt_creds E creds key)"
  unfolding encrypt_creds_def Let_def by (intro frame_intros)

lemma frames_reserve_failed: "frames db (reserve_failed E sid paths e)"
  unfolding reserve_failed_def by (auto split: exn.split intro!: frame_intros)

text \<open>The commit: the row is flipped to \<^verbatim>\<open>ready\<close>, or nothing changes.\<close>

lemma commit_ready_Inr:
  assumes "commit_ready S E a pw creds w = (Inr res, w')"
  obtains blob w1 where "encrypt_creds E (creds_json creds pw) (sv_fernet S) w = (Inr blob, w1)"
    and "\<exists>r \<in> set (db w). s_id r = ca_sid a \<and> s_status r = STATUS_STARTING"
    and "db w' = snd (update_to_ready (ca_sid a) blob (rs_expires_at res) (rs_max_extended_until res) (db w))"
    and "res = create_answer (sv_settings S) a creds"
proof -
  from assms obtain blob w1 where enc: "encrypt_creds E (creds_json creds pw) (sv_fernet S) w = (Inr blob, w1)"
    unfolding commit_ready_def Let_def by (auto simp: bindE_Inr)
  moreover have "db w1 = db w" using enc by (rule framesD[OF frames_encrypt])
  ultimately show thesis
    using assms that[OF enc] unfolding commit_ready_def Let_def
    by (auto simp: bindE_apply store_op_eq store_run thenE_Inr throw_apply ret_apply create_answer_def
        split: if_splits)
qed

lemma commit_ready_Inl:
  assumes "commit_ready S E a pw creds w = (Inl e, w')"
  shows "db w' = db w"
proof -
  obtain x w1 where enc: "encrypt_creds E (creds_json creds pw) (sv_fernet S) w = (x, w1)" by fastforce
  then have w1: "db w1 = db w" by (rule framesD[OF frames_encrypt])
  show ?thesis
  proof (cases x)
    case (Inl e')
    with assms enc w1 show ?thesis unfolding commit_ready_def Let_def by (simp add: bindE_apply)
  next
    case (Inr blob)
    let ?upd = "update_to_ready (ca_sid a) blob
      (ca_created_at a + sandbox_ttl_default_seconds (sv_settings S))
      (ca_created_at a + sandbox_ttl_max_seconds (sv_settings S))"
    let ?lost = "thenE (quietE (sv_down_session S (sp_compose_path (ca_paths a)) (Some True)))
      (throw (CreateSessionError ''internal'' (ca_sid a) ''session row vanished during create'')) ::
      ('x world, create_result) prog"
    define w2 where "w2 = w1\<lparr>db := snd (?upd (db w1))\<rparr>"
    have lost: "\<not> (\<exists>r \<in> set (db w). s_id r = ca_sid a \<and> s_status r = STATUS_STARTING)"
      and w': "?lost w2 = (Inl e, w')"
      using assms enc w1 Inr unfolding commit_ready_def Let_def w2_def
      by (simp_all add: bindE_apply store_op_eq store_run ret_apply split: if_splits)
    have "frames db ?lost" by (intro frame_intros neutral)
    then have "db w' = db w2" using w' by (rule framesD)
    also have "\<dots> = db w" using lost w1 by (simp add: w2_def store_run update_where_none)
    finally show ?thesis .
  qed
qed

text \<open>\<^verbatim>\<open>_do_create\<close>, from the store the reservation left.\<close>

lemma do_create_frames:
  "frames db (map_eachE (make_cred E) specs)" "frames db (sv_gen_root_password S)"
  "frames db (start_private S a pw)" "frames db (clone_all S a pw)"
  "frames db (publish S a pw creds)"
  by (intro frame_intros frames_make_cred neutral frames_start_private frames_clone_all
      frames_publish)+

lemma do_create_Inl: "do_create S E a w = (Inl e, w') \<Longrightarrow> db w' = db w"
  unfolding do_create_def
  by (auto simp: bindE_Inl thenE_Inl dest!: do_create_frames[THEN framesD] commit_ready_Inl)

lemma do_create_Inr:
  assumes "do_create S E a w = (Inr res, w')"
  obtains creds w0 pw w1 where "map_eachE (make_cred E) (ca_dbs a) w = (Inr creds, w0)"
    and "db w1 = db w" and "commit_ready S E a pw creds w1 = (Inr res, w')"
proof -
  from assms obtain creds w0 pw w0' u1 w2 u2 w3 u3 w4 where
    *: "map_eachE (make_cred E) (ca_dbs a) w = (Inr creds, w0)"
      "sv_gen_root_password S w0 = (Inr pw, w0')" "start_private S a pw w0' = (Inr u1, w2)"
      "clone_all S a pw w2 = (Inr u2, w3)" "publish S a pw creds w3 = (Inr u3, w4)"
    and c: "commit_ready S E a pw creds w4 = (Inr res, w')"
    unfolding do_create_def bindE_Inr thenE_Inr by blast
  from * have "db w4 = db w" by (auto dest!: do_create_frames[THEN framesD])
  from that[OF *(1) this c] show thesis .
qed

text \<open>A \<^verbatim>\<open>_do_create\<close> that returns has made the reserved row ready.\<close>

lemma do_create_ready:
  assumes run: "do_create S E a w = (Inr res, w')"
    and row: "db w = rows @ [row]" "s_id row = ca_sid a" "s_status row = STATUS_STARTING"
    and new: "ca_sid a \<notin> s_id ` set rows"
  obtains creds w0 pw w1 blob w2 where "map_eachE (make_cred E) (ca_dbs a) w = (Inr creds, w0)"
    and "encrypt_creds E (creds_json creds pw) (sv_fernet S) w1 = (Inr blob, w2)"
    and "res = create_answer (sv_settings S) a creds"
    and "db w' = rows @ [row\<lparr>s_status := STATUS_READY, s_creds_enc := blob,
           s_expires_at := rs_expires_at res, s_max_extended_until := rs_max_extended_until res\<rparr>]"
proof -
  from run obtain creds w0 pw w1 where creds: "map_eachE (make_cred E) (ca_dbs a) w = (Inr creds, w0)"
    and w1: "db w1 = db w" and commit: "commit_ready S E a pw creds w1 = (Inr res, w')"
    by (rule do_create_Inr)
  have old: "update_where (\<lambda>r. s_id r = ca_sid a \<and> s_status r = STATUS_STARTING) f rows = rows" for f
    using new by (intro update_where_none) (metis imageI)
  from commit show thesis
  proof (rule commit_ready_Inr)
    fix blob w2
    assume enc: "encrypt_creds E (creds_json creds pw) (sv_fernet S) w1 = (Inr blob, w2)"
      and "db w' = snd (update_to_ready (ca_sid a) blob (rs_expires_at res)
             (rs_max_extended_until res) (db w1))"
      and res: "res = create_answer (sv_settings S) a creds"
    with w1 row old have "db w' = rows @ [row\<lparr>s_status := STATUS_READY, s_creds_enc := blob,
        s_expires_at := rs_expires_at res, s_max_extended_until := rs_max_extended_until res\<rparr>]"
      by (simp add: store_run)
    with creds enc res show thesis by (rule that)
  qed
qed

lemma create_failed_run:
  assumes "create_failed S E sid paths e w = (r, w')"
  shows "(\<exists>cat s m. r = Inl (CreateSessionError cat s m))
     \<and> db w' = update_where (\<lambda>r. s_id r = sid) (\<lambda>r. r\<lparr>s_status := STATUS_ERROR\<rparr>) (db w)"
proof -
  obtain x w1 where c: "cleanup_failed_create S E paths w = (x, w1)" by fastforce
  then have w1: "db w1 = db w" by (rule framesD[OF frames_cleanup])
  have "\<exists>u. x = Inr u"
    using c unfolding cleanup_failed_create_def by (auto simp: thenE_apply quietE_apply)
  with assms c w1 show ?thesis
    unfolding create_failed_def
    by (auto simp: thenE_apply quietE_apply store_op_eq store_run throw_apply
        split: prod.splits exn.splits)
qed

lemma reserve_failed_run:
  assumes "reserve_failed E sid paths e w = (r, w')"
  shows "(\<exists>e'. r = Inl e') \<and> db w' = db w"
proof -
  have "db w' = db w" using assms by (rule framesD[OF frames_reserve_failed])
  moreover have "\<exists>e'. r = Inl e'"
    using assms unfolding reserve_failed_def
    by (auto simp: thenE_apply throw_apply rmtree_def quietE_apply split: exn.splits)
  ultimately show ?thesis by simp
qed

lemma reserve_first_row:
  assumes "reserve_session (placeholder s sid t d dbs paths now) alloc rows = (Inr row, rows')"
  obtains port where "alloc (used_ports rows) = Inr port" and "sid \<notin> s_id ` set rows"
    and "rows' = rows @ [first_row s sid t d dbs paths now port]"
    and "d_port row = Some port" and "d_container_name row = Some (''sandbox-'' @ sid)"
  using assms unfolding reserve_Inr
  by (auto simp: first_row_def[symmetric]) (auto simp: placeholder_def)

text \<open>Either nothing was reserved, or \<^verbatim>\<open>_do_create\<close> runs, under its handler, on a store with the new row.\<close>

lemma create_session_reserved:
  assumes run: "create_session S E ticket dbs w = (r, w')"
  obtains (unreserved) e where "r = Inl e" and "db w' = db w"
  | (reserved) sid date paths now port w1 where "sid \<notin> s_id ` set (db w)"
      and "sv_allocate_port S (used_ports (db w)) (sv_settings S) = Inr port"
      and "db w1 = db w @ [first_row (sv_settings S) sid ticket date dbs paths now port]"
      and "catchE (do_create S E \<lparr>ca_sid = sid, ca_dbs = dbs, ca_paths = paths, ca_host_port = port,
             ca_container_name = ''sandbox-'' @ sid, ca_created_at = now\<rparr>)
           (create_failed S E sid paths) w1 = (r, w')"
proof -
  let ?s = "sv_settings S"
  let ?res = "\<lambda>sid now date paths. store_op (reserve_session (placeholder ?s sid ticket date dbs paths now)
     (\<lambda>used. sv_allocate_port S used ?s))"
  obtain sid w1 where sid: "os_draw (e_uuid E) w = (Inr sid, w1)"
    by (cases "e_uuid E (os w)") (auto simp: os_draw_def)
  have w1: "db w1 = db w" using sid by (rule framesD[OF frames_db_prims(3)])
  obtain now date where now: "now_s E w1 = (Inr now, w1)"
    and date: "os_read (\<lambda>x. Inr (e_date E x)) w1 = (Inr date, w1)"
    by (simp add: now_s_def os_read_def)
  obtain p w2 where paths: "sv_make_session_paths S sid ticket date ?s w1 = (p, w2)" by fastforce
  have w2: "db w2 = db w" using framesD[OF neutral_paths paths] w1 by simp
  show thesis
  proof (cases p)
    case (Inl e)
    with run sid now date paths w2 show ?thesis
      by (auto simp: create_session_def bindE_apply intro: unreserved)
  next
    case (Inr paths')
    obtain x w3 where res: "?res sid now date paths' w2 = (x, w3)" by fastforce
    show ?thesis
    proof (cases x)
      case (Inl e)
      then have w3: "db w3 = db w2"
        using res by (auto simp: store_op_def split: prod.splits dest: reserve_Inl)
      obtain y w4 where h: "reserve_failed E sid paths' e w3 = (y :: exn + draft, w4)" by fastforce
      from reserve_failed_run[OF h] obtain e' where "y = Inl e'" and "db w4 = db w" using w3 w2 by auto
      with run sid now date paths Inr res Inl h show ?thesis
        by (auto simp: create_session_def bindE_apply catchE_apply intro: unreserved)
    next
      case row: (Inr row)
      then have "reserve_session (placeholder ?s sid ticket date dbs paths' now)
          (\<lambda>used. sv_allocate_port S used ?s) (db w2) = (Inr row, db w3)"
        using res by (auto simp: store_op_def split: prod.splits)
      then obtain port where *: "sv_allocate_port S (used_ports (db w2)) ?s = Inr port"
        "sid \<notin> s_id ` set (db w2)"
        "db w3 = db w2 @ [first_row ?s sid ticket date dbs paths' now port]"
        "d_port row = Some port" "d_container_name row = Some (''sandbox-'' @ sid)"
        by (rule reserve_first_row)
      with run sid now date paths Inr res row w2 show ?thesis
        by (intro reserved[of sid port w3 date paths' now])
          (simp_all add: create_session_def bindE_apply catchE_apply)
    qed
  qed
qed

text \<open>The three ways \<^verbatim>\<open>create\<close> ends: before the row exists, with the row in error, ready.\<close>

lemma create_session_cases:
  assumes run: "create_session S E ticket dbs w = (r, w')"
  obtains (unreserved) e where "r = Inl e" and "db w' = db w"
  | (failed) cat m sid' sid date paths now port where "r = Inl (CreateSessionError cat sid' m)"
      and "sid \<notin> s_id ` set (db w)"
      and "sv_allocate_port S (used_ports (db w)) (sv_settings S) = Inr port"
      and "db w' = db w @ [(first_row (sv_settings S) sid ticket date dbs paths now port)
             \<lparr>s_status := STATUS_ERROR\<rparr>]"
  | (created) res creds w0 w0' pw blob w1 w2 date paths now where "r = Inr res"
      and "rs_session_id res \<notin> s_id ` set (db w)"
      and "sv_allocate_port S (used_ports (db w)) (sv_settings S) = Inr (rs_mysql_port res)"
      and "map_eachE (make_cred E) dbs w0 = (Inr creds, w0')"
      and "encrypt_creds E (creds_json creds pw) (sv_fernet S) w1 = (Inr blob, w2)"
      and "rs_expires_at res = now + sandbox_ttl_default_seconds (sv_settings S)"
      and "rs_max_extended_until res = now + sandbox_ttl_max_seconds (sv_settings S)"
      and "rs_databases res = map info_of creds"
      and "db w' = db w @ [(first_row (sv_settings S) (rs_session_id res) ticket date dbs paths now
             (rs_mysql_port res))\<lparr>s_status := STATUS_READY, s_creds_enc := blob,
              s_expires_at := rs_expires_at res,
              s_max_extended_until := rs_max_extended_until res\<rparr>]"
      and "rs_api_host res = sandbox_public_host (sv_settings S)"
      and "rs_mysql_host res = sandbox_mysql_host (sv_settings S)"
      and "rs_ca_url res = ca_url (rs_api_host res) (rs_session_id res)"
  using run
proof (cases rule: create_session_reserved)
  case (unreserved e)
  then show thesis by (rule that(1))
next
  case (reserved sid date paths now port w1)
  define a where "a = \<lparr>ca_sid = sid, ca_dbs = dbs, ca_paths = paths, ca_host_port = port,
    ca_container_name = ''sandbox-'' @ sid, ca_created_at = now\<rparr>"
  note r = reserved(4)[folded a_def]
  have old: "update_where (\<lambda>r. s_id r = sid \<and> P r) f (db w) = db w" for P f
    using reserved(1) by (intro update_where_none) auto
  obtain z w2 where do_run: "do_create S E a w1 = (z, w2)" by fastforce
  show thesis
  proof (cases z)
    case (Inl e)
    with do_run have w2: "db w2 = db w1" by (auto dest: do_create_Inl)
    from r do_run Inl have "create_failed S E sid paths e w2 = (r, w')" by (simp add: catchE_apply)
    from create_failed_run[OF this] obtain c s m where "r = Inl (CreateSessionError c s m)"
      and "db w' = update_where (\<lambda>r. s_id r = sid) (\<lambda>r. r\<lparr>s_status := STATUS_ERROR\<rparr>) (db w1)"
      using w2 by auto
    then show thesis
      using that(2)[of c s m sid port date paths now] reserved old[of "\<lambda>_. True"] by simp
  next
    case (Inr res)
    with r do_run have r': "r = Inr res" "w2 = w'" by (simp_all add: catchE_apply)
    with do_run Inr have "do_create S E a w1 = (Inr res, w')" by simp
    then show thesis
    proof (rule do_create_ready)
      show "db w1 = db w @ [first_row (sv_settings S) sid ticket date dbs paths now port]"
        by (rule reserved)
    next
      fix creds w0 pw w1' blob w2'
      assume "map_eachE (make_cred E) (ca_dbs a) w1 = (Inr creds, w0)"
        and "encrypt_creds E (creds_json creds pw) (sv_fernet S) w1' = (Inr blob, w2')"
        and "res = create_answer (sv_settings S) a creds"
        and "db w' = db w @ [(first_row (sv_settings S) sid ticket date dbs paths now port)
          \<lparr>s_status := STATUS_READY, s_creds_enc := blob, s_expires_at := rs_expires_at res,
           s_max_extended_until := rs_max_extended_until res\<rparr>]"
      with r' reserved show thesis
        using that(3)[of res w1 creds w0 pw w1' blob w2' now date paths]
        by (simp add: a_def create_answer_def)
    qed (use reserved in \<open>simp_all add: a_def\<close>)
  qed
qed

end

interpretation real: store_neutral "real_service E X s fernet" for E X s fernet
  by unfold_locales (auto simp: real_service_def intro!: frame_intros)

end
