(* ===== verification/Progress.thy ===== *)
theory Progress
  imports Service
begin

text \<open>
  When the surroundings cooperate, the service does its work: every operation of the session
  service returns if the commands it runs succeed, the files can be written, the forward comes up
  and the container reports healthy. The theory also holds the sample environment on which the
  theorems of the development are tried.
\<close>

section \<open>Cooperative surroundings\<close>

definition ok_call :: "('x \<Rightarrow> (exn + 'a) \<times> nat \<times> 'x) \<Rightarrow> bool" where
  "ok_call f \<longleftrightarrow> (\<forall>x. \<exists>a. fst (f x) = Inr a)"

definition healthy_cmd :: "proc \<Rightarrow> bool" where
  "healthy_cmd p \<longleftrightarrow> take 3 (p_argv p) = [''docker'', ''inspect'', ''--format'']
     \<and> length (p_argv p) = 5"

definition inspect_cmd :: "proc \<Rightarrow> bool" where
  "inspect_cmd p \<longleftrightarrow> take 2 (p_argv p) = [''docker'', ''inspect''] \<and> length (p_argv p) = 3"

text \<open>What docker has to report for \<^const>\<open>wait_healthy\<close> to return.\<close>

definition good_run :: "proc \<Rightarrow> completed \<Rightarrow> bool" where
  "good_run p c \<longleftrightarrow> c_returncode c = 0
     \<and> (healthy_cmd p \<longrightarrow> strip (c_stdout c) = ''healthy'')
     \<and> (inspect_cmd p \<longrightarrow> (\<exists>port. port \<noteq> 0 \<and> published_port (c_stdout c) = Some port))"

definition cooperative :: "'x env \<Rightarrow> bool" where
  "cooperative E \<longleftrightarrow>
     (\<forall>p x. \<exists>c. fst (e_run E p x) = Inr c \<and> good_run p c)
     \<and> (\<forall>p q x. \<exists>r. fst (e_pipe E p q x) = Inr r \<and> first_rc r = 0 \<and> second_rc r = 0)
     \<and> (\<forall>argv. ok_call (e_spawn E argv)) \<and> (\<forall>pid x. e_poll E pid x = None)
     \<and> (\<forall>h p x. fst (e_connect E h p x) = Inr True) \<and> ok_call (e_free_port E)
     \<and> (\<forall>p. ok_call (e_open E p)) \<and> (\<forall>p. ok_call (e_mkdir E p)) \<and> (\<forall>p b. ok_call (e_write E p b))
     \<and> (\<forall>p m. ok_call (e_chmod E p m)) \<and> (\<forall>p x. e_exists E p x = Inr True)
     \<and> (\<forall>n x. truthy (e_which E n x))"

lemma ex_true [simp]: "\<exists>b. b"
  by (rule exI[of _ True]) simp

lemma yields_os_call: "(\<And>x. \<exists>a. fst (f x) = Inr a \<and> Q a) \<Longrightarrow> yields (os_call ev f) Q"
  unfolding yields_def os_call_def
  by (metis (no_types, lifting) case_prod_unfold)

lemma yields_os_draw [yields_intros]: "yields (os_draw f) (\<lambda>_. True)"
  by (auto simp: yields_def os_draw_def split: prod.split)

section \<open>The operations under cooperation\<close>

lemma yields_os_call_ok: "ok_call f \<Longrightarrow> yields (os_call ev f) (\<lambda>_. True)"
  by (rule yields_os_call) (simp add: ok_call_def)

lemma yields_run: "cooperative E \<Longrightarrow> yields (run_proc E p) (good_run p)"
  unfolding run_proc_def by (rule yields_os_call) (simp add: cooperative_def)

lemma yields_connect: "cooperative E \<Longrightarrow> yields (tcp_connect E h port) (\<lambda>ok. ok)"
  unfolding tcp_connect_def
  by (rule yields_os_call) (simp add: cooperative_def)

lemma yields_files:
  assumes "cooperative E"
  shows "yields (mkdir E q) (\<lambda>_. True)" and "yields (write_file E q b) (\<lambda>_. True)"
    and "yields (write_text E q t) (\<lambda>_. True)" and "yields (chmod E q m) (\<lambda>_. True)"
  unfolding mkdir_def write_file_def write_text_def chmod_def
  using assms by (simp_all add: cooperative_def yields_os_call_ok)

lemma yields_exists: "cooperative E \<Longrightarrow> yields (path_exists E q) (\<lambda>ok. ok)"
  unfolding yields_def path_exists_def os_read_def
  by (intro allI exI[of _ True]) (simp add: cooperative_def)

lemma yields_now [yields_intros]: "yields (now_s E) (\<lambda>_. True)"
  by (simp add: yields_def now_s_def os_read_def)

lemma yields_resolve:
  assumes "cooperative E"
  shows "yields (resolve_binary E name) (\<lambda>_. True)"
  using assms unfolding resolve_binary_def cooperative_def
  by (intro yields_bindE[where R = truthy] yields_getsW) (auto intro: yields_ret)

lemma yields_run_mysql:
  assumes "cooperative E" and "take 2 cmd \<noteq> [''docker'', ''inspect'']"
  shows "yields (run_mysql E cmd pw inp t) (\<lambda>c. c_returncode c = 0)"
  unfolding run_mysql_def
  by (intro yields_bindE[where R = "\<lambda>_. True"] yields_getsW TrueI
      yields_weaken[OF yields_run[OF assms(1)]]) (simp add: good_run_def)

lemma yields_pipe:
  assumes "cooperative E"
  shows "yields (os_call ev (e_pipe E p q)) (\<lambda>r. first_rc r = 0 \<and> second_rc r = 0)"
  using assms by (intro yields_os_call) (simp add: cooperative_def)

lemma yields_mysql:
  assumes "cooperative E"
  shows "yields (ensure_database E tg d) (\<lambda>_. True)"
    and "yields (apply_grants E tg sqls) (\<lambda>_. True)"
  unfolding ensure_database_def apply_grants_def Let_def
  by (intro yields_bindE[OF yields_resolve[OF assms]] yields_bindE[OF yields_run_mysql[OF assms]];
      auto intro: yields_ret simp: connect_args_def)+

text \<open>The clone and the tunnel.\<close>

lemma yields_clone:
  assumes "cooperative E"
  shows "yields (clone_db E t sd su sp tg td h ts xs timeout) (\<lambda>_. True)"
  unfolding clone_db_def mysqldump_cmd_def mysql_restore_cmd_def Let_def
  by (intro yields_thenE[OF yields_mysql(1)[OF assms]] yields_bindE[OF yields_resolve[OF assms]]
      yields_bindE[where R = "\<lambda>_. True"] yields_getsW yields_ret TrueI
      yields_bindE[OF yields_catchE[OF yields_pipe[OF assms]]])
    (auto simp: clone_failures_def intro: yields_ret)

lemma wait_listening_ok:
  assumes "cooperative E" and "0 < ms"
  shows "yields (wait_listening E h p ms) (\<lambda>up. up)"
  unfolding yields_def
proof
  fix w
  obtain a w1 where "tcp_connect E h p w = (Inr a, w1)" using yieldsD[OF yields_connect[OF assms(1)]] by blast
  then show "\<exists>a w'. wait_listening E h p ms w = (Inr a, w') \<and> a"
    using assms(2) by (simp add: wait_listening_def wait_listening_loop.simps[of E h p _ w])
qed

lemma yields_known_hosts: "cooperative E \<Longrightarrow> yields (known_hosts_file E u) (\<lambda>_. True)"
  unfolding known_hosts_file_def Let_def
  by (intro yields_bindE[where R = "\<lambda>_. True"] yields_getsW TrueI yields_bindE[OF yields_exists])
    (auto intro: yields_ret)

lemma yields_start_tunnel:
  assumes "cooperative E"
  shows "yields (start_tunnel E a) (\<lambda>_. True)"
proof -
  have poll: "yields (getsW (\<lambda>w. e_poll E pid (os w))) (\<lambda>rc. rc = None)" for pid
    using assms by (intro yields_getsW) (simp add: cooperative_def)
  have ok: "ok_call (e_free_port E)" "ok_call (e_open E q)" "ok_call (e_spawn E cmd)" for q cmd
    using assms by (simp_all add: cooperative_def)
  show ?thesis
    unfolding start_tunnel_def pick_local_port_def Let_def
    by (intro yields_bindE[OF yields_exists[OF assms]])
      (auto intro!: yields_bindE[OF yields_os_call_ok[OF ok(1)]]
        yields_bindE[OF yields_known_hosts[OF assms]] yields_thenE[OF yields_files(1)[OF assms]]
        yields_thenE[OF yields_os_call_ok[OF ok(2)]] yields_bindE[OF yields_os_call_ok[OF ok(3)]]
        yields_bindE[OF wait_listening_ok[OF assms]] yields_bindE[OF poll] yields_ret)
qed

lemma yields_close_tunnel: "cooperative E \<Longrightarrow> yields (close_tunnel E t) (\<lambda>_. True)"
  unfolding close_tunnel_def
  by (intro yields_bindE[where R = "\<lambda>_. True"] yields_getsW TrueI)
    (auto intro: yields_ret yields_quietE)

lemma yields_open_tunnel:
  "cooperative E \<Longrightarrow> (\<And>t. yields (body t) Q) \<Longrightarrow> yields (open_tunnel E a body) Q"
  unfolding open_tunnel_def
  by (intro yields_bindE[OF yields_start_tunnel] yields_finallyE[OF _ yields_close_tunnel])

text \<open>Waiting for the server.\<close>

lemma yields_wait_ready:
  assumes "cooperative E" and "0 < timeout"
  shows "yields (wait_ready E t timeout) (\<lambda>_. True)"
  unfolding wait_ready_def
proof (intro yields_bindE[OF yields_resolve[OF assms(1)]])
  fix mysqladmin
  let ?cmd = "mysqladmin # ''ping'' # connect_args t"
  show "yields (\<lambda>w. wait_ready_loop E ?cmd t timeout (nat (int (clock w) + 1000 * timeout)) ''no attempt yet'' w) (\<lambda>_. True)"
    unfolding yields_def
  proof
    fix w
    obtain c w1 where "run_mysql E ?cmd (tg_password t) None 5 w = (Inr c, w1)" "c_returncode c = 0"
      using yieldsD[OF yields_run_mysql[OF assms(1)], of ?cmd "tg_password t" None 5 w] by auto
    then show "\<exists>a w'. wait_ready_loop E ?cmd t timeout (nat (int (clock w) + 1000 * timeout)) ''no attempt yet'' w
        = (Inr a, w') \<and> True"
      using assms(2) by (simp add: wait_ready_loop.simps[of _ _ _ _ _ _ w])
  qed
qed

lemma yields_port_answers:
  "cooperative E \<Longrightarrow> port \<noteq> 0 \<Longrightarrow> yields (port_answers E (Some port)) (\<lambda>ok. ok)"
  by (simp add: port_answers_def tcp_open_def yields_catchE yields_connect)

lemma yields_published:
  assumes "cooperative E"
  shows "yields (read_published_port E c) (\<lambda>p. \<exists>port. port \<noteq> 0 \<and> p = Some port)"
  unfolding read_published_port_def
  by (intro yields_bindE[OF yields_run[OF assms]])
    (auto simp: good_run_def inspect_cmd_def intro!: yields_ret)

lemma yields_healthy_turn:
  assumes "cooperative E"
  shows "yields (healthy_turn E c st) (\<lambda>t. t = Inl ())"
proof -
  have "yields (healthy_probe E c st) (\<lambda>p. p = Inl ())"
    unfolding healthy_probe_def Let_def
    by (intro yields_bindE[OF yields_run[OF assms]])
      (auto simp: good_run_def healthy_cmd_def
        intro!: yields_bindE[OF yields_published[OF assms]] yields_bindE[OF yields_port_answers[OF assms]] yields_ret)
  then show ?thesis
    unfolding healthy_turn_def by (rule yields_bindE) (auto intro: yields_ret)
qed

lemma yields_wait_healthy:
  assumes "cooperative E" and "0 < timeout"
  shows "yields (wait_healthy E c timeout) (\<lambda>_. True)"
  unfolding yields_def
proof
  fix w
  obtain w1 where "healthy_turn E c ''unknown'' w = (Inr (Inl ()), w1)"
    using yieldsD[OF yields_healthy_turn[OF assms(1)], of c "''unknown''" w] by auto
  then show "\<exists>a w'. wait_healthy E c timeout w = (Inr a, w') \<and> True"
    using assms(2) by (simp add: wait_healthy_def wait_healthy_loop.simps[of _ _ _ _ _ _ w])
qed

section \<open>Creating a session under cooperation\<close>

lemma yields_draws: "yields (map_eachE (make_cred E) specs) (\<lambda>_. True)"
  and yields_root: "yields (gen_root_password E) (\<lambda>_. True)"
proof -
  have "yields (make_cred E spec) (\<lambda>_. True)" for spec
    unfolding make_cred_def gen_password_def
    by (intro yields_bindE[where R = "\<lambda>_. True"] yields_os_draw yields_ret TrueI)
  then show "yields (map_eachE (make_cred E) specs) (\<lambda>_. True)"
    by (intro yields_weaken[OF yields_map_eachE[where Q = "\<lambda>_ _. True"]] TrueI)
  show "yields (gen_root_password E) (\<lambda>_. True)"
    unfolding gen_root_password_def
    by (intro yields_weaken[OF yields_map_eachE[where Q = "\<lambda>_ _. True"]]
        yields_bindE[where R = "\<lambda>_. True"] yields_os_draw yields_ret TrueI)
qed

lemma yields_tls:
  assumes "cooperative E"
  shows "yields (generate_session_tls E X sid dir c ip) (\<lambda>_. True)"
proof -
  note F = yields_files[OF assms]
  have "yields (write_cert E X d n k) (\<lambda>_. True)" for d n k
    unfolding write_cert_def Let_def by (intro yields_thenE[OF F(1)] yields_thenE[OF F(2)] F(4) F(2) F(1))
  moreover have "yields (write_key E X d n k) (\<lambda>_. True)" for d n k
    unfolding write_key_def Let_def by (intro yields_thenE[OF F(1)] yields_thenE[OF F(2)] F(4))
  moreover have "yields (build_ca E X cn) (\<lambda>_. True)" for cn
    unfolding build_ca_def
    by (intro yields_bindE[where R = "\<lambda>_. True"] yields_os_draw yields_now yields_ret TrueI)
  moreover have "yields (sign_leaf E X ca k cn dns ips b) (\<lambda>_. True)" for ca k cn dns ips b
    unfolding sign_leaf_def
    by (intro yields_bindE[where R = "\<lambda>_. True"] yields_os_draw yields_now yields_ret TrueI)
  ultimately show ?thesis
    unfolding generate_session_tls_def
    by (auto split: prod.split intro!: yields_thenE[where R = "\<lambda>_. True"]
        yields_bindE[where R = "\<lambda>_. True"] yields_ret F(1))
qed

lemma yields_docker:
  assumes "cooperative E"
  shows "yields (make_session_paths E sid ticket date s) (\<lambda>_. True)"
    and "yields (render_compose E paths sid c img bind port pw) (\<lambda>_. True)"
    and "yields (render_mysqld_cnf E paths) (\<lambda>_. True)"
    and "yields (up_session E path t) (\<lambda>_. True)"
    and "yields (down_session E path v t) (\<lambda>_. True)"
  unfolding make_session_paths_def render_compose_def render_mysqld_cnf_def up_session_def
    down_session_def compose_def Let_def
  by (auto intro!: yields_thenE[where R = "\<lambda>_. True"] yields_ret yields_files[OF assms]
      yields_bindE[OF yields_run[OF assms]] simp: good_run_def)

lemma yields_phases:
  assumes "cooperative E" and S: "S = real_service E X s fernet"
  shows "yields (start_private S a pw) (\<lambda>_. True)" and "yields (clone_all S a pw) (\<lambda>_. True)"
    and "yields (publish S a pw creds) (\<lambda>_. True)"
  unfolding start_private_def clone_all_def publish_def S
  by (auto simp: real_service_def intro!: yields_thenE[where R = "\<lambda>_. True"]
      yields_bindE[where R = "\<lambda>_. True"] yields_docker yields_tls yields_wait_healthy
      yields_wait_ready yields_open_tunnel yields_for_eachE yields_clone yields_mysql(2)
      yields_quietE assms(1))

lemma commit_ready_returns:
  assumes "\<exists>r \<in> set (db w). s_id r = ca_sid a \<and> s_status r = STATUS_STARTING"
  shows "\<exists>res w'. commit_ready S E a pw creds w = (Inr res, w')"
proof -
  obtain blob w1 where enc: "encrypt_creds E (creds_json creds pw) (sv_fernet S) w = (Inr blob, w1)"
    unfolding encrypt_creds_def Let_def
    by (cases "e_encrypt E (sv_fernet S) (utf8_encode (dumps_compact (creds_json creds pw))) (os w)")
      (auto simp: os_draw_def)
  then have "db w1 = db w"
    by (auto simp: encrypt_creds_def Let_def dest: framesD[OF frames_db_prims(3)])
  with enc assms show ?thesis
    by (auto simp: commit_ready_def Let_def bindE_apply store_op_eq store_run ret_apply)
qed

lemma do_create_returns:
  assumes "cooperative E" and "\<exists>r \<in> set (db w). s_id r = ca_sid a \<and> s_status r = STATUS_STARTING"
  shows "\<exists>res w'. do_create (real_service E X s fernet) E a w = (Inr res, w')"
proof -
  let ?S = "real_service E X s fernet"
  note D = yieldsD[OF yields_draws] yieldsD[OF yields_root]
  obtain creds w1 where 1: "map_eachE (make_cred E) (ca_dbs a) w = (Inr creds, w1)" using D(1)[of E _ w] by blast
  obtain pw w2 where 2: "sv_gen_root_password ?S w1 = (Inr pw, w2)"
    using D(2)[of E w1] by (auto simp: real_service_def)
  note P = yields_phases[OF assms(1) refl, THEN yieldsD]
  obtain u3 w3 where 3: "start_private ?S a pw w2 = (Inr u3, w3)" using P(1) by blast
  obtain u4 w4 where 4: "clone_all ?S a pw w3 = (Inr u4, w4)" using P(2) by blast
  obtain u5 w5 where 5: "publish ?S a pw creds w4 = (Inr u5, w5)" using P(3) by blast
  have "db w5 = db w"
    using 1 2 3 4 5 by (auto dest!: real.do_create_frames[THEN framesD])
  then obtain res w' where "commit_ready ?S E a pw creds w5 = (Inr res, w')"
    using commit_ready_returns assms(2) by metis
  with 1 2 3 4 5 show ?thesis by (simp add: do_create_def bindE_apply thenE_apply)
qed

text \<open>The reservation succeeds when the directories can be made and a port is free.\<close>

lemma create_session_reserves:
  assumes paths_ok: "\<And>sid date. yields (make_session_paths E sid ticket date s) (\<lambda>_. True)"
    and fresh: "fst (e_uuid E (os w)) \<notin> s_id ` set (db w)"
    and port: "p \<in> set (port_range s)" "p \<notin> used_ports (db w)"
  obtains a sid row w3 where "create_session (real_service E X s fernet) E ticket dbs w
      = catchE (do_create (real_service E X s fernet) E a)
          (create_failed (real_service E X s fernet) E sid (ca_paths a)) w3"
    and "db w3 = db w @ [row]" and "s_id row = sid" and "s_status row = STATUS_STARTING"
    and "ca_sid a = sid" and "ca_dbs a = dbs"
proof -
  let ?S = "real_service E X s fernet"
  obtain sid x1 where uuid: "e_uuid E (os w) = (sid, x1)" by fastforce
  define w1 where "w1 = w\<lparr>os := x1\<rparr>"
  have sid: "os_draw (e_uuid E) w = (Inr sid, w1)" by (simp add: os_draw_def uuid w1_def)
  obtain now date where now: "now_s E w1 = (Inr now, w1)"
    and date: "os_read (\<lambda>x. Inr (e_date E x)) w1 = (Inr date, w1)"
    by (simp add: now_s_def os_read_def)
  obtain paths w2 where paths: "make_session_paths E sid ticket date s w1 = (Inr paths, w2)"
    using yieldsD[OF paths_ok] by blast
  have w2: "db w2 = db w" using framesD[OF frames_db_docker(1) paths] by (simp add: w1_def)
  obtain q where q: "allocate_port (used_ports (db w2)) s = Inr q"
    using docker_ports.reserve_free_port[of p s "db w2"] port w2 by auto
  let ?row = "first_row s sid ticket date dbs paths now q"
  define w3 where "w3 = w2\<lparr>db := db w2 @ [?row]\<rparr>"
  have "reserve_session (placeholder s sid ticket date dbs paths now) (\<lambda>used. allocate_port used s) (db w2)
      = (Inr (placeholder s sid ticket date dbs paths now q), db w2 @ [?row])"
    unfolding reserve_Inr using q fresh uuid w2 by (auto simp: placeholder_ok first_row_def[symmetric])
  then have res: "store_op (reserve_session (placeholder s sid ticket date dbs paths now)
      (\<lambda>used. allocate_port used s)) w2 = (Inr (placeholder s sid ticket date dbs paths now q), w3)"
    by (simp add: store_op_eq w3_def)
  define a where "a = \<lparr>ca_sid = sid, ca_dbs = dbs, ca_paths = paths, ca_host_port = q,
      ca_container_name = ''sandbox-'' @ sid, ca_created_at = now\<rparr>"
  have "sv_make_session_paths ?S = make_session_paths E" "sv_settings ?S = s"
    "sv_allocate_port ?S = allocate_port"
    by (simp_all add: real_service_def)
  moreover have "the (d_port (placeholder s sid ticket date dbs paths now q)) = q"
    "the (d_container_name (placeholder s sid ticket date dbs paths now q)) = ''sandbox-'' @ sid"
    by (simp_all add: placeholder_def)
  ultimately have "create_session ?S E ticket dbs w
      = catchE (do_create ?S E a) (create_failed ?S E sid (ca_paths a)) w3"
    by (simp add: create_session_def bindE_apply catchE_apply sid now date paths res a_def)
  then show thesis
    by (rule that[where row = ?row]) (simp_all add: w3_def w2 a_def)
qed

lemma create_session_returns:
  assumes coop: "cooperative E" and "fst (e_uuid E (os w)) \<notin> s_id ` set (db w)"
    and "p \<in> set (port_range s)" "p \<notin> used_ports (db w)"
  shows "\<exists>res w'. create_session (real_service E X s fernet) E ticket dbs w = (Inr res, w')"
proof -
  from create_session_reserves[OF yields_docker(1)[OF coop] assms(2-4)]
  obtain a sid row w3 where run: "create_session (real_service E X s fernet) E ticket dbs w
      = catchE (do_create (real_service E X s fernet) E a)
          (create_failed (real_service E X s fernet) E sid (ca_paths a)) w3"
    and "db w3 = db w @ [row]" "s_id row = sid" "s_status row = STATUS_STARTING" "ca_sid a = sid"
    by metis
  then have "\<exists>r \<in> set (db w3). s_id r = ca_sid a \<and> s_status r = STATUS_STARTING" by auto
  from do_create_returns[OF coop this, of X s fernet]
  obtain res w' where "do_create (real_service E X s fernet) E a w3 = (Inr res, w')" by blast
  with run show ?thesis by (simp add: catchE_apply)
qed

section \<open>A sample environment\<close>

text \<open>
  Everything succeeds, at once; a Fernet token is the plain text behind its version byte, the keys
  are checked for nothing. The theorems about the service are tried on it.
\<close>

definition sample_inspect :: string where
  "sample_inspect = dumps (JArr [JObj [(''NetworkSettings'', JObj [(''Ports'',
     JObj [(''3306/tcp'', JArr [JObj [(''HostPort'', JStr ''7'')]])])])]])"

definition sample_run :: "proc \<Rightarrow> completed" where
  "sample_run p = \<lparr>c_returncode = 0,
     c_stdout = (if length (p_argv p) = 3 then sample_inspect else ''healthy''), c_stderr = []\<rparr>"

definition sample_env :: "unit env" where
  "sample_env =
     \<lparr>e_run = (\<lambda>p x. (Inr (sample_run p), 10, x)),
      e_pipe = (\<lambda>p q x. (Inr \<lparr>first_rc = 0, first_err = [], second_rc = 0, second_err = []\<rparr>, 10, x)),
      e_spawn = (\<lambda>argv x. (Inr 7, 1, x)), e_poll = (\<lambda>pid x. None),
      e_terminate = (\<lambda>pid x. (Inr (), 0, x)), e_wait = (\<lambda>pid t x. (Inr 0, 0, x)),
      e_kill = (\<lambda>pid x. (Inr (), 0, x)), e_connect = (\<lambda>h p x. (Inr True, 1, x)),
      e_free_port = (\<lambda>x. (Inr 40000, 0, x)), e_open = (\<lambda>p x. (Inr (), 0, x)),
      e_mkdir = (\<lambda>p x. (Inr (), 0, x)), e_write = (\<lambda>p b x. (Inr (), 0, x)),
      e_chmod = (\<lambda>p m x. (Inr (), 0, x)), e_rmtree = (\<lambda>p x. (Inr (), 0, x)),
      e_read = (\<lambda>p x. Inr [42]), e_exists = (\<lambda>p x. Inr True),
      e_which = (\<lambda>n x. Some (''/usr/bin/'' @ n)), e_environ = (\<lambda>k x. None),
      e_time = (\<lambda>x. 1000), e_date = (\<lambda>x. ''2024-01-01''), e_uuid = (\<lambda>x. (''11111111'', x)),
      e_random = (\<lambda>n x. (replicate n 0, x)), e_randbelow = (\<lambda>n x. (0, x)),
      e_encrypt = (\<lambda>key b x. (128 # b, x)),
      e_decrypt = (\<lambda>key b. case b of [] \<Rightarrow> None | c # cs \<Rightarrow> if c = 128 then Some cs else None),
      e_key_ok = (\<lambda>key. True)\<rparr>"

definition sample_x509 :: "unit x509" where
  "sample_x509 = \<lparr>x_new_key = (\<lambda>x. (1, x)), x_serial = (\<lambda>x. (1, x)), x_key_pem = (\<lambda>k. [1]),
     x_cert_pem = (\<lambda>c. [2])\<rparr>"

definition sample_settings :: settings where
  "sample_settings =
     \<lparr>sandbox_api_key = ''key'', sandbox_webhook_secret = ''secret'', sandbox_cf_access_aud = None,
      sandbox_cf_access_certs_url = None, sandbox_fernet_key = ''fernet'', sandbox_state_db = ''/s/state.db'',
      sandbox_compose_dir = ''/c'', sandbox_tls_dir = ''/t'', sandbox_log_dir = ''/l'',
      sandbox_public_host = ''api.example'', sandbox_mysql_host = ''10.0.0.1'',
      sandbox_port_range_start = 33060, sandbox_port_range_end = 33999,
      sandbox_tunnel_bind_host = ''127.0.0.1'', sandbox_working_dir = ''/w'',
      prod_ssh_host = ''bastion'', prod_ssh_user = ''ssh'', prod_ssh_key = ''/k'', prod_ssh_port = 22,
      prod_mysql_host = ''prod'', prod_mysql_port = 3306, prod_mysql_user = ''ro'',
      prod_mysql_password = ''pw'', sandbox_mysql_image = ''mysql:8'',
      sandbox_ttl_min_seconds = 14400, sandbox_ttl_default_seconds = 21600,
      sandbox_ttl_max_seconds = 43200, sandbox_ttl_reset_add_seconds = 14400,
      sandbox_reaper_interval_seconds = 60, sandbox_test_mode = False\<rparr>"

definition sample_world :: "store \<Rightarrow> unit world" where
  "sample_world rows = \<lparr>db = rows, os = (), clock = 0, trace = []\<rparr>"

definition sample_service :: "unit service" where
  "sample_service = real_service sample_env sample_x509 sample_settings ''fernet''"

lemma sample_build: "build_service sample_env sample_x509 sample_settings = Inr sample_service"
  by (simp add: build_service_def fernet_from_key_def sample_env_def sample_settings_def sample_service_def)

lemma sample_published: "published_port sample_inspect = Some 7"
  by code_simp

lemma sample_healthy: "strip ''healthy'' = ''healthy''"
  by code_simp

lemma sample_cooperative: "cooperative sample_env"
  by (auto simp: cooperative_def sample_env_def ok_call_def good_run_def sample_run_def truthy_def
      healthy_cmd_def inspect_cmd_def sample_healthy sample_published)

lemma sample_fernet: "fernet_roundtrip sample_env key" "rejects_placeholder sample_env key"
  by (simp_all add: fernet_roundtrip_def rejects_placeholder_def sample_env_def placeholder_creds_def)

end
