(* ===== verification/Guarantees.thy ===== *)
theory Guarantees
  imports Progress
begin

text \<open>
  What the session service guarantees: the outcomes of \<^verbatim>\<open>create\<close> and the clean-up behind a
  failure, the single extension of a session's life, the two ways to end it, and what a client can
  read of it. The facts rest on the interpretation \<open>real\<close> of the locale \<open>store_neutral\<close>.
\<close>

lemma build_service_Inr:
  "build_service E X s = Inr S \<Longrightarrow> S = real_service E X s (sandbox_fernet_key s)"
  by (auto simp: build_service_def fernet_from_key_def split: sum.splits if_splits)

lemma real_service_simps [simp]:
  "sv_settings (real_service E X s f) = s" "sv_fernet (real_service E X s f) = f"
  "sv_allocate_port (real_service E X s f) = allocate_port"
  "sv_down_session (real_service E X s f) path v
     = down_session E path (case v of None \<Rightarrow> True | Some b \<Rightarrow> b) 120"
  by (simp_all add: real_service_def)

lemma allocated_port:
  "allocate_port used s = Inr p \<Longrightarrow>
     sandbox_port_range_start s \<le> p \<and> p \<le> sandbox_port_range_end s \<and> p \<notin> used"
  using docker_ports.alloc_fresh[of used s p] by simp

section \<open>Creating a session\<close>

lemma created_names: "map_eachE (make_cred E) dbs w = (Inr creds, w') \<Longrightarrow> map dc_name creds = map spec_name dbs"
proof (induction dbs arbitrary: w creds)
  case Nil
  then show ?case by (simp add: ret_apply)
next
  case (Cons d dbs)
  then show ?case
    by (auto simp: bindE_Inr make_cred_def ret_apply)
qed

text \<open>C1: A successful create adds exactly one row and changes no other: a new id, the ticket, a
  port of the configured range that no active session holds, status ready, the expiry and its
  limit as configured, and credentials that decrypt to the answer's databases.\<close>

theorem create_success:
  assumes build: "build_service E X s = Inr S"
    and fernet: "fernet_roundtrip E (sandbox_fernet_key s)"
    and run: "create_session S E ticket dbs w = (Inr res, w')"
  shows "\<exists>row creds pw. db w' = db w @ [row] \<and> s_id row = rs_session_id res
     \<and> s_id row \<notin> s_id ` set (db w) \<and> s_ticket row = ticket \<and> s_status row = STATUS_READY
     \<and> s_port row = rs_mysql_port res \<and> s_port row \<notin> used_ports (db w)
     \<and> sandbox_port_range_start s \<le> s_port row \<and> s_port row \<le> sandbox_port_range_end s
     \<and> s_expires_at row = s_created_at row + sandbox_ttl_default_seconds s
     \<and> s_max_extended_until row = s_created_at row + sandbox_ttl_max_seconds s
     \<and> s_ttl_extended row = 0 \<and> rs_databases res = map info_of creds
     \<and> map dc_name creds = map spec_name dbs
     \<and> decrypt_creds E (s_creds_enc row) (sandbox_fernet_key s) = Inr (sort_keys (creds_json creds pw))"
proof -
  from build have S: "S = real_service E X s (sandbox_fernet_key s)" by (rule build_service_Inr)
  from run[unfolded S] show ?thesis
  proof (cases rule: real.create_session_cases)
    case (created r creds w0 w0' pw blob w1 w2 date paths now)
    let ?row = "(first_row s (rs_session_id res) ticket date dbs paths now (rs_mysql_port res))
      \<lparr>s_status := STATUS_READY, s_creds_enc := blob, s_expires_at := rs_expires_at res,
       s_max_extended_until := rs_max_extended_until res\<rparr>"
    from created have "allocate_port (used_ports (db w)) s = Inr (rs_mysql_port res)" by simp
    note port = allocated_port[OF this]
    have "decrypt_creds E blob (sandbox_fernet_key s) = Inr (sort_keys (creds_json creds pw))"
      using decrypt_encrypt[OF fernet] created(5) by simp
    with created port created_names[OF created(4)] show ?thesis
      by (intro exI[of _ ?row] exI[of _ creds] exI[of _ pw]) simp
  qed simp_all
qed

text \<open>A create that succeeds, on the sample environment.\<close>

lemma sample_created: "\<exists>res w'. create_session sample_service sample_env ''T-1''
    [\<lparr>spec_name = ''crm'', spec_tables = TNone\<rparr>] (sample_world []) = (Inr res, w')"
  unfolding sample_service_def
  by (rule create_session_returns[OF sample_cooperative, of _ 33060])
    (simp_all add: sample_world_def used_ports_def sample_settings_def)

lemma create_success_witness:
  "\<exists>res w' row. create_session sample_service sample_env ''T-1''
      [\<lparr>spec_name = ''crm'', spec_tables = TNone\<rparr>] (sample_world []) = (Inr res, w')
    \<and> db w' = [row] \<and> s_status row = STATUS_READY"
proof -
  obtain res w' where run: "create_session sample_service sample_env ''T-1''
      [\<lparr>spec_name = ''crm'', spec_tables = TNone\<rparr>] (sample_world []) = (Inr res, w')"
    using sample_created by blast
  from create_success[OF sample_build sample_fernet(1) run] run show ?thesis
    by (auto simp: sample_world_def)
qed





text \<open>C9: When the surroundings cooperate, the id is new and some port of the range is free, a
  create returns a session.\<close>

theorem create_returns:
  assumes "build_service E X s = Inr S" and "cooperative E"
    and "fst (e_uuid E (os w)) \<notin> s_id ` set (db w)"
    and "sandbox_port_range_start s \<le> p" "p \<le> sandbox_port_range_end s" "p \<notin> used_ports (db w)"
  shows "\<exists>res w'. create_session S E ticket dbs w = (Inr res, w')"
  using create_session_returns[OF assms(2,3), of p s] assms(4-6) build_service_Inr[OF assms(1)] by simp

lemma create_returns_witness:
  "\<exists>res w'. create_session sample_service sample_env ''T-1''
      [\<lparr>spec_name = ''crm'', spec_tables = TList [''a'', ''b'']\<rparr>] (sample_world []) = (Inr res, w')"
  by (rule create_returns[OF sample_build sample_cooperative, of _ 33060])
    (simp_all add: sample_world_def used_ports_def sample_settings_def)


lemma down_trace: "trace (snd (down_session E p True 120 w)) = trace w @
    [Ran \<lparr>p_argv = [''docker'', ''compose'', ''-f'', p, ''down'', ''-v''], p_env = None,
          p_stdin = None, p_timeout = 120\<rparr>]"
  by (auto simp: down_session_def compose_def run_proc_def os_call_def bindE_apply throw_apply
      ret_apply split: prod.split sum.split)






section \<open>Extending a session\<close>

lemma now_s_run: "now_s E w = (Inr (e_time E (os w)), w)"
  by (simp add: now_s_def os_read_def)

lemma reset_ttl_run:
  "reset_ttl S E sid w =
     (case get sid (db w) of
        None \<Rightarrow> (Inl (KeyError sid), w)
      | Some r \<Rightarrow>
          (case reset_decision (sv_settings S) (e_time E (os w)) r of
             Inl e \<Rightarrow> (Inl e, w)
           | Inr t \<Rightarrow>
               (Inr \<lparr>rr_session_id = sid, rr_expires_at = t,
                     rr_max_extended_until = s_max_extended_until r, rr_reset_used = True\<rparr>,
                w\<lparr>db := snd (update_ttl sid t 1 (db w))\<rparr>)))"
  by (auto simp: reset_ttl_def bindE_apply getsW_apply now_s_run liftE_apply throw_apply ret_apply
      store_op_eq store_run split: option.split sum.split)

text \<open>C13: A granted extension needs a ready session that was never extended and whose limit lies
  ahead; it moves the expiry by the configured amount but not past the limit, marks the session as
  extended, changes no other session, and every later extension of it is refused.\<close>

theorem reset_ttl_once:
  assumes "reset_ttl S E sid w = (Inr res, w')"
  shows "\<exists>r. get sid (db w) = Some r \<and> s_status r = STATUS_READY \<and> s_ttl_extended r = 0
     \<and> e_time E (os w) < s_max_extended_until r
     \<and> rr_expires_at res = min (s_max_extended_until r)
         (s_expires_at r + sandbox_ttl_reset_add_seconds (sv_settings S))
     \<and> get sid (db w') = Some (r\<lparr>s_expires_at := rr_expires_at res, s_ttl_extended := 1\<rparr>)
     \<and> (\<forall>other. other \<noteq> sid \<longrightarrow> get other (db w') = get other (db w))
     \<and> (\<forall>E' w''. db w'' = db w' \<longrightarrow>
          fst (reset_ttl S E' sid w'') = Inl (PermissionError ''ttl already extended once''))"
proof -
  from assms obtain r t where r: "get sid (db w) = Some r"
    and dec: "reset_decision (sv_settings S) (e_time E (os w)) r = Inr t"
    and res: "rr_expires_at res = t" and w': "db w' = snd (update_ttl sid t 1 (db w))"
    by (auto simp: reset_ttl_run split: option.splits sum.splits)
  have after: "get sid (db w') = Some (r\<lparr>s_expires_at := t, s_ttl_extended := 1\<rparr>)"
    and other: "\<forall>other. other \<noteq> sid \<longrightarrow> get other (db w') = get other (db w)"
    by (simp_all add: w' ttl_update.get_upd r option.map_ident)
  from dec have ready: "s_status r = STATUS_READY" by (auto simp: reset_decision_def split: if_splits)
  from after ready have "fst (reset_ttl S E' sid w'') = Inl (PermissionError ''ttl already extended once'')"
    if "db w'' = db w'" for E' w''
    using that by (simp add: reset_ttl_run reset_decision_def)
  with dec r res after other show ?thesis
    by (auto simp: reset_decision_def split: if_splits)
qed

definition sample_row :: session where
  "sample_row = (first_row sample_settings ''11111111'' ''T-1'' ''2024-01-01'' []
     \<lparr>sp_session_dir = ''/c/1'', sp_compose_path = ''/c/1/docker-compose.yml'', sp_cnf_path = ''/c/1/mysqld.cnf'',
      sp_tls_dir = ''/t/1'', sp_log_dir = ''/l/1''\<rparr> 900 33060)
     \<lparr>s_status := STATUS_READY, s_expires_at := 900 + 21600, s_max_extended_until := 900 + 43200\<rparr>"

lemma sample_row_simps [simp]:
  "s_id sample_row = ''11111111''" "s_ticket sample_row = ''T-1''" "s_status sample_row = STATUS_READY"
  "s_expires_at sample_row = 22500" "s_max_extended_until sample_row = 44100"
  "s_ttl_extended sample_row = 0" "s_port sample_row = 33060" "s_creds_enc sample_row = placeholder_creds"
  by (simp_all add: sample_row_def)

lemma sample_get: "get ''11111111'' [sample_row] = Some sample_row"
  by (simp add: get_def)

lemma sample_now: "e_time sample_env x = 1000"
  by (simp add: sample_env_def)

lemma sample_sv: "sv_settings sample_service = sample_settings" "sv_fernet sample_service = ''fernet''"
  by (simp_all add: sample_service_def)

lemma reset_ttl_once_witness:
  "\<exists>res w'. reset_ttl sample_service sample_env ''11111111'' (sample_world [sample_row]) = (Inr res, w')
     \<and> rr_expires_at res = 36900 \<and> fst (reset_ttl sample_service sample_env ''11111111'' w')
          = Inl (PermissionError ''ttl already extended once'')"
proof -
  obtain res w' where run: "reset_ttl sample_service sample_env ''11111111'' (sample_world [sample_row]) = (Inr res, w')"
    by (simp add: reset_ttl_run sample_world_def sample_get reset_decision_def sample_now sample_sv)
  have db: "db (sample_world [sample_row]) = [sample_row]" by (simp add: sample_world_def)
  from reset_ttl_once[OF run] obtain r where "get ''11111111'' [sample_row] = Some r"
    and t: "rr_expires_at res = min (s_max_extended_until r)
         (s_expires_at r + sandbox_ttl_reset_add_seconds (sv_settings sample_service))"
    and again: "\<forall>E' w''. db w'' = db w' \<longrightarrow> fst (reset_ttl sample_service E' ''11111111'' w'')
          = Inl (PermissionError ''ttl already extended once'')"
    unfolding db by blast
  then have "rr_expires_at res = 36900" by (simp add: sample_get sample_sv sample_settings_def)
  with run again show ?thesis by blast
qed

text \<open>C34: A refused extension changes nothing, and says why: no such session, or a session that is
  not ready, was extended before, or has reached its limit.\<close>

theorem reset_ttl_refused:
  assumes "reset_ttl S E sid w = (Inl e, w')"
  shows "w' = w \<and> (case get sid (db w) of
       None \<Rightarrow> e = KeyError sid
     | Some r \<Rightarrow> (if s_status r \<noteq> STATUS_READY
           then e = PermissionError (''cannot reset ttl for status='' @ s_status r)
         else if s_ttl_extended r \<noteq> 0 then e = PermissionError ''ttl already extended once''
         else s_max_extended_until r \<le> e_time E (os w)
           \<and> e = PermissionError ''max ttl already reached''))"
  using assms by (auto simp: reset_ttl_run reset_decision_def split: option.splits sum.splits if_splits)

lemma reset_ttl_refused_witness:
  "\<exists>w'. reset_ttl sample_service sample_env ''nobody'' (sample_world [sample_row]) = (Inl (KeyError ''nobody''), w')
     \<and> w' = sample_world [sample_row]"
proof -
  obtain e w' where run: "reset_ttl sample_service sample_env ''nobody'' (sample_world [sample_row]) = (Inl e, w')"
    by (simp add: reset_ttl_run sample_world_def get_def)
  from reset_ttl_refused[OF run] run show ?thesis by (simp add: sample_world_def get_def)
qed

section \<open>Ending a session\<close>

text \<open>What both operations do to a session they find: one \<^verbatim>\<open>docker compose down -v\<close>, then the
  status.\<close>

lemma teardown_run:
  assumes "S = real_service E X s f"
  shows "\<exists>w'. thenE (quietE (sv_down_session S path None)) (store_op (set_status sid STATUS_NUKED)) w = (Inr (), w')
     \<and> db w' = snd (set_status sid STATUS_NUKED (db w))
     \<and> trace w' = trace w @ [Ran \<lparr>p_argv = [''docker'', ''compose'', ''-f'', path, ''down'', ''-v''],
           p_env = None, p_stdin = None, p_timeout = 120\<rparr>]"
proof -
  have "db (snd (down_session E path True 120 w)) = db w"
    using frames_db_docker(7)[of E path True 120] by (simp add: frames_def)
  then show ?thesis
    by (simp add: assms thenE_apply quietE_apply store_op_eq store_run down_trace)
qed

text \<open>C15: Deleting a session that exists marks it nuked after one request to destroy the container
  and its volumes, and it does so even when that request fails; no other session changes. Deleting
  an unknown id raises \<^verbatim>\<open>KeyError\<close> and does nothing.\<close>

theorem nuke_outcome:
  assumes build: "build_service E X s = Inr S"
  shows "\<exists>w'. nuke S sid w = (case get sid (db w) of None \<Rightarrow> Inl (KeyError sid) | Some r \<Rightarrow> Inr (), w')
     \<and> (case get sid (db w) of
          None \<Rightarrow> w' = w
        | Some r \<Rightarrow> get sid (db w') = Some (r\<lparr>s_status := STATUS_NUKED\<rparr>)
            \<and> trace w' = trace w @ [Ran \<lparr>p_argv = [''docker'', ''compose'', ''-f'', s_compose_path r,
                 ''down'', ''-v''], p_env = None, p_stdin = None, p_timeout = 120\<rparr>])
     \<and> (\<forall>other. other \<noteq> sid \<longrightarrow> get other (db w') = get other (db w))"
proof (cases "get sid (db w)")
  case None
  then show ?thesis by (simp add: nuke_def bindE_apply getsW_apply throw_apply)
next
  case (Some r)
  note S = build_service_Inr[OF build]
  obtain w' where run: "thenE (quietE (sv_down_session S (s_compose_path r) None))
      (store_op (set_status sid STATUS_NUKED)) w = (Inr (), w')"
    and w': "db w' = snd (set_status sid STATUS_NUKED (db w))"
      "trace w' = trace w @ [Ran \<lparr>p_argv = [''docker'', ''compose'', ''-f'', s_compose_path r, ''down'', ''-v''],
           p_env = None, p_stdin = None, p_timeout = 120\<rparr>]"
    using teardown_run[OF S] by blast
  have "nuke S sid w = (Inr (), w')"
    using Some run by (simp add: nuke_def bindE_apply getsW_apply)
  moreover have "\<forall>other. other \<noteq> sid \<longrightarrow> get other (db w') = get other (db w)"
    by (simp add: w' nuke_status.get_upd option.map_ident)
  moreover have "get sid (db w') = Some (r\<lparr>s_status := STATUS_NUKED\<rparr>)"
    by (simp add: w' nuke_status.get_upd Some)
  ultimately show ?thesis using Some w'(2) by simp
qed

text \<open>The docker daemon of this environment refuses everything.\<close>

definition broken_env :: "unit env" where
  "broken_env = sample_env\<lparr>e_run := (\<lambda>p x. (Inr \<lparr>c_returncode = 1, c_stdout = [], c_stderr = ''boom''\<rparr>, 10, x))\<rparr>"

lemma broken_build: "build_service broken_env sample_x509 sample_settings
    = Inr (real_service broken_env sample_x509 sample_settings ''fernet'')"
  by (simp add: build_service_def fernet_from_key_def broken_env_def sample_env_def sample_settings_def)

lemma nuke_outcome_witness:
  "\<exists>w'. nuke (real_service broken_env sample_x509 sample_settings ''fernet'') ''11111111''
       (sample_world [sample_row]) = (Inr (), w')
     \<and> get ''11111111'' (db w') = Some (sample_row\<lparr>s_status := STATUS_NUKED\<rparr>)"
proof -
  have "get ''11111111'' (db (sample_world [sample_row])) = Some sample_row"
    by (simp add: sample_world_def sample_get)
  then show ?thesis
    using nuke_outcome[OF broken_build, of "''11111111''" "sample_world [sample_row]"] by auto
qed

text \<open>C14: The ticket-closed webhook ends a session only for the ticket it was created for, and is
  idempotent: a wrong ticket or id changes nothing, an ended session is left alone, and after a call
  that ended the session the same call answers \<^verbatim>\<open>already_nuked\<close> and makes no request.\<close>

theorem nuke_by_ticket_idempotent:
  assumes build: "build_service E X s = Inr S"
    and run: "nuke_by_ticket S ticket sid w = (res, w')"
  shows "(case get sid (db w) of
       None \<Rightarrow> res = Inl (KeyError sid) \<and> w' = w
     | Some r \<Rightarrow>
         if s_ticket r \<noteq> ticket then res = Inl (KeyError sid) \<and> w' = w
         else if s_status r = STATUS_NUKED then res = Inr ''already_nuked'' \<and> w' = w
         else res = Inr ''nuked'' \<and> get sid (db w') = Some (r\<lparr>s_status := STATUS_NUKED\<rparr>)
           \<and> (\<forall>other. other \<noteq> sid \<longrightarrow> get other (db w') = get other (db w))
           \<and> nuke_by_ticket S ticket sid w' = (Inr ''already_nuked'', w'))"
proof (cases "get sid (db w)")
  case None
  with run show ?thesis by (auto simp: nuke_by_ticket_def bindE_apply getsW_apply throw_apply)
next
  case (Some r)
  note S = build_service_Inr[OF build]
  show ?thesis
  proof (cases "s_ticket r = ticket \<and> s_status r \<noteq> STATUS_NUKED")
    case True
    obtain w1 where td: "thenE (quietE (sv_down_session S (s_compose_path r) None))
        (store_op (set_status sid STATUS_NUKED)) w = (Inr (), w1)"
      and w1: "db w1 = snd (set_status sid STATUS_NUKED (db w))"
      using teardown_run[OF S] by blast
    then have "nuke_by_ticket S ticket sid w = (Inr ''nuked'', w1)"
      using Some True
      by (auto simp: nuke_by_ticket_def bindE_apply getsW_apply thenE_apply ret_apply
          split: prod.splits sum.splits)
    with run have res: "res = Inr ''nuked''" "w' = w1" by simp_all
    moreover have g: "get sid (db w1) = Some (r\<lparr>s_status := STATUS_NUKED\<rparr>)"
      by (simp add: w1 nuke_status.get_upd Some)
    moreover have "\<forall>other. other \<noteq> sid \<longrightarrow> get other (db w1) = get other (db w)"
      by (simp add: w1 nuke_status.get_upd option.map_ident)
    moreover have "nuke_by_ticket S ticket sid w1 = (Inr ''already_nuked'', w1)"
      using g True by (simp add: nuke_by_ticket_def bindE_apply getsW_apply ret_apply)
    ultimately show ?thesis using Some True by simp
  next
    case False
    with run Some show ?thesis
      by (auto simp: nuke_by_ticket_def bindE_apply getsW_apply throw_apply ret_apply)
  qed
qed

lemma nuke_by_ticket_idempotent_witness:
  "\<exists>w'. nuke_by_ticket sample_service ''T-1'' ''11111111'' (sample_world [sample_row]) = (Inr ''nuked'', w')
     \<and> nuke_by_ticket sample_service ''T-1'' ''11111111'' w' = (Inr ''already_nuked'', w')"
proof -
  obtain res w' where run: "nuke_by_ticket sample_service ''T-1'' ''11111111'' (sample_world [sample_row]) = (res, w')"
    by fastforce
  from nuke_by_ticket_idempotent[OF sample_build run] run show ?thesis
    by (auto simp: sample_world_def sample_get)
qed

section \<open>Reading a session\<close>

lemma jget_cons_ne: "k \<noteq> k' \<Longrightarrow> jget k ((k', v) # kvs) = jget k kvs"
  by (simp add: jget_def map_of_append map_add_def split: option.split)

lemma creds_index:
  "json_index ''dbs'' (sort_keys (creds_json creds pw)) = Inr (sort_keys (JArr (map cred_json creds)))"
proof -
  obtain kvs where kvs: "sort_keys (creds_json creds pw) = JObj kvs"
    by (simp add: creds_json_def)
  have "jget ''dbs'' kvs = map_option sort_keys (jget ''dbs''
      [(''dbs'', JArr (map cred_json creds)), (''root_password'', JStr pw)])"
    by (rule jget_sort_keys[OF _ kvs[unfolded creds_json_def]]) simp
  then show ?thesis by (simp add: kvs json_index_def jget_def)
qed

text \<open>What the JSON of the stored credentials is read back as.\<close>

lemma make_cred_json: "make_database_info (sort_keys (cred_json c)) = Inr (info_of c)"
proof -
  have id: "map (\<lambda>x. sort_keys (JStr x)) ts = map JStr ts" for ts by simp
  obtain kvs where kvs: "sort_keys (cred_json c) = JObj kvs" by (simp add: cred_json_def)
  have "jget k kvs = map_option sort_keys (jget k [(''name'', JStr (dc_name c)), (''user'', JStr (dc_user c)),
      (''password'', JStr (dc_password c)),
      (''tables'', case dc_tables c of None \<Rightarrow> JNull | Some ts \<Rightarrow> JArr (map JStr ts))])" for k
    by (rule jget_sort_keys[OF _ kvs[unfolded cred_json_def]]) simp
  then show ?thesis
    by (cases "dc_tables c") (simp_all add: kvs make_database_info_def jget_def info_of_def
        optional_tables_def comp_def id)
qed

lemma creds_infos:
  "database_infos (sort_keys (JArr (map cred_json creds))) = Inr (map info_of creds)"
proof -
  have "make_database_infos (map (\<lambda>c. sort_keys (cred_json c)) creds) = Inr (map info_of creds)"
    by (induction creds) (simp_all add: make_cred_json)
  then show ?thesis by (simp add: database_infos_def iterate_def comp_def)
qed

text \<open>Viewing the session that was just created shows its row and its credentials.\<close>

lemma view_created:
  assumes build: "build_service E X s = Inr S"
    and fernet: "fernet_roundtrip E (sandbox_fernet_key s)"
    and run: "create_session S E ticket dbs w = (Inr res, w')"
  obtains row dbs' where "view S E (rs_session_id res) w' = (Inr (Some (view_of row dbs')), w')"
    and "s_id row = rs_session_id res" and "s_ticket row = ticket" and "s_status row = STATUS_READY"
    and "s_host row = rs_api_host res" and "s_mysql_host row = rs_mysql_host res"
    and "s_port row = rs_mysql_port res" and "s_expires_at row = rs_expires_at res"
    and "s_max_extended_until row = rs_max_extended_until res" and "s_ttl_extended row = 0"
    and "ca_url (s_host row) (s_id row) = rs_ca_url res"
    and "database_infos dbs' = Inr (rs_databases res)"
proof -
  from build have S: "S = real_service E X s (sandbox_fernet_key s)" by (rule build_service_Inr)
  from run[unfolded S] show thesis
  proof (cases rule: real.create_session_cases)
    case (created r creds w0 w0' pw blob w1 w2 date paths now)
    let ?row = "(first_row s (rs_session_id res) ticket date dbs paths now (rs_mysql_port res))
      \<lparr>s_status := STATUS_READY, s_creds_enc := blob, s_expires_at := rs_expires_at res,
       s_max_extended_until := rs_max_extended_until res\<rparr>"
    from created have w': "db w' = db w @ [?row]" and fresh: "rs_session_id res \<notin> s_id ` set (db w)"
      by simp_all
    from fresh get_append_new[of ?row "db w"] have g: "get (rs_session_id res) (db w') = Some ?row"
      by (simp add: w')
    have "decrypt_creds E blob (sandbox_fernet_key s) = Inr (sort_keys (creds_json creds pw))"
      using decrypt_encrypt[OF fernet] created(5) by simp
    then have "view S E (rs_session_id res) w'
        = (Inr (Some (view_of ?row (sort_keys (JArr (map cred_json creds))))), w')"
      by (simp add: view_def bindE_apply getsW_apply g liftE_apply ret_apply creds_index S)
    then show thesis
    proof (rule that)
      show "database_infos (sort_keys (JArr (map cred_json creds))) = Inr (rs_databases res)"
        using creds_infos[of creds] created by simp
    qed (use created in simp_all)
  qed simp_all
qed

text \<open>A session whose create is still running or has failed cannot be read: its placeholder
  credentials are no token, and viewing it raises \<^verbatim>\<open>ValueError\<close>.\<close>

lemma view_unfinished:
  assumes "rejects_placeholder E (sv_fernet S)"
    and "get sid (db w) = Some r" and "s_creds_enc r = placeholder_creds"
  shows "view S E sid w = (Inl (ValueError ''Invalid Fernet token (key mismatch or corruption)''), w)"
  using assms by (simp add: view_def bindE_apply getsW_apply liftE_apply decrypt_creds_def rejects_placeholder_def)

section \<open>What a failure is called\<close>

text \<open>C40: The categories a low-level failure can get are exactly these six; \<^verbatim>\<open>validation\<close> and
  \<^verbatim>\<open>grant\<close> are never among them.\<close>

theorem categories_produced:
  "range (fst \<circ> classify_failure) = {''ssh'', ''dump'', ''restore'', ''port'', ''container'', ''internal''}"
proof
  have "fst (classify_failure e) \<in> {''ssh'', ''dump'', ''restore'', ''port'', ''container'', ''internal''}" for e
    by (cases e) (simp_all add: classify_failure_def)
  then show "range (fst \<circ> classify_failure) \<subseteq> {''ssh'', ''dump'', ''restore'', ''port'', ''container'', ''internal''}"
    by auto
  have "fst (classify_failure (TunnelError [])) = ''ssh''"
    "fst (classify_failure (MySQLOpsError ''mysqldump'')) = ''dump''"
    "fst (classify_failure (MySQLOpsError [])) = ''restore''"
    "fst (classify_failure (DockerOpsError ''port'')) = ''port''"
    "fst (classify_failure (DockerOpsError [])) = ''container''"
    "fst (classify_failure (KeyError [])) = ''internal''"
    by code_simp+
  then show "{''ssh'', ''dump'', ''restore'', ''port'', ''container'', ''internal''} \<subseteq> range (fst \<circ> classify_failure)"
    using rangeI[of "fst \<circ> classify_failure" "TunnelError []"]
      rangeI[of "fst \<circ> classify_failure" "MySQLOpsError ''mysqldump''"]
      rangeI[of "fst \<circ> classify_failure" "MySQLOpsError []"]
      rangeI[of "fst \<circ> classify_failure" "DockerOpsError ''port''"]
      rangeI[of "fst \<circ> classify_failure" "DockerOpsError []"]
      rangeI[of "fst \<circ> classify_failure" "KeyError []"]
    unfolding comp_apply by (simp only: insert_subset empty_subsetI simp_thms)
qed

lemma py_in_mono: "py_in n h \<Longrightarrow> py_in n (xs @ h @ ys)"
  by (simp add: py_in_append_left py_in_append_right)

text \<open>When the dump side of a clone fails, the failure is called \<^verbatim>\<open>dump\<close>, whether or not the
  restore side failed as well.\<close>

lemma dump_side_is_dump:
  assumes "first_rc p \<noteq> 0"
  shows "fst (classify_failure (MySQLOpsError (join ''; '' (clone_failures source_db target_db tables p)))) = ''dump''"
proof -
  have low: "lower ''mysqldump '' = ''mysqldump ''" and sub: "py_in ''mysqldump'' ''mysqldump ''"
    by code_simp+
  define z where "z = source_db @ tables_note tables @ failed_note (first_rc p) (take 2000 (first_err p))"
  define x where "x = ''mysql restore '' @ target_db @ failed_note (second_rc p) (take 2000 (second_err p))"
  have "clone_failures source_db target_db tables p
      = (if second_rc p \<noteq> 0 then [x] else []) @ [''mysqldump '' @ z]"
    using assms by (simp add: clone_failures_def x_def z_def)
  then have "join ''; '' (clone_failures source_db target_db tables p)
      = (if second_rc p \<noteq> 0 then x @ ''; '' else []) @ ''mysqldump '' @ z"
    by simp
  then have "\<exists>xs ys. join ''; '' (clone_failures source_db target_db tables p) = xs @ ''mysqldump '' @ ys"
    by blast
  then obtain xs ys where "join ''; '' (clone_failures source_db target_db tables p) = xs @ ''mysqldump '' @ ys"
    by blast
  then have "lower (join ''; '' (clone_failures source_db target_db tables p))
      = lower xs @ ''mysqldump '' @ lower ys"
    by (simp only: lower_append low)
  then have "py_in ''mysqldump'' (lower (join ''; '' (clone_failures source_db target_db tables p)))"
    using py_in_mono[OF sub, of "lower xs" "lower ys"] by simp
  then show ?thesis by (simp add: classify_failure_def)
qed

text \<open>\<^verbatim>\<open>subprocess\<close> and sockets raise their own exceptions, never this program's.\<close>

definition not_docker :: "exn \<Rightarrow> bool" where
  "not_docker e \<longleftrightarrow> (\<forall>m. e \<noteq> DockerOpsError m)"

definition foreign_errors :: "'x env \<Rightarrow> bool" where
  "foreign_errors E \<longleftrightarrow> (\<forall>p x e. fst (e_run E p x) = Inl e \<longrightarrow> not_docker e)
     \<and> (\<forall>h p x e. fst (e_connect E h p x) = Inl e \<longrightarrow> not_docker e)"

lemma raises_healthy_turn:
  assumes "foreign_errors E"
  shows "raises (healthy_turn E c st) not_docker"
proof -
  have run: "raises (run_proc E p) not_docker" for p
    unfolding run_proc_def using assms by (intro raises_os_call) (unfold foreign_errors_def, blast)
  have con: "raises (tcp_connect E h p) not_docker" for h p
    unfolding tcp_connect_def using assms by (intro raises_os_call) (unfold foreign_errors_def, blast)
  have "raises (tcp_open E h p) not_docker" for h p
    unfolding tcp_open_def by (rule raises_catchE_cond[OF con]) (auto intro: raises_intros)
  then have ans: "raises (port_answers E p) not_docker" for p
    unfolding port_answers_def by (auto split: option.split intro: raises_intros)
  have port: "raises (read_published_port E c) not_docker"
    unfolding read_published_port_def by (intro raises_intros run)
  have "raises (healthy_probe E c st) not_docker"
    unfolding healthy_probe_def Let_def by (intro raises_intros run port ans)
  then show ?thesis
    unfolding healthy_turn_def by (auto split: sum.split intro!: raises_intros port ans)
qed

lemma healthy_turn_tcp:
  assumes "healthy_turn E c st w = (Inr (Inr (st', tcp')), w')"
  shows "prefix ''port='' tcp'"
  using assms unfolding healthy_turn_def bindE_Inr
  apply (elim exE conjE)
  subgoal for probe w1
    by (cases probe) (auto simp: bindE_Inr ret_apply split: if_splits)
  done

lemma wait_healthy_loop_error:
  assumes "foreign_errors E" and "clock w < deadline \<or> prefix ''port='' tcp"
    and "wait_healthy_loop E c timeout deadline st tcp w = (Inl (DockerOpsError m), w')"
  shows "py_in ''port='' m"
  using assms
proof (induction E c timeout deadline st tcp w rule: wait_healthy_loop.induct)
  case (1 E c timeout deadline st tcp w)
  note unfold = wait_healthy_loop.simps[of E c timeout deadline st tcp w]
  show ?case
  proof (cases "clock w < deadline")
    case True
    obtain r w1 where turn: "healthy_turn E c st w = (r, w1)" by fastforce
    show ?thesis
    proof (cases r)
      case (Inl e)
      with "1.prems" True turn raisesD[OF raises_healthy_turn[OF "1.prems"(1)], of c st w e w1]
      show ?thesis by (simp add: unfold not_docker_def)
    next
      case (Inr t)
      with "1.prems"(3) True turn obtain st' tcp' where t: "t = Inr (st', tcp')"
        by (auto simp: unfold split: sum.splits)
      with turn Inr have "prefix ''port='' tcp'" by (auto dest: healthy_turn_tcp)
      with 1 True turn Inr t show ?thesis by (simp add: unfold)
    qed
  next
    case False
    with "1.prems" have "prefix ''port='' tcp" and "m = (''container '' @ c @ '' did not become ready in ''
        @ str_of_int timeout @ ''s; last docker status: '' @ st @ ''; tcp probe: '') @ tcp"
      by (simp_all add: unfold)
    then have "prefix ''port='' tcp" and "\<exists>xs. m = xs @ tcp" by blast+
    then show ?thesis by (auto simp: py_in_iff prefix_def)
  qed
qed

text \<open>C39: Whenever \<^verbatim>\<open>wait_healthy\<close> gives up on a container, the failure is called \<^verbatim>\<open>port\<close>,
  never \<^verbatim>\<open>container\<close>: its message always quotes the last TCP probe, \<^verbatim>\<open>port=...\<close>.\<close>

theorem unhealthy_is_called_port:
  assumes "foreign_errors E" and "0 < timeout"
    and "wait_healthy E c timeout w = (Inl (DockerOpsError m), w')"
  shows "fst (classify_failure (DockerOpsError m)) = ''port''"
proof -
  have "py_in ''port='' m"
    using assms(2,3)
      wait_healthy_loop_error[OF assms(1), of w "nat (int (clock w) + 1000 * timeout)"
        "''unknown''" c timeout "''unknown''" m w']
    by (simp add: wait_healthy_def)
  then have "py_in (lower ''port='') (lower m)" by (rule py_in_lower)
  moreover have "lower ''port='' = ''port'' @ ''=''" by code_simp
  ultimately have "py_in ''port'' (lower m)" by (auto simp: py_in_iff)
  then show ?thesis by (simp add: classify_failure_def)
qed

lemma broken_wait: "\<exists>m w'. wait_healthy broken_env ''box'' 1 (sample_world []) = (Inl (DockerOpsError m), w')"
  by (simp add: wait_healthy_def wait_healthy_loop.simps healthy_turn_def healthy_probe_def
      read_published_port_def port_answers_def run_proc_def os_call_def bindE_apply ret_apply
      broken_env_def sample_env_def sample_world_def)

lemma unhealthy_is_called_port_witness:
  "\<exists>m w'. wait_healthy broken_env ''box'' 1 (sample_world []) = (Inl (DockerOpsError m), w')
     \<and> fst (classify_failure (DockerOpsError m)) = ''port''"
proof -
  have "foreign_errors broken_env" by (simp add: foreign_errors_def broken_env_def sample_env_def)
  moreover obtain m w' where run: "wait_healthy broken_env ''box'' 1 (sample_world []) = (Inl (DockerOpsError m), w')"
    using broken_wait by blast
  ultimately have "fst (classify_failure (DockerOpsError m)) = ''port''"
    by (intro unhealthy_is_called_port[of broken_env 1 "''box''" "sample_world []" m w']) simp_all
  with run show ?thesis by blast
qed

end
