(* ===== verification/Reaper.thy ===== *)
theory Reaper
  imports Guarantees
begin

text \<open>
  \<^verbatim>\<open>api/reaper.py\<close>: the background task that ends sessions whose time is over. The teardowns
  run on a thread pool in the code; as they do not touch the store (the locale \<open>neutral_down\<close>), the
  model runs them one after the other, in the order they were submitted, and then the status
  changes, in the order of the futures.
\<close>

section \<open>The reaper\<close>

text \<open>\<^verbatim>\<open>_teardown\<close>; \<open>call path None\<close> is the call without the keyword argument.\<close>

definition teardown ::
    "'x env \<Rightarrow> (string \<Rightarrow> bool option \<Rightarrow> ('x world, unit) prog) \<Rightarrow> string \<Rightarrow> bool \<Rightarrow> ('x world, bool) prog"
where
  "teardown E call compose_path remove_volumes =
     bindE (path_exists E compose_path) (\<lambda>there.
     if \<not> there then ret True
     else catchE (thenE (call compose_path (Some remove_volumes)) (ret True))
       (\<lambda>e. case e of
          TypeError _ \<Rightarrow> catchE (thenE (call compose_path None) (ret True)) (\<lambda>_. ret False)
        | _ \<Rightarrow> ret False))"

text \<open>A future: the value or the exception of its task.\<close>

definition future :: "('w, 'a) prog \<Rightarrow> ('w, exn + 'a) prog" where
  "future m = (\<lambda>w. case m w of (r, w') \<Rightarrow> (Inr r, w'))"

text \<open>\<^verbatim>\<open>was_stuck\<close>, on the row as the queries returned it.\<close>

definition was_stuck :: "session list \<Rightarrow> session \<Rightarrow> bool" where
  "was_stuck stuck rec \<longleftrightarrow>
     s_status rec \<in> {STATUS_EXPIRED, STATUS_STARTING, STATUS_ERROR} \<and> rec \<in> set stuck"

text \<open>The status change after a teardown that worked.\<close>

definition settle_op :: "session list \<Rightarrow> session \<Rightarrow> (store, unit) prog" where
  "settle_op stuck rec =
     (if was_stuck stuck rec then mark_nuked (s_id rec) else set_status (s_id rec) STATUS_NUKED)"

text \<open>The loop over the futures: an exception ends it, a failed teardown skips the session.\<close>

fun settle :: "session list \<Rightarrow> (session \<times> (exn + bool)) list \<Rightarrow> ('x world, session list) prog" where
  "settle stuck [] = ret []"
| "settle stuck ((rec, Inl e) # rest) = throw e"
| "settle stuck ((rec, Inr ok) # rest) =
     (if \<not> ok then settle stuck rest
      else thenE (store_op (settle_op stuck rec))
             (bindE (settle stuck rest) (\<lambda>nuked. ret (rec # nuked))))"

definition reap_once ::
    "'x env \<Rightarrow> (string \<Rightarrow> bool option \<Rightarrow> ('x world, unit) prog) \<Rightarrow> int option \<Rightarrow> int \<Rightarrow> bool
      \<Rightarrow> ('x world, session list) prog" where
  "reap_once E down now_opt stuck_grace_seconds down_with_volumes =
     bindE (case now_opt of None \<Rightarrow> now_s E | Some n \<Rightarrow> ret n) (\<lambda>now.
     bindE (store_op (claim_expired now)) (\<lambda>expired.
     bindE (store_op (claim_stuck now stuck_grace_seconds)) (\<lambda>stuck.
     if expired = [] \<and> stuck = [] then ret []
     else
       bindE (map_eachE (\<lambda>rec. future (teardown E down (s_compose_path rec) False)) expired) (\<lambda>oks.
       bindE (map_eachE (\<lambda>rec. future (teardown E down (s_compose_path rec) down_with_volumes)) stuck) (\<lambda>oks'.
       settle stuck (zip expired oks @ zip stuck oks'))))))"

text \<open>
  \<^verbatim>\<open>reap_loop\<close>: what ends each wait is an input; an empty list is a wait that has not ended. The
  result says whether the loop has ended.
\<close>

datatype wake = Interval | Stopped | Cancelled

definition reap_iteration ::
    "'x env \<Rightarrow> (string \<Rightarrow> bool option \<Rightarrow> ('x world, unit) prog) \<Rightarrow> ('x world, unit) prog" where
  "reap_iteration E down = quietE (thenE (reap_once E down None 300 False) (ret ()))"

fun reap_loop ::
    "'x env \<Rightarrow> (string \<Rightarrow> bool option \<Rightarrow> ('x world, unit) prog) \<Rightarrow> wake list \<Rightarrow> ('x world, bool) prog" where
  "reap_loop E down [] = thenE (reap_iteration E down) (ret False)"
| "reap_loop E down (Interval # wakes) = thenE (reap_iteration E down) (reap_loop E down wakes)"
| "reap_loop E down (Stopped # wakes) = thenE (reap_iteration E down) (ret True)"
| "reap_loop E down (Cancelled # wakes) = thenE (reap_iteration E down) (ret True)"

text \<open>The operation \<^verbatim>\<open>main\<close> gives the reaper.\<close>

definition docker_down :: "'x env \<Rightarrow> string \<Rightarrow> bool option \<Rightarrow> ('x world, unit) prog" where
  "docker_down E path v = down_session E path (case v of None \<Rightarrow> True | Some b \<Rightarrow> b) 120"

section \<open>What one pass does\<close>

text \<open>The statuses after the pass, for the sessions whose teardown succeeded.\<close>

definition settled :: "(session \<times> (exn + bool)) list \<Rightarrow> session list" where
  "settled results = map fst (filter (\<lambda>(rec, ok). ok = Inr True) results)"

lemma settled_simps [simp]:
  "settled [] = []"
  "settled ((rec, Inr True) # rest) = rec # settled rest"
  "settled ((rec, Inr False) # rest) = settled rest"
  by (simp_all add: settled_def)

lemma nuked_id: "s_status r = STATUS_NUKED \<Longrightarrow> r\<lparr>s_status := STATUS_NUKED\<rparr> = r"
  by simp

lemma settle_nuked: "settle stuck results w = (Inr nuked, w') \<Longrightarrow> nuked = settled results"
proof (induction stuck results arbitrary: w nuked rule: settle.induct)
  case (3 stuck rec ok rest)
  then show ?case by (cases ok) (auto simp: thenE_Inr bindE_Inr ret_apply)
qed (simp_all add: ret_apply throw_apply)

lemma settle_op_returns [simp]: "fst (settle_op stuck rec rows) = Inr ()"
  by (simp add: settle_op_def store_run)

lemma settle_ok:
  "settle stuck ((rec, Inr True) # rest) w =
     (case settle stuck rest (w\<lparr>db := snd (settle_op stuck rec (db w))\<rparr>) of
        (Inl e, w') \<Rightarrow> (Inl e, w') | (Inr nuked, w') \<Rightarrow> (Inr (rec # nuked), w'))"
  by (auto simp: thenE_apply store_op_eq bindE_apply ret_apply split: prod.split sum.split)

text \<open>\<^verbatim>\<open>mark_nuked\<close> spares an expired row, but no stuck session has expired.\<close>

lemma settle_op_get:
  assumes "was_stuck stuck rec \<Longrightarrow> \<forall>r. get (s_id rec) rows = Some r \<longrightarrow> s_status r \<noteq> STATUS_EXPIRED"
  shows "get i (snd (settle_op stuck rec rows)) =
    map_option (\<lambda>r. if i = s_id rec then r\<lparr>s_status := STATUS_NUKED\<rparr> else r) (get i rows)"
  using assms
  by (cases "get i rows") (auto simp: settle_op_def nuke_status.get_upd mark_nuked.get_upd nuked_id)

text \<open>Settling nukes exactly the sessions whose teardown succeeded.\<close>

lemma settle_get:
  assumes "settle stuck results w = (Inr nuked, w')"
    and "\<forall>rec \<in> set (settled results). was_stuck stuck rec \<longrightarrow>
      (\<forall>r. get (s_id rec) (db w) = Some r \<longrightarrow> s_status r \<noteq> STATUS_EXPIRED)"
  shows "nuked = settled results \<and> get sid (db w') =
     map_option (\<lambda>r. if sid \<in> s_id ` set (settled results) then r\<lparr>s_status := STATUS_NUKED\<rparr> else r)
       (get sid (db w))"
  using assms
proof (induction stuck results arbitrary: w nuked rule: settle.induct)
  case (3 stuck rec ok rest)
  show ?case
  proof (cases ok)
    case True
    define w1 where "w1 = w\<lparr>db := snd (settle_op stuck rec (db w))\<rparr>"
    have g: "get i (db w1) = map_option (\<lambda>r. if i = s_id rec then r\<lparr>s_status := STATUS_NUKED\<rparr> else r)
        (get i (db w))" for i
      using "3.prems"(2) True settle_op_get[of stuck rec "db w" i] by (simp add: w1_def)
    from "3.prems"(1) True obtain rest' where run: "settle stuck rest w1 = (Inr rest', w')"
      and nuked: "nuked = rec # rest'"
      by (auto simp: settle_ok w1_def simp del: settle.simps split: prod.splits sum.splits)
    have "\<forall>r' \<in> set (settled rest). was_stuck stuck r' \<longrightarrow>
        (\<forall>r. get (s_id r') (db w1) = Some r \<longrightarrow> s_status r \<noteq> STATUS_EXPIRED)"
    proof (intro ballI impI allI)
      fix r' r assume r': "r' \<in> set (settled rest)" "was_stuck stuck r'" and "get (s_id r') (db w1) = Some r"
      then obtain r0 where r0: "get (s_id r') (db w) = Some r0"
        and r: "r = (if s_id r' = s_id rec then r0\<lparr>s_status := STATUS_NUKED\<rparr> else r0)"
        by (auto simp: g)
      with "3.prems"(2) True r' have "s_status r0 \<noteq> STATUS_EXPIRED" by simp
      then show "s_status r \<noteq> STATUS_EXPIRED" by (simp add: r)
    qed
    from "3.IH"(2)[OF _ run this] True nuked show ?thesis
      by (cases "get sid (db w)") (auto simp: g)
  qed (use 3 in simp)
qed (simp_all add: ret_apply throw_apply option.map_ident)

text \<open>Claiming the expired sessions changes nothing about the stuck ones.\<close>

lemma stuck_after_claim:
  "filter (stuck_due now) (update_where (expired_due now) (\<lambda>r. r\<lparr>s_status := STATUS_EXPIRED\<rparr>) rows)
     = filter (stuck_due now) rows"
  by (induction rows) (auto simp: stuck_due_def expired_due_def)

text \<open>The time a pass goes by.\<close>

definition pass_now :: "'x env \<Rightarrow> int option \<Rightarrow> 'x world \<Rightarrow> int" where
  "pass_now E now_opt w = (case now_opt of None \<Rightarrow> e_time E (os w) | Some n \<Rightarrow> n)"

text \<open>
  What a pass works on: the world after the two queries, the rows they returned, and its teardowns,
  each row with the value or exception of its task. Here it is written down apart from \<open>reap_once\<close>,
  so that the properties can speak of the teardowns of a pass.
\<close>

definition claimed :: "int \<Rightarrow> 'x world \<Rightarrow> 'x world" where
  "claimed now w = w\<lparr>db := update_where (expired_due now) (\<lambda>r. r\<lparr>s_status := STATUS_EXPIRED\<rparr>) (db w)\<rparr>"

definition due_rows :: "int \<Rightarrow> store \<Rightarrow> session list" where
  "due_rows now rows = filter (expired_due now) rows @ filter (stuck_due now) rows"

definition teardowns ::
    "'x env \<Rightarrow> (string \<Rightarrow> bool option \<Rightarrow> ('x world, unit) prog) \<Rightarrow> bool \<Rightarrow> session list \<Rightarrow> session list
      \<Rightarrow> ('x world, (session \<times> (exn + bool)) list) prog" where
  "teardowns E down v expired stuck =
     bindE (map_eachE (\<lambda>rec. future (teardown E down (s_compose_path rec) False)) expired) (\<lambda>oks.
     bindE (map_eachE (\<lambda>rec. future (teardown E down (s_compose_path rec) v)) stuck) (\<lambda>oks'.
     ret (zip expired oks @ zip stuck oks')))"

definition pass_teardowns ::
    "'x env \<Rightarrow> (string \<Rightarrow> bool option \<Rightarrow> ('x world, unit) prog) \<Rightarrow> bool \<Rightarrow> int \<Rightarrow> 'x world
      \<Rightarrow> (exn + (session \<times> (exn + bool)) list) \<times> 'x world" where
  "pass_teardowns E down v now w =
     teardowns E down v (filter (expired_due now) (db w)) (filter (stuck_due now) (db w)) (claimed now w)"

lemma due_rows_set: "r \<in> set (due_rows now rows) \<longleftrightarrow> r \<in> set rows \<and> (expired_due now r \<or> stuck_due now r)"
  by (auto simp: due_rows_def)

lemma distinct_due_rows: "unique_ids rows \<Longrightarrow> distinct (map s_id (due_rows now rows))"
  unfolding due_rows_def unique_ids_def
  by (induction rows) (auto simp: expired_due_def stuck_due_def)

lemma futures_return: "\<exists>oks w'. map_eachE (\<lambda>rec. future (m rec)) rs w = (Inr oks, w') \<and> length oks = length rs"
proof (induction rs arbitrary: w)
  case (Cons r rs)
  obtain x w1 where "m r w = (x, w1)" by fastforce
  moreover obtain oks w2 where "map_eachE (\<lambda>rec. future (m rec)) rs w1 = (Inr oks, w2)" "length oks = length rs"
    using Cons by blast
  ultimately show ?case by (simp add: bindE_apply future_def ret_apply)
qed (simp add: ret_apply)

text \<open>
  The contract of the teardown operation: it does not touch the store.
\<close>

locale neutral_down =
  fixes E :: "'x env" and down :: "string \<Rightarrow> bool option \<Rightarrow> ('x world, unit) prog"
  assumes down_frames: "frames db (down path v)"
begin

lemma frames_teardown: "frames db (teardown E down path v)"
  unfolding teardown_def by (auto split: exn.split intro!: frame_intros down_frames)

lemma frames_future: "frames f m \<Longrightarrow> frames f (future m)"
  unfolding frames_def future_def by (auto split: prod.split) (metis snd_conv)

lemma frames_teardowns: "frames db (teardowns E down v expired stuck)"
  unfolding teardowns_def by (intro frame_intros frames_future frames_teardown)

lemma teardowns_return:
  "\<exists>results w'. teardowns E down v expired stuck w = (Inr results, w') \<and> map fst results = expired @ stuck"
proof -
  let ?m = "\<lambda>v rec. teardown E down (s_compose_path rec) v"
  obtain oks w2 where "map_eachE (\<lambda>rec. future (?m False rec)) expired w = (Inr oks, w2)"
    and "length oks = length expired"
    using futures_return[of "?m False" expired w] by auto
  moreover obtain oks' w3 where "map_eachE (\<lambda>rec. future (?m v rec)) stuck w2 = (Inr oks', w3)"
    and "length oks' = length stuck"
    using futures_return[of "?m v" stuck w2] by auto
  ultimately show ?thesis by (simp add: teardowns_def bindE_apply ret_apply)
qed

text \<open>A pass is: claim, tear down, settle.\<close>

lemma reap_once_run:
  assumes "unique_ids (db w)"
  obtains results w1 where "pass_teardowns E down v (pass_now E now_opt w) w = (Inr results, w1)"
    and "map fst results = due_rows (pass_now E now_opt w) (db w)"
    and "db w1 = db (claimed (pass_now E now_opt w) w)"
    and "reap_once E down now_opt g v w = settle (filter (stuck_due (pass_now E now_opt w)) (db w)) results w1"
proof -
  define now where "now = pass_now E now_opt w"
  define expired where "expired = filter (expired_due now) (db w)"
  define stuck where "stuck = filter (stuck_due now) (db w)"
  define wc where "wc = claimed now w"
  have now: "(case now_opt of None \<Rightarrow> now_s E | Some n \<Rightarrow> ret n) w = (Inr now, w)"
    by (simp add: now_def pass_now_def now_s_run ret_apply split: option.split)
  have c1: "store_op (claim_expired now) w = (Inr expired, wc)"
    using assms(1) by (simp add: store_op_eq store_run expired_def wc_def claimed_def)
  have "filter (stuck_due now) (db wc) = stuck"
    by (simp add: stuck_def wc_def claimed_def stuck_after_claim)
  then have c2: "store_op (claim_stuck now g) wc = (Inr stuck, wc)"
    by (simp add: store_op_eq store_run)
  obtain results w1 where t: "teardowns E down v expired stuck wc = (Inr results, w1)"
    and fst: "map fst results = expired @ stuck"
    using teardowns_return by blast
  have "reap_once E down now_opt g v w = settle stuck results w1"
  proof (cases "expired = [] \<and> stuck = []")
    case True
    with t have "results = []" "w1 = wc" by (simp_all add: teardowns_def bindE_apply ret_apply)
    with True now c1 c2 show ?thesis by (simp add: reap_once_def bindE_apply ret_apply)
  next
    case False
    with t now c1 c2 show ?thesis
      by (auto simp: reap_once_def teardowns_def bindE_apply ret_apply split: prod.splits sum.splits)
  qed
  with t fst framesD[OF frames_teardowns t] show thesis
    using that[of results w1]
    by (simp add: pass_teardowns_def due_rows_def expired_def stuck_def wc_def now_def)
qed

lemma claimed_get: "get i (db (claimed now w)) =
    map_option (\<lambda>r. if expired_due now r then r\<lparr>s_status := STATUS_EXPIRED\<rparr> else r) (get i (db w))"
  unfolding claimed_def by (simp add: get_update_where)

lemma reap_once_get:
  assumes uniq: "unique_ids (db w)" and run: "reap_once E down now_opt g v w = (Inr nuked, w')"
  obtains results w1 where "pass_teardowns E down v (pass_now E now_opt w) w = (Inr results, w1)"
    and "map fst results = due_rows (pass_now E now_opt w) (db w)"
    and "nuked = settled results"
    and "\<And>sid. get sid (db w') = map_option
       (\<lambda>r. if sid \<in> s_id ` set nuked then r\<lparr>s_status := STATUS_NUKED\<rparr>
            else if expired_due (pass_now E now_opt w) r then r\<lparr>s_status := STATUS_EXPIRED\<rparr> else r)
       (get sid (db w))"
proof -
  define now where "now = pass_now E now_opt w"
  define stuck where "stuck = filter (stuck_due now) (db w)"
  obtain results w1 where t: "pass_teardowns E down v now w = (Inr results, w1)"
    and fst: "map fst results = due_rows now (db w)"
    and w1: "db w1 = db (claimed now w)"
    and settle: "settle stuck results w1 = (Inr nuked, w')"
    using reap_once_run[OF uniq, of v now_opt g] run unfolding now_def stuck_def by metis
  have "\<forall>rec \<in> set (settled results). was_stuck stuck rec \<longrightarrow>
      (\<forall>r. get (s_id rec) (db w1) = Some r \<longrightarrow> s_status r \<noteq> STATUS_EXPIRED)"
  proof (intro ballI impI allI)
    fix rec r assume "was_stuck stuck rec" and r: "get (s_id rec) (db w1) = Some r"
    then have "rec \<in> set (db w)" and due: "stuck_due now rec" by (auto simp: was_stuck_def stuck_def)
    with get_member[OF uniq] have "get (s_id rec) (db w) = Some rec" by simp
    with r due have "r = rec" by (auto simp: w1 claimed_get expired_due_def stuck_due_def)
    with due show "s_status r \<noteq> STATUS_EXPIRED" by (auto simp: stuck_due_def)
  qed
  note nk = settle_get[OF settle this]
  have get: "get sid (db w') = map_option
       (\<lambda>r. if sid \<in> s_id ` set nuked then r\<lparr>s_status := STATUS_NUKED\<rparr>
            else if expired_due now r then r\<lparr>s_status := STATUS_EXPIRED\<rparr> else r)
       (get sid (db w))" for sid
    using nk[of sid] by (cases "get sid (db w)") (auto simp: w1 claimed_get)
  show thesis
    by (rule that[OF t[unfolded now_def] fst[unfolded now_def] _ get[unfolded now_def]]) (use nk in blast)
qed

end

interpretation docker_down: neutral_down E "docker_down E" for E
  by unfold_locales (simp add: docker_down_def frame_intros)

section \<open>The guarantees of a pass\<close>

text \<open>The request a teardown makes, and what it takes for a teardown to work.\<close>

definition down_call :: "string \<Rightarrow> bool \<Rightarrow> proc" where
  "down_call path v = \<lparr>p_argv = [''docker'', ''compose'', ''-f'', path, ''down''] @ (if v then [''-v''] else []),
     p_env = None, p_stdin = None, p_timeout = 120\<rparr>"

lemma docker_down_run: "docker_down E path (Some v) w =
  (case e_run E (down_call path v) (os w) of (r, dt, x) \<Rightarrow>
    (case r of Inl e \<Rightarrow> Inl e
       | Inr c \<Rightarrow> if c_returncode c \<noteq> 0
           then Inl (DockerOpsError (''docker compose down failed (rc='' @ str_of_int (c_returncode c)
             @ ''): '' @ take 2000 (c_stderr c)))
           else Inr (),
     w\<lparr>os := x, clock := clock w + dt, trace := trace w @ [Ran (down_call path v)]\<rparr>))"
  by (simp add: docker_down_def down_session_def compose_def run_proc_def os_call_def bindE_apply
      down_call_def throw_apply ret_apply split: prod.split sum.split)

lemma teardown_worked:
  assumes "\<forall>p x e. fst (e_run E p x) = Inl e \<longrightarrow> (\<forall>m. e \<noteq> TypeError m)"
  shows "fst (teardown E (docker_down E) path v w) = Inr True \<longleftrightarrow>
    e_exists E path (os w) = Inr False
    \<or> e_exists E path (os w) = Inr True
      \<and> (\<exists>c. fst (e_run E (down_call path v) (os w)) = Inr c \<and> c_returncode c = 0)"
proof -
  obtain r dt x where run: "e_run E (down_call path v) (os w) = (r, dt, x)" by (metis prod_cases3)
  with assms have "r = Inl e \<Longrightarrow> \<forall>m. e \<noteq> TypeError m" for e by (metis fst_conv)
  then show ?thesis
    by (auto simp: teardown_def path_exists_def os_read_def bindE_apply catchE_apply thenE_apply
        docker_down_run run ret_apply split: sum.split exn.split)
qed

text \<open>C16: A pass of the reaper that returns has tried to tear down every session that was due (ready
  or expired past their expiry, or starting or in error past their deadline), and ends exactly the
  sessions whose teardown worked. Ready sessions that are due but could not be torn down become
  expired; every other row is left as it was.\<close>

theorem reap_pass:
  assumes "unique_ids (db w)"
    and "reap_once E (docker_down E) now_opt g v w = (Inr nuked, w')"
  shows "\<exists>results w1. pass_teardowns E (docker_down E) v (pass_now E now_opt w) w = (Inr results, w1)
     \<and> map fst results = due_rows (pass_now E now_opt w) (db w)
     \<and> nuked = map fst (filter (\<lambda>(rec, ok). ok = Inr True) results)
     \<and> (\<forall>sid. get sid (db w') = map_option
         (\<lambda>r. if sid \<in> s_id ` set nuked then r\<lparr>s_status := STATUS_NUKED\<rparr>
              else if expired_due (pass_now E now_opt w) r then r\<lparr>s_status := STATUS_EXPIRED\<rparr> else r)
         (get sid (db w)))"
  using docker_down.reap_once_get[OF assms] unfolding settled_def by blast

definition old_row :: session where
  "old_row = sample_row\<lparr>s_expires_at := 999\<rparr>"

lemma old_store: "unique_ids (db (sample_world [old_row]))"
  by (simp add: unique_ids_def sample_world_def)

lemma yields_teardown:
  assumes "cooperative E"
  shows "yields (teardown E (docker_down E) path v) (\<lambda>ok. ok)"
  unfolding teardown_def
  by (intro yields_bindE[OF yields_exists[OF assms]])
    (auto simp: docker_down_def intro!: yields_catchE yields_thenE[OF yields_docker(5)[OF assms]] yields_ret)

lemma yields_future:
  assumes "cooperative E"
  shows "yields (future (teardown E (docker_down E) path v)) (\<lambda>ok. ok = Inr True)"
  unfolding yields_def
proof
  fix w
  obtain w' where "teardown E (docker_down E) path v w = (Inr True, w')"
    using yieldsD[OF yields_teardown[OF assms], of path v w] by auto
  then show "\<exists>a w'. future (teardown E (docker_down E) path v) w = (Inr a, w') \<and> a = Inr True"
    by (simp add: future_def)
qed

lemma settle_returns:
  "\<forall>(r, ok) \<in> set results. \<exists>b. ok = Inr b \<Longrightarrow> \<exists>nuked w'. settle stuck results w = (Inr nuked, w')"
proof (induction stuck results arbitrary: w rule: settle.induct)
  case (3 stuck rec ok rest)
  have rest: "\<forall>(r, ok) \<in> set rest. \<exists>b. ok = Inr b" using "3.prems" by simp
  show ?case
  proof (cases ok)
    case True
    have "\<exists>nuked w'. settle stuck rest (w\<lparr>db := snd (settle_op stuck rec (db w))\<rparr>) = (Inr nuked, w')"
      by (rule "3.IH"(2)) (use rest True in simp_all)
    with True show ?thesis by (auto simp: settle_ok simp del: settle.simps)
  qed (use "3.IH"(1) rest in simp)
qed (auto simp: ret_apply)

text \<open>On a machine where everything works, so does every teardown of a pass.\<close>

lemma cooperative_teardowns:
  assumes "cooperative E"
  obtains results w1 where "pass_teardowns E (docker_down E) v now w = (Inr results, w1)"
    and "\<forall>(r, ok) \<in> set results. ok = Inr True"
proof -
  let ?m = "\<lambda>v rec. future (teardown E (docker_down E) (s_compose_path rec) v)"
  define expired where "expired = filter (expired_due now) (db w)"
  define stuck where "stuck = filter (stuck_due now) (db w)"
  have all: "\<exists>oks w'. map_eachE (?m u) rs w0 = (Inr oks, w') \<and> list_all2 (\<lambda>_ ok. ok = Inr True) rs oks"
    for u rs w0
    by (intro yieldsD yields_map_eachE yields_future[OF assms])
  obtain oks w2 where 1: "map_eachE (?m False) expired (claimed now w) = (Inr oks, w2)"
    and ok1: "list_all2 (\<lambda>_ ok. ok = Inr True) expired oks"
    using all by blast
  obtain oks' w3 where 2: "map_eachE (?m v) stuck w2 = (Inr oks', w3)"
    and ok2: "list_all2 (\<lambda>_ ok. ok = Inr True) stuck oks'"
    using all by blast
  have "pass_teardowns E (docker_down E) v now w = (Inr (zip expired oks @ zip stuck oks'), w3)"
    using 1 2 by (simp add: pass_teardowns_def teardowns_def expired_def stuck_def bindE_apply ret_apply)
  moreover have "\<forall>(r, ok) \<in> set (zip expired oks @ zip stuck oks'). ok = Inr True"
    using ok1 ok2 by (auto simp: list_all2_iff)
  ultimately show thesis by (rule that)
qed

lemma settled_due:
  assumes "\<forall>(r, ok) \<in> set results. ok = Inr True"
  shows "settled results = map fst results"
proof -
  have "filter (\<lambda>(rec, ok). ok = Inr True) results = results"
    by (rule filter_True) (use assms in auto)
  then show ?thesis by (simp add: settled_def)
qed

lemma reap_all:
  assumes uniq: "unique_ids (db w)" and coop: "cooperative E"
  shows "\<exists>w'. reap_once E (docker_down E) now_opt g v w =
    (Inr (due_rows (pass_now E now_opt w) (db w)), w')"
proof -
  define now where "now = pass_now E now_opt w"
  obtain results w1 where t: "pass_teardowns E (docker_down E) v now w = (Inr results, w1)"
    and fst: "map fst results = due_rows now (db w)"
    and run: "reap_once E (docker_down E) now_opt g v w = settle (filter (stuck_due now) (db w)) results w1"
    using docker_down.reap_once_run[OF uniq, of E v now_opt g] unfolding now_def by metis
  have ok: "\<forall>(r, ok) \<in> set results. ok = Inr True"
    using cooperative_teardowns[OF coop, of v now w] t by auto
  then have "\<forall>(r, ok) \<in> set results. \<exists>b. ok = Inr b" by auto
  then obtain nuked w' where s: "settle (filter (stuck_due now) (db w)) results w1 = (Inr nuked, w')"
    using settle_returns by blast
  from settle_nuked[OF s] settled_due[OF ok] fst have "nuked = due_rows now (db w)" by simp
  with run s show ?thesis by (simp add: now_def)
qed

text \<open>
  The sample store: a session past its expiry, and a create that began five seconds ago whose row is
  past its deadline, although the grace of 300 seconds has not passed.
\<close>

definition fresh_row :: session where
  "fresh_row = sample_row\<lparr>s_id := ''22222222'', s_status := STATUS_STARTING, s_created_at := 995,
     s_expires_at := 999, s_compose_path := ''/c/2/docker-compose.yml''\<rparr>"

lemma old_row_due: "expired_due 1000 old_row" "\<not> stuck_due 1000 old_row" "s_id old_row = ''11111111''"
  by (simp_all add: expired_due_def stuck_due_def old_row_def)

lemma fresh_row_due: "stuck_due 1000 fresh_row" "\<not> expired_due 1000 fresh_row" "s_id fresh_row = ''22222222''"
  by (simp_all add: expired_due_def stuck_due_def fresh_row_def)

lemma fresh_store: "unique_ids (db (sample_world [old_row, fresh_row]))"
  by (simp add: unique_ids_def sample_world_def old_row_due fresh_row_due)

lemma sample_reap: "\<exists>w'. reap_once sample_env (docker_down sample_env) None 300 False (sample_world [old_row])
    = (Inr [old_row], w')"
  using reap_all[OF old_store sample_cooperative, of None 300 False]
  by (simp add: sample_world_def pass_now_def sample_now old_row_due due_rows_def)

lemma reap_pass_witness:
  "\<exists>w'. reap_once sample_env (docker_down sample_env) None 300 False (sample_world [old_row])
      = (Inr [old_row], w')
    \<and> get ''11111111'' (db w') = Some (old_row\<lparr>s_status := STATUS_NUKED\<rparr>)"
proof -
  obtain w' where run: "reap_once sample_env (docker_down sample_env) None 300 False (sample_world [old_row])
      = (Inr [old_row], w')"
    using sample_reap by blast
  have "get ''11111111'' (db (sample_world [old_row])) = Some old_row"
    by (simp add: sample_world_def get_def old_row_due)
  with reap_pass[OF old_store run] run show ?thesis by (auto simp: old_row_due)
qed

text \<open>C17: A pass in which no teardown raises returns, and ends every session whose own teardown
  worked, whatever becomes of the others; in particular, when every teardown works, one pass ends
  every session that is due, a \<^verbatim>\<open>starting\<close> one as soon as it is past its deadline, whatever grace is
  given.\<close>

theorem reap_complete:
  assumes "unique_ids (db w)"
    and "pass_teardowns E (docker_down E) v (pass_now E now_opt w) w = (Inr results, w1)"
    and "\<forall>(r, ok) \<in> set results. \<exists>b. ok = Inr b"
  shows "\<exists>nuked w'. reap_once E (docker_down E) now_opt g v w = (Inr nuked, w')
     \<and> (\<forall>r. (r, Inr True) \<in> set results \<longrightarrow>
          r \<in> set nuked \<and> get (s_id r) (db w') = Some (r\<lparr>s_status := STATUS_NUKED\<rparr>))
     \<and> ((\<forall>(r, ok) \<in> set results. ok = Inr True) \<longrightarrow>
          (\<forall>r \<in> set (db w). expired_due (pass_now E now_opt w) r \<or> stuck_due (pass_now E now_opt w) r \<longrightarrow>
             r \<in> set nuked \<and> get (s_id r) (db w') = Some (r\<lparr>s_status := STATUS_NUKED\<rparr>)))"
proof -
  have "\<exists>nuked w'. reap_once E (docker_down E) now_opt g v w = (Inr nuked, w')"
    by (rule docker_down.reap_once_run[OF assms(1), of E v now_opt g])
      (use settle_returns[OF assms(3)] assms(2) in auto)
  then obtain nuked w' where run: "reap_once E (docker_down E) now_opt g v w = (Inr nuked, w')" by blast
  obtain nuked: "nuked = settled results" and fst: "map fst results = due_rows (pass_now E now_opt w) (db w)"
    and get: "\<And>sid. get sid (db w') = map_option
       (\<lambda>r. if sid \<in> s_id ` set nuked then r\<lparr>s_status := STATUS_NUKED\<rparr>
            else if expired_due (pass_now E now_opt w) r then r\<lparr>s_status := STATUS_EXPIRED\<rparr> else r)
       (get sid (db w))"
    by (rule docker_down.reap_once_get[OF assms(1) run]) (use assms(2) in auto)
  have ended: "r \<in> set nuked \<and> get (s_id r) (db w') = Some (r\<lparr>s_status := STATUS_NUKED\<rparr>)"
    if "(r, Inr True) \<in> set results" for r
  proof -
    have "r \<in> set nuked" using that by (force simp: nuked settled_def)
    moreover have "r \<in> set (map fst results)" using that by force
    then have "r \<in> set (db w)" by (simp add: fst due_rows_set)
    ultimately show ?thesis using get[of "s_id r"] get_member[OF assms(1)] by simp
  qed
  have "\<forall>r \<in> set (due_rows (pass_now E now_opt w) (db w)). (r, Inr True) \<in> set results"
    if "\<forall>(r, ok) \<in> set results. ok = Inr True"
    using that unfolding fst[symmetric] by auto
  with run ended show ?thesis by (auto simp: due_rows_set)
qed

lemma reap_complete_witness:
  "\<exists>nuked w'. reap_once sample_env (docker_down sample_env) None 300 False (sample_world [old_row, fresh_row])
      = (Inr nuked, w') \<and> old_row \<in> set nuked
    \<and> get (s_id fresh_row) (db w') = Some (fresh_row\<lparr>s_status := STATUS_NUKED\<rparr>)"
proof -
  let ?w = "sample_world [old_row, fresh_row]"
  have now: "pass_now sample_env None ?w = 1000" by (simp add: pass_now_def sample_now)
  obtain results w1 where t: "pass_teardowns sample_env (docker_down sample_env) False (pass_now sample_env None ?w) ?w
      = (Inr results, w1)" and ok: "\<forall>(r, ok) \<in> set results. ok = Inr True"
    by (rule cooperative_teardowns[OF sample_cooperative])
  then have "\<forall>(r, ok) \<in> set results. \<exists>b. ok = Inr b" by auto
  from reap_complete[OF fresh_store t this, of 300] ok show ?thesis
    unfolding now by (auto simp: sample_world_def old_row_due fresh_row_due)
qed

text \<open>A teardown of a row asks docker to take it down, unless its compose file is gone.\<close>

definition requests :: "event \<Rightarrow> ('x world, 'a) prog \<Rightarrow> bool" where
  "requests ev m \<longleftrightarrow> (\<forall>w. \<exists>evs. trace (snd (m w)) = trace w @ evs \<and> ev \<in> set evs)"

lemma requestsD: "requests ev m \<Longrightarrow> m w = (r, w') \<Longrightarrow> \<exists>evs. trace w' = trace w @ evs \<and> ev \<in> set evs"
  by (metis requests_def snd_conv)

lemma adds_future: "adds P m \<Longrightarrow> adds P (future m)"
  unfolding adds_def future_def by (auto split: prod.split) (metis snd_conv)

lemma adds_any_down: "adds (\<lambda>_. True) (docker_down E path v)"
  unfolding docker_down_def down_session_def compose_def run_proc_def
  by (intro adds_intros) (auto intro!: adds_intros)

lemma adds_any_teardown: "adds (\<lambda>_. True) (teardown E (docker_down E) path v)"
  unfolding teardown_def path_exists_def
  by (intro adds_intros adds_catchE_cond[where Q = "\<lambda>_. True"] adds_any_down)
    (auto simp: raises_def split: exn.split intro!: adds_intros adds_any_down
      adds_catchE_cond[where Q = "\<lambda>_. True"])

lemma requests_teardown:
  assumes "\<forall>x. e_exists E path x = Inr True"
  shows "requests (Ran (down_call path v)) (future (teardown E (docker_down E) path v))"
  unfolding requests_def
proof
  fix w
  define m where "m = thenE (docker_down E path (Some v)) (ret True)"
  define h where "h = (\<lambda>e. case e of
      TypeError _ \<Rightarrow> catchE (thenE (docker_down E path None) (ret True)) (\<lambda>_. ret False)
    | _ \<Rightarrow> ret False)"
  have t: "teardown E (docker_down E) path v w = catchE m h w"
    using assms unfolding m_def h_def by (simp add: teardown_def path_exists_def os_read_def bindE_apply)
  obtain x w1 where m: "m w = (x, w1)" by fastforce
  then have tr: "trace w1 = trace w @ [Ran (down_call path v)]"
    by (auto simp: m_def thenE_apply docker_down_run ret_apply split: prod.splits sum.splits if_splits)
  have h: "adds (\<lambda>_. True) (h e)" for e
    unfolding h_def by (auto simp: raises_def split: exn.split intro!: adds_intros adds_any_down
      adds_catchE_cond[where Q = "\<lambda>_. True"])
  obtain r w2 where run: "catchE m h w = (r, w2)" by fastforce
  have "\<exists>evs. trace w2 = trace w1 @ evs"
    using run m addsD[OF h] by (cases x) (fastforce simp: catchE_apply)+
  then show "\<exists>evs. trace (snd (future (teardown E (docker_down E) path v) w)) = trace w @ evs
      \<and> Ran (down_call path v) \<in> set evs"
    by (auto simp: future_def t run tr)
qed

lemma requests_bindE: "requests ev m \<Longrightarrow> (\<And>a. adds (\<lambda>_. True) (n a)) \<Longrightarrow> requests ev (bindE m n)"
  unfolding requests_def
proof
  fix w assume m: "\<forall>w. \<exists>evs. trace (snd (m w)) = trace w @ evs \<and> ev \<in> set evs" and n: "\<And>a. adds (\<lambda>_. True) (n a)"
  obtain x w1 where mw: "m w = (x, w1)" by fastforce
  with m obtain evs where evs: "trace w1 = trace w @ evs" "ev \<in> set evs" by (metis snd_conv)
  show "\<exists>evs. trace (snd (bindE m n w)) = trace w @ evs \<and> ev \<in> set evs"
  proof (cases x)
    case (Inr a)
    obtain r w2 where nw: "n a w1 = (r, w2)" by fastforce
    with addsD[OF n nw] evs mw Inr show ?thesis by (auto simp: bindE_apply)
  qed (use evs mw in \<open>simp add: bindE_apply\<close>)
qed

lemma requests_after:
  assumes "adds (\<lambda>_. True) m" and "\<And>w. \<exists>a w'. m w = (Inr a, w')" and "\<And>a. requests ev (n a)"
  shows "requests ev (bindE m n)"
  unfolding requests_def
proof
  fix w
  obtain a w1 where m: "m w = (Inr a, w1)" using assms(2) by blast
  obtain r w2 where n: "n a w1 = (r, w2)" by fastforce
  from addsD[OF assms(1) m] requestsD[OF assms(3) n]
  show "\<exists>evs. trace (snd (bindE m n w)) = trace w @ evs \<and> ev \<in> set evs"
    by (auto simp: bindE_apply m n)
qed

lemma future_returns: "\<exists>a w'. future m w = (Inr a, w')"
  by (simp add: future_def split: prod.split)

lemma requests_futures:
  assumes "r \<in> set rs" and "requests ev (future (m r))" and "\<And>r. adds (\<lambda>_. True) (m r)"
  shows "requests ev (map_eachE (\<lambda>r. future (m r)) rs)"
  using assms(1)
proof (induction rs)
  case (Cons a rs)
  have rest: "adds (\<lambda>_. True) (bindE (map_eachE (\<lambda>r. future (m r)) rs) (\<lambda>ys. ret (y # ys)))" for y
    by (intro adds_intros adds_future assms(3))
  show ?case
  proof (cases "a = r")
    case True
    with assms(2) rest show ?thesis by (auto intro: requests_bindE)
  next
    case False
    with Cons have "requests ev (map_eachE (\<lambda>r. future (m r)) rs)" by simp
    then have "requests ev (bindE (map_eachE (\<lambda>r. future (m r)) rs) (\<lambda>ys. ret (y # ys)))" for y
      by (rule requests_bindE) (intro adds_intros)
    with False show ?thesis
      unfolding map_eachE.simps
      by (intro requests_after[OF adds_future[OF assms(3)] future_returns])
  qed
qed simp

lemma requests_teardowns:
  assumes "r \<in> set (expired @ stuck)" and "\<forall>x. e_exists E (s_compose_path r) x = Inr True"
  shows "requests (Ran (down_call (s_compose_path r) False)) (teardowns E (docker_down E) False expired stuck)"
proof -
  let ?ev = "Ran (down_call (s_compose_path r) False)"
  let ?ms = "map_eachE (\<lambda>rec. future (teardown E (docker_down E) (s_compose_path rec) False))"
  have each: "requests ?ev (?ms rs)" if "r \<in> set rs" for rs :: "session list"
    using that by (intro requests_futures[where r = r] requests_teardown assms(2) adds_any_teardown)
  have adds: "adds (\<lambda>_. True) (?ms rs)" for rs :: "session list" by (intro adds_intros adds_future adds_any_teardown)
  have returns: "\<exists>a w'. ?ms rs w = (Inr a, w')" for rs :: "session list" and w
    using futures_return[of "\<lambda>rec. teardown E (docker_down E) (s_compose_path rec) False" rs w] by blast
  show ?thesis
  proof (cases "r \<in> set expired")
    case True
    then show ?thesis unfolding teardowns_def by (intro requests_bindE each adds_intros adds)
  next
    case False
    with assms(1) have "r \<in> set stuck" by simp
    then show ?thesis
      unfolding teardowns_def by (intro requests_after[OF adds returns] requests_bindE each adds_intros)
  qed
qed

lemma adds_settle: "adds P (settle stuck results)"
  by (induction stuck results rule: settle.induct) (auto intro!: adds_intros)

lemma due_again:
  assumes "unique_ids (db w)" and "r \<in> set (due_rows (pass_now E now_opt w) (db w))"
    and "\<forall>x. e_exists E (s_compose_path r) x = Inr True"
    and run: "reap_once E (docker_down E) now_opt g False w = (res, w')"
  shows "\<exists>evs. trace w' = trace w @ evs \<and> Ran (down_call (s_compose_path r) False) \<in> set evs"
proof -
  define now where "now = pass_now E now_opt w"
  obtain results w1 where t: "pass_teardowns E (docker_down E) False now w = (Inr results, w1)"
    and settle: "reap_once E (docker_down E) now_opt g False w
      = settle (filter (stuck_due now) (db w)) results w1"
    using docker_down.reap_once_run[OF assms(1), of E False now_opt g] unfolding now_def by metis
  have "r \<in> set (filter (expired_due now) (db w) @ filter (stuck_due now) (db w))"
    using assms(2) by (simp add: due_rows_def now_def)
  from requestsD[OF requests_teardowns[OF this assms(3)] t[unfolded pass_teardowns_def]]
  have "\<exists>evs. trace w1 = trace w @ evs \<and> Ran (down_call (s_compose_path r) False) \<in> set evs"
    by (simp add: claimed_def)
  moreover obtain evs' where "trace w' = trace w1 @ evs'"
    using addsD[OF adds_settle[of "\<lambda>_. True"] run[unfolded settle]] by auto
  ultimately show ?thesis by auto
qed

text \<open>C18: A session that was due but whose teardown failed is not ended: it is left as it was, but
  for a ready one, which is marked expired. Every later pass asks docker again to take it down, as
  long as its row is as the pass left it and its compose file is there.\<close>

theorem reap_retries:
  assumes "unique_ids (db w)"
    and "reap_once E (docker_down E) now_opt g v w = (Inr nuked, w')"
    and "pass_teardowns E (docker_down E) v (pass_now E now_opt w) w = (Inr results, w1)"
    and "(r, ok) \<in> set results" and "ok \<noteq> Inr True"
    and "unique_ids (db w2)" and "get (s_id r) (db w2) = get (s_id r) (db w')"
    and "pass_now E now_opt w \<le> later" and "\<forall>x. e_exists E' (s_compose_path r) x = Inr True"
    and "reap_once E' (docker_down E') (Some later) g' False w2 = (res, w3)"
  shows "r \<notin> set nuked
     \<and> get (s_id r) (db w') = Some (if expired_due (pass_now E now_opt w) r
         then r\<lparr>s_status := STATUS_EXPIRED\<rparr> else r)
     \<and> (\<exists>evs. trace w3 = trace w2 @ evs \<and> Ran (down_call (s_compose_path r) False) \<in> set evs)"
proof -
  obtain nuked: "nuked = settled results" and fst: "map fst results = due_rows (pass_now E now_opt w) (db w)"
    and get: "\<And>sid. get sid (db w') = map_option
       (\<lambda>r. if sid \<in> s_id ` set nuked then r\<lparr>s_status := STATUS_NUKED\<rparr>
            else if expired_due (pass_now E now_opt w) r then r\<lparr>s_status := STATUS_EXPIRED\<rparr> else r)
       (get sid (db w))"
    by (rule docker_down.reap_once_get[OF assms(1,2)]) (use assms(3) in auto)
  define r1 where "r1 = (if expired_due (pass_now E now_opt w) r then r\<lparr>s_status := STATUS_EXPIRED\<rparr> else r)"
  have "r \<in> set (map fst results)" using assms(4) by force
  then have r: "r \<in> set (db w)"
    and due: "expired_due (pass_now E now_opt w) r \<or> stuck_due (pass_now E now_opt w) r"
    by (simp_all add: fst due_rows_set)
  have kept: "s_id r \<notin> s_id ` set nuked"
  proof
    assume "s_id r \<in> s_id ` set nuked"
    then obtain r' where r': "(r', Inr True) \<in> set results" "s_id r' = s_id r"
      by (auto simp: nuked settled_def)
    have "inj_on (\<lambda>x. s_id (fst x)) (set results)"
      using distinct_due_rows[OF assms(1), of "pass_now E now_opt w"]
      by (simp add: fst[symmetric] distinct_map comp_inj_on_iff comp_def)
    from inj_onD[OF this _ r'(1) assms(4)] r'(2) have "(r', Inr True) = (r, ok)" by simp
    with assms(5) show False by simp
  qed
  with get[of "s_id r"] get_member[OF assms(1) r] have row: "get (s_id r) (db w') = Some r1"
    by (simp add: r1_def)
  with assms(7) have "r1 \<in> set (db w2)" by (auto dest: get_Some)
  moreover have "expired_due later r1 \<or> stuck_due later r1"
    using due assms(8) by (auto simp: r1_def expired_due_def stuck_due_def)
  ultimately have "r1 \<in> set (due_rows (pass_now E' (Some later) w2) (db w2))"
    by (simp add: due_rows_set pass_now_def)
  moreover have path: "s_compose_path r1 = s_compose_path r" by (simp add: r1_def)
  ultimately show ?thesis
    using due_again[OF assms(6) _ _ assms(10), of r1] assms(9) kept row by (auto simp: r1_def)
qed

text \<open>A daemon that refuses to take the sample session down.\<close>

lemma broken_teardown: "\<exists>w'. future (teardown broken_env (docker_down broken_env) path v) w = (Inr (Inr False), w')"
  by (simp add: future_def teardown_def path_exists_def os_read_def bindE_apply catchE_apply thenE_apply
      docker_down_run broken_env_def sample_env_def ret_apply)

lemma broken_pass: "\<exists>w1. pass_teardowns broken_env (docker_down broken_env) False 1000 (sample_world [old_row])
    = (Inr [(old_row, Inr False)], w1)"
proof -
  let ?w = "claimed 1000 (sample_world [old_row])"
  obtain w1 where "future (teardown broken_env (docker_down broken_env) (s_compose_path old_row) False) ?w
      = (Inr (Inr False), w1)"
    using broken_teardown by blast
  then show ?thesis
    by (simp add: pass_teardowns_def teardowns_def sample_world_def old_row_due bindE_apply ret_apply)
qed

lemma broken_reap: "\<exists>w'. reap_once broken_env (docker_down broken_env) (Some 1000) 300 False
    (sample_world [old_row]) = (Inr [], w')"
proof -
  let ?w = "sample_world [old_row]"
  have now: "pass_now broken_env (Some 1000) ?w = 1000" by (simp add: pass_now_def)
  obtain results w1 where "pass_teardowns broken_env (docker_down broken_env) False 1000 ?w = (Inr results, w1)"
    and "reap_once broken_env (docker_down broken_env) (Some 1000) 300 False ?w
      = settle (filter (stuck_due 1000) (db ?w)) results w1"
    using docker_down.reap_once_run[OF old_store, of broken_env False "Some 1000" 300] unfolding now by metis
  with broken_pass show ?thesis by (auto simp: ret_apply)
qed

lemma reap_retries_witness:
  "\<exists>w' evs. reap_once broken_env (docker_down broken_env) (Some 1000) 300 False
      (sample_world [old_row]) = (Inr [], w')
    \<and> get (s_id old_row) (db w') = Some (old_row\<lparr>s_status := STATUS_EXPIRED\<rparr>)
    \<and> trace (snd (reap_once sample_env (docker_down sample_env) (Some 1060) 300 False
         (sample_world [old_row\<lparr>s_status := STATUS_EXPIRED\<rparr>]))) = evs
    \<and> Ran (down_call (s_compose_path old_row) False) \<in> set evs"
proof -
  let ?w2 = "sample_world [old_row\<lparr>s_status := STATUS_EXPIRED\<rparr>]"
  obtain w' where run: "reap_once broken_env (docker_down broken_env) (Some 1000) 300 False
      (sample_world [old_row]) = (Inr [], w')"
    using broken_reap by blast
  have now: "pass_now broken_env (Some 1000) (sample_world [old_row]) = 1000" by (simp add: pass_now_def)
  obtain w1 where t: "pass_teardowns broken_env (docker_down broken_env) False
      (pass_now broken_env (Some 1000) (sample_world [old_row])) (sample_world [old_row])
      = (Inr [(old_row, Inr False)], w1)"
    using broken_pass unfolding now by blast
  obtain res w3 where later: "reap_once sample_env (docker_down sample_env) (Some 1060) 300 False ?w2 = (res, w3)"
    by fastforce
  have row: "get (s_id old_row) (db w') = Some (old_row\<lparr>s_status := STATUS_EXPIRED\<rparr>)"
    by (rule docker_down.reap_once_get[OF old_store run, unfolded now])
      (simp add: old_row_due sample_world_def get_def)
  have "unique_ids (db ?w2)" by (simp add: unique_ids_def sample_world_def)
  moreover have "get (s_id old_row) (db ?w2) = get (s_id old_row) (db w')"
    unfolding row by (simp add: get_def sample_world_def)
  moreover have "\<forall>x. e_exists sample_env (s_compose_path old_row) x = Inr True"
    using sample_cooperative by (simp add: cooperative_def)
  ultimately have "\<exists>evs. trace w3 = trace ?w2 @ evs \<and> Ran (down_call (s_compose_path old_row) False) \<in> set evs"
    using reap_retries[OF old_store run t, of old_row "Inr False" ?w2 1060 sample_env 300 res w3] later
    by (simp add: now)
  with run row later show ?thesis by (simp add: sample_world_def)
qed

text \<open>A \<^verbatim>\<open>docker compose down\<close> that leaves the volumes alone.\<close>

definition plain_down :: "event \<Rightarrow> bool" where
  "plain_down ev \<longleftrightarrow> (\<exists>path. ev = Ran \<lparr>p_argv = [''docker'', ''compose'', ''-f'', path, ''down''],
     p_env = None, p_stdin = None, p_timeout = 120\<rparr>)"

definition not_type_error :: "exn \<Rightarrow> bool" where
  "not_type_error e \<longleftrightarrow> (\<forall>m. e \<noteq> TypeError m)"

lemma adds_plain_down: "adds plain_down (docker_down E path (Some False))"
  unfolding docker_down_def down_session_def compose_def run_proc_def
  by (intro adds_intros) (auto simp: plain_down_def intro!: adds_intros)

lemma adds_teardown:
  assumes "\<forall>p x e. fst (e_run E p x) = Inl e \<longrightarrow> not_type_error e"
  shows "adds plain_down (teardown E (docker_down E) path False)"
proof -
  have "raises (docker_down E path (Some False)) not_type_error"
    unfolding docker_down_def down_session_def compose_def run_proc_def
    by (intro raises_intros raises_os_call) (use assms in \<open>auto simp: not_type_error_def\<close>)
  then have "raises (thenE (docker_down E path (Some False)) (ret True)) not_type_error"
    by (intro raises_intros)
  then show ?thesis
    unfolding teardown_def path_exists_def
    by (intro adds_intros adds_catchE_cond[where Q = not_type_error] adds_plain_down)
      (auto simp: not_type_error_def split: exn.split intro: adds_intros)
qed

text \<open>C19: With its default arguments, as the background loop runs it, a pass of the reaper never
  destroys a volume: the only requests it makes are \<^verbatim>\<open>docker compose down\<close> without \<^verbatim>\<open>-v\<close>.\<close>

theorem reap_keeps_volumes:
  assumes "\<forall>p x e. fst (e_run E p x) = Inl e \<longrightarrow> not_type_error e"
    and "reap_once E (docker_down E) now_opt g False w = (r, w')"
  shows "\<exists>evs. trace w' = trace w @ evs \<and> (\<forall>ev \<in> set evs. plain_down ev)"
proof -
  have "adds plain_down (reap_once E (docker_down E) now_opt g False)"
    unfolding reap_once_def now_s_def
    by (intro adds_intros adds_future adds_teardown[OF assms(1)] adds_settle)
      (auto split: option.split intro: adds_intros)
  then show ?thesis using assms(2) by (rule addsD)
qed

lemma reap_keeps_volumes_witness:
  "\<exists>w' evs. reap_once sample_env (docker_down sample_env) None 300 False (sample_world [old_row])
      = (Inr [old_row], w') \<and> trace w' = evs \<and> (\<forall>ev \<in> set evs. plain_down ev)"
proof -
  obtain w' where run: "reap_once sample_env (docker_down sample_env) None 300 False (sample_world [old_row])
      = (Inr [old_row], w')"
    using sample_reap by blast
  have "\<forall>p x e. fst (e_run sample_env p x) = Inl e \<longrightarrow> not_type_error e"
    by (simp add: sample_env_def)
  from reap_keeps_volumes[OF this run] run show ?thesis by (auto simp: sample_world_def)
qed

end
