(* ===== verification/Auth.thy ===== *)
theory Auth
  imports Crypto
begin

text \<open>
  \<^verbatim>\<open>api/auth.py\<close>: the three checks a request may have to pass (Cloudflare Access token, API
  key, webhook signature) and the cache of the JWKS client. The JWT library is the parameter
  \<open>decode\<close>, which fetches the signing key and verifies the token for the algorithms, the audience
  and the required claims it is given.
\<close>

definition JWKS_CACHE_TTL_MS :: nat where
  "JWKS_CACHE_TTL_MS = 3600 * 1000"

text \<open>The claims are JSON values; a missing claim is \<^const>\<open>JNull\<close>.\<close>

record access_identity =
  ai_email :: json
  ai_sub :: json
  ai_raw :: "(string \<times> json) list"

section \<open>The cache of the JWKS client\<close>

text \<open>\<open>'c\<close> is the library's client object; times are milliseconds of the monotonic clock.\<close>

record 'c jwks_cache =
  j_client :: "'c option"
  j_url :: "string option"
  j_fetched_at :: nat

definition empty_jwks :: "'c jwks_cache" where
  "empty_jwks = \<lparr>j_client = None, j_url = None, j_fetched_at = 0\<rparr>"

definition jwks_get ::
    "(string \<Rightarrow> nat \<Rightarrow> 'c) \<Rightarrow> nat \<Rightarrow> string \<Rightarrow> 'c jwks_cache \<Rightarrow> 'c \<times> 'c jwks_cache" where
  "jwks_get new_client now url cache =
     (let stale = now > j_fetched_at cache + JWKS_CACHE_TTL_MS in
      case j_client cache of
        Some c \<Rightarrow>
          if j_url cache \<noteq> Some url \<or> stale
          then (new_client url now,
                \<lparr>j_client = Some (new_client url now), j_url = Some url, j_fetched_at = now\<rparr>)
          else (c, cache)
      | None \<Rightarrow>
          (new_client url now,
           \<lparr>j_client = Some (new_client url now), j_url = Some url, j_fetched_at = now\<rparr>))"

definition jwks_invalidate :: "'c jwks_cache \<Rightarrow> 'c jwks_cache" where
  "jwks_invalidate cache = empty_jwks"

section \<open>Cloudflare Access\<close>

definition claim :: "string \<Rightarrow> (string \<times> json) list \<Rightarrow> json" where
  "claim k payload = (case jget k payload of None \<Rightarrow> JNull | Some v \<Rightarrow> v)"

text \<open>The exception clauses, in the order of the source; other exceptions pass through.\<close>

definition cf_http_error :: "exn \<Rightarrow> exn" where
  "cf_http_error e =
     (case e of
        PyJWKClientConnectionError m \<Rightarrow> HTTPException 503 (''cf access jwks unreachable: '' @ m)
      | PyJWKClientError m \<Rightarrow> HTTPException 401 (''cf access token invalid: '' @ m)
      | ExpiredSignatureError _ \<Rightarrow> HTTPException 401 ''cf access token expired''
      | InvalidAudienceError _ \<Rightarrow> HTTPException 401 ''cf access token audience mismatch''
      | InvalidTokenError m \<Rightarrow> HTTPException 401 (''cf access token invalid: '' @ m)
      | _ \<Rightarrow> e)"

definition decode_cf_jwt ::
    "(string \<Rightarrow> nat \<Rightarrow> 'c) \<Rightarrow> ('c \<Rightarrow> string \<Rightarrow> string list \<Rightarrow> string \<Rightarrow> string list \<Rightarrow> exn + (string \<times> json) list) \<Rightarrow> settings \<Rightarrow> nat
      \<Rightarrow> string \<Rightarrow> ('c jwks_cache, access_identity) prog" where
  "decode_cf_jwt new_client decode s now token = (\<lambda>cache.
     if token = [] then (Inl (HTTPException 401 ''missing Cf-Access-Jwt-Assertion''), cache)
     else
       (case jwks_get new_client now (the (sandbox_cf_access_certs_url s)) cache of
          (client, cache') \<Rightarrow>
            (case decode client token [''RS256''] (the (sandbox_cf_access_aud s)) [''exp'', ''iat''] of
               Inl e \<Rightarrow> (Inl (cf_http_error e), cache')
             | Inr payload \<Rightarrow>
                 (Inr \<lparr>ai_email = claim ''email'' payload, ai_sub = claim ''sub'' payload,
                       ai_raw = payload\<rparr>, cache'))))"

definition enforce_cf_access ::
    "(string \<Rightarrow> nat \<Rightarrow> 'c) \<Rightarrow> ('c \<Rightarrow> string \<Rightarrow> string list \<Rightarrow> string \<Rightarrow> string list \<Rightarrow> exn + (string \<times> json) list) \<Rightarrow> settings \<Rightarrow> nat
      \<Rightarrow> string option \<Rightarrow> ('c jwks_cache, access_identity) prog" where
  "enforce_cf_access new_client decode s now cf_jwt =
     (if \<not> cf_access_enabled s then ret \<lparr>ai_email = JNull, ai_sub = JNull, ai_raw = []\<rparr>
      else if sandbox_test_mode s
      then ret \<lparr>ai_email = JStr ''test@local'', ai_sub = JStr ''test'', ai_raw = []\<rparr>
      else decode_cf_jwt new_client decode s now (case cf_jwt of None \<Rightarrow> [] | Some t \<Rightarrow> t))"

section \<open>API key and webhook signature\<close>

definition enforce_api_key :: "settings \<Rightarrow> string option \<Rightarrow> exn + unit" where
  "enforce_api_key s api_key =
     (if sandbox_test_mode s then Inr ()
      else if \<not> truthy api_key \<or> \<not> constant_time_eq (the api_key) (sandbox_api_key s)
      then Inl (HTTPException 401 ''invalid or missing API key'')
      else Inr ())"

definition webhook_signature_for :: "string \<Rightarrow> bytes \<Rightarrow> string" where
  "webhook_signature_for secret body = ''sha256='' @ hex (hmac_sha256 (utf8_encode secret) body)"

text \<open>\<^verbatim>\<open>auth.verify_webhook_signature\<close>, the variant whose header may be missing.\<close>

definition verify_webhook_header :: "string \<Rightarrow> bytes \<Rightarrow> string option \<Rightarrow> bool" where
  "verify_webhook_header secret body header =
     (if \<not> truthy header then False
      else constant_time_eq (webhook_signature_for secret body) (the header))"

definition require_webhook_signature :: "settings \<Rightarrow> bytes \<Rightarrow> string option \<Rightarrow> exn + bytes" where
  "require_webhook_signature s body sig =
     (if sandbox_test_mode s then Inr []
      else if \<not> verify_webhook_header (sandbox_webhook_secret s) body sig
      then Inl (HTTPException 401 ''invalid or missing webhook signature'')
      else Inr body)"

lemma verify_webhook_header_iff:
  "verify_webhook_header secret body header \<longleftrightarrow> header = Some (webhook_signature_for secret body)"
  by (auto simp: verify_webhook_header_def truthy_def webhook_signature_for_def
      split: option.splits if_splits)

lemma webhook_signature_for_eq: "webhook_signature_for = webhook_signature"
  by (simp add: fun_eq_iff webhook_signature_for_def webhook_signature_def)

end
