(* ===== verification/Http.thy ===== *)
theory Http
  imports Reaper Auth
begin

text \<open>
  \<^verbatim>\<open>api/main.py\<close>: the routes. A handler is a program that returns a response or raises; FastAPI
  turns an \<^verbatim>\<open>HTTPException\<close> into its status and any other exception into 500 (\<open>status_code\<close>).
  The dependencies of a route run before its parameters are validated, in their order (\<open>guarded\<close>).
  Bodies are JSON values that were decoded; times in answers stay epoch seconds.
\<close>

section \<open>Responses\<close>

datatype response =
    Json (code: int) (content: json)
  | Raw (code: int) (raw: bytes)
  | Plain (code: int) (plain: string)

text \<open>The status the client sees.\<close>

definition status_code :: "exn + response \<Rightarrow> int" where
  "status_code r = (case r of
       Inr resp \<Rightarrow> code resp
     | Inl e \<Rightarrow> (case e of HTTPException c _ \<Rightarrow> c | _ \<Rightarrow> 500))"

definition bad_request :: "string \<Rightarrow> exn" where
  "bad_request m = HTTPException 422 m"

section \<open>Health, readiness, metrics\<close>

definition healthz :: "('x world, response) prog" where
  "healthz = ret (Json 200 (JObj [(''status'', JStr ''ok'')]))"

definition docker_info :: proc where
  "docker_info = \<lparr>p_argv = [''docker'', ''info'', ''--format'', ''{{.ServerVersion}}''], p_env = None,
     p_stdin = None, p_timeout = 5\<rparr>"

text \<open>The probe of the docker daemon: the name of the check, whether it passed, its note.\<close>

definition docker_check :: "'x env \<Rightarrow> ('x world, string \<times> bool \<times> string) prog" where
  "docker_check E = catchE
     (bindE (getsW (\<lambda>w. e_which E ''docker'' (os w))) (\<lambda>path.
      if \<not> truthy path then ret (''docker_binary'', False, ''docker binary not on PATH'')
      else bindE (run_proc E docker_info) (\<lambda>p.
        ret (if c_returncode p = 0 then (''docker'', True, strip (c_stdout p))
             else (''docker'', False, take 200 (c_stderr p))))))
     (\<lambda>e. ret (''docker'', False, take 200 (exn_str e)))"

definition binary_check :: "'x env \<Rightarrow> string \<Rightarrow> ('x world, string \<times> bool \<times> string) prog" where
  "binary_check E bin =
     bindE (getsW (\<lambda>w. e_which E bin (os w))) (\<lambda>path.
     ret (if truthy path then (''bin_'' @ bin, True, []) else (''bin_'' @ bin, False, ''not on PATH'')))"

definition check_json :: "string \<times> bool \<times> string \<Rightarrow> string \<times> json" where
  "check_json c = (case c of (name, ok, note) \<Rightarrow>
     (name, JArr [JStr (if ok then ''ok'' else ''fail''), JStr note]))"

text \<open>Listing the sessions cannot fail in the model, so the first check always passes.\<close>

definition readyz :: "'x env \<Rightarrow> ('x world, response) prog" where
  "readyz E =
     bindE (getsW (\<lambda>w. list_all_rows (db w))) (\<lambda>_.
     bindE (docker_check E) (\<lambda>docker.
     bindE (map_eachE (binary_check E) [''mysqldump'', ''mysql'', ''mysqladmin'']) (\<lambda>bins.
     let checks = (''sqlite'', True, []) # docker # bins;
         all_ok = list_all (\<lambda>(name, ok, note). ok) checks in
     ret (Json (if all_ok then 200 else 503)
       (JObj [(''status'', JStr (if all_ok then ''ok'' else ''degraded'')),
              (''checks'', JObj (map check_json checks))])))))"

text \<open>\<^verbatim>\<open>Counter\<close>: the statuses in the order of their first row, with their counts.\<close>

definition count_by_status :: "session list \<Rightarrow> (string \<times> nat) list" where
  "count_by_status rows =
     map (\<lambda>st. (st, length (filter (\<lambda>r. s_status r = st) rows))) (rev (remdups (rev (map s_status rows))))"

text \<open>
  The generator of \<^verbatim>\<open>oldest_unused\<close>: the ages of the ready rows by the local variable \<^verbatim>\<open>now\<close>,
  which is \<open>None\<close> while it is not assigned. It is read once per ready row, never before.
\<close>

fun ages :: "int option \<Rightarrow> session list \<Rightarrow> exn + int list" where
  "ages now [] = Inr []"
| "ages now (r # rows) =
     (if s_status r \<noteq> STATUS_READY then ages now rows
      else (case now of
          None \<Rightarrow> Inl (NameError ''cannot access free variable now'')
        | Some n \<Rightarrow> (case ages now rows of
              Inl e \<Rightarrow> Inl e
            | Inr xs \<Rightarrow> Inr ((n - s_created_at r) # xs))))"

text \<open>\<^verbatim>\<open>min(..., default=0)\<close>.\<close>

definition oldest_unused :: "int option \<Rightarrow> session list \<Rightarrow> exn + int" where
  "oldest_unused now rows = (case ages now rows of
       Inl e \<Rightarrow> Inl e
     | Inr [] \<Rightarrow> Inr 0
     | Inr (x # xs) \<Rightarrow> Inr (fold min xs x))"

definition metrics_text :: "nat \<Rightarrow> (string \<times> nat) list \<Rightarrow> int \<Rightarrow> string" where
  "metrics_text n_rows by_status oldest = concat (map (\<lambda>l. l @ newline)
     ([''# HELP sqldb_sandbox_sessions_total Total sessions in store'',
       ''# TYPE sqldb_sandbox_sessions_total gauge'',
       ''sqldb_sandbox_sessions_total '' @ str_of_nat n_rows,
       ''# HELP sqldb_sandbox_sessions_by_status Sessions by status'',
       ''# TYPE sqldb_sandbox_sessions_by_status gauge'']
      @ map (\<lambda>(st, n). ''sqldb_sandbox_sessions_by_status{status='' @ dq @ st @ dq @ ''} '' @ str_of_nat n) by_status
      @ [''# HELP sqldb_sandbox_oldest_ready_seconds Age of oldest ready session'',
         ''# TYPE sqldb_sandbox_oldest_ready_seconds gauge'',
         ''sqldb_sandbox_oldest_ready_seconds '' @ str_of_int oldest]))"

text \<open>\<^verbatim>\<open>now\<close> is assigned after the generator has run, so that it runs with \<open>now\<close> unassigned.\<close>

definition metrics :: "'x env \<Rightarrow> ('x world, response) prog" where
  "metrics E =
     bindE (getsW (\<lambda>w. list_all_rows (db w))) (\<lambda>rows.
     bindE (liftE (oldest_unused None rows)) (\<lambda>oldest.
     bindE (now_s E) (\<lambda>_.
     ret (Plain 200 (metrics_text (length rows) (count_by_status rows) oldest)))))"

section \<open>Creating a session\<close>

definition category_to_http :: "(string \<times> int) list" where
  "category_to_http =
     [(''validation'', 422), (''port'', 503), (''ssh'', 502), (''dump'', 502), (''container'', 502),
      (''restore'', 502), (''grant'', 502), (''internal'', 500)]"

definition public_messages :: "(string \<times> string) list" where
  "public_messages =
     [(''port'', ''no free sandbox ports; retry later''), (''ssh'', ''could not reach the bastion''),
      (''dump'', ''prod dump failed''), (''container'', ''container startup failed''),
      (''restore'', ''restore failed''), (''grant'', ''applying permissions failed''),
      (''internal'', ''internal error'')]"

text \<open>\<^verbatim>\<open>d.get(k, default)\<close>.\<close>

definition dict_get :: "(string \<times> 'v) list \<Rightarrow> string \<Rightarrow> 'v \<Rightarrow> 'v" where
  "dict_get d k dflt = (case map_of d k of None \<Rightarrow> dflt | Some v \<Rightarrow> v)"

definition info_json :: "database_info \<Rightarrow> json" where
  "info_json d = JObj [(''name'', JStr (di_name d)), (''user'', JStr (di_user d)),
     (''password'', JStr (di_password d)),
     (''tables'', case di_tables d of None \<Rightarrow> JNull | Some ts \<Rightarrow> JArr (map JStr ts))]"

definition created_json :: "create_result \<Rightarrow> json" where
  "created_json r = JObj
     [(''session_id'', JStr (rs_session_id r)), (''api_host'', JStr (rs_api_host r)),
      (''mysql_host'', JStr (rs_mysql_host r)), (''mysql_port'', JInt (rs_mysql_port r)),
      (''expires_at'', JInt (rs_expires_at r)), (''max_extended_until'', JInt (rs_max_extended_until r)),
      (''ca_url'', JStr (rs_ca_url r)), (''databases'', JArr (map info_json (rs_databases r)))]"

definition create_error :: "string \<Rightarrow> string \<Rightarrow> response" where
  "create_error category sid = Json (dict_get category_to_http category 500)
     (JObj [(''detail'', JStr (dict_get public_messages category ''internal error'')),
            (''category'', JStr category), (''session_id'', JStr sid),
            (''hint'', JStr ''see server logs for the full error'')])"

definition create_instance ::
    "'x service \<Rightarrow> 'x env \<Rightarrow> create_request \<Rightarrow> ('x world, response) prog" where
  "create_instance S E req = catchE
     (bindE (create_session S E (cr_ticket req) (cr_dbs req)) (\<lambda>data. ret (Json 201 (created_json data))))
     (\<lambda>e. case e of
        CreateSessionError category sid m \<Rightarrow> ret (create_error category sid)
      | _ \<Rightarrow> ret (Json 500 (JObj [(''detail'', JStr ''internal error''), (''category'', JStr ''internal'')])))"

section \<open>The other routes\<close>

text \<open>\<^verbatim>\<open>SessionView(...)\<close>: the databases are read from the decrypted JSON, the status is checked.\<close>

definition view_json :: "session_view \<Rightarrow> string \<Rightarrow> database_info list \<Rightarrow> json" where
  "view_json v st infos = JObj
     [(''session_id'', JStr (vw_session_id v)), (''ticket'', JStr (vw_ticket v)),
      (''status'', JStr st), (''api_host'', JStr (vw_api_host v)),
      (''mysql_host'', JStr (vw_mysql_host v)), (''mysql_port'', JInt (vw_mysql_port v)),
      (''expires_at'', JInt (vw_expires_at v)), (''max_extended_until'', JInt (vw_max_extended_until v)),
      (''ttl_extended'', JBool (vw_ttl_extended v)), (''ca_url'', JStr (vw_ca_url v)),
      (''databases'', JArr (map info_json infos))]"

definition session_view_json :: "session_view \<Rightarrow> exn + json" where
  "session_view_json v =
     (case database_infos (vw_databases v) of
        Inl e \<Rightarrow> Inl e
      | Inr infos \<Rightarrow>
          (case status_literal (vw_status v) of
             Inl e \<Rightarrow> Inl e
           | Inr st \<Rightarrow> Inr (view_json v st infos)))"

definition get_session :: "'x service \<Rightarrow> 'x env \<Rightarrow> string \<Rightarrow> ('x world, response) prog" where
  "get_session S E sid =
     bindE (view S E sid) (\<lambda>v.
     case v of
       None \<Rightarrow> throw (HTTPException 404 ''session not found'')
     | Some v \<Rightarrow> bindE (liftE (session_view_json v)) (\<lambda>body. ret (Json 200 body)))"

definition reset_ttl_json :: "reset_result \<Rightarrow> json" where
  "reset_ttl_json r = JObj
     [(''session_id'', JStr (rr_session_id r)), (''expires_at'', JInt (rr_expires_at r)),
      (''max_extended_until'', JInt (rr_max_extended_until r)), (''reset_used'', JBool (rr_reset_used r))]"

definition reset_ttl_route :: "'x service \<Rightarrow> 'x env \<Rightarrow> string \<Rightarrow> ('x world, response) prog" where
  "reset_ttl_route S E sid = catchE
     (bindE (reset_ttl S E sid) (\<lambda>r. ret (Json 200 (reset_ttl_json r))))
     (\<lambda>e. case e of
        KeyError _ \<Rightarrow> throw (HTTPException 404 ''session not found'')
      | PermissionError m \<Rightarrow> throw (HTTPException 409 m)
      | _ \<Rightarrow> throw e)"

definition delete_json :: "string \<Rightarrow> json" where
  "delete_json sid = JObj [(''session_id'', JStr sid), (''status'', JStr ''nuked'')]"

definition delete_session :: "'x service \<Rightarrow> string \<Rightarrow> ('x world, response) prog" where
  "delete_session S sid = catchE
     (thenE (nuke S sid)
       (ret (Json 200 (delete_json sid))))
     (\<lambda>e. case e of KeyError _ \<Rightarrow> throw (HTTPException 404 ''session not found'') | _ \<Rightarrow> throw e)"

definition get_ca :: "'x env \<Rightarrow> string \<Rightarrow> ('x world, response) prog" where
  "get_ca E sid = catchE
     (bindE (ca_pem E sid) (\<lambda>pem. ret (Raw 200 pem)))
     (\<lambda>e. case e of
        KeyError _ \<Rightarrow> throw (HTTPException 404 ''session not found'')
      | FileNotFoundError _ \<Rightarrow> throw (HTTPException 410 ''tls material missing'')
      | _ \<Rightarrow> throw e)"

definition ticket_closed_json :: "string \<Rightarrow> string \<Rightarrow> string \<Rightarrow> json" where
  "ticket_closed_json ticket sid st =
     JObj [(''ticket'', JStr ticket), (''session_id'', JStr sid), (''status'', JStr st)]"

definition ticket_closed ::
    "'x service \<Rightarrow> ticket_closed_request \<Rightarrow> ('x world, response) prog" where
  "ticket_closed S req = catchE
     (bindE (nuke_by_ticket S (tc_ticket req) (tc_session_id req)) (\<lambda>st.
      ret (Json 200 (ticket_closed_json (tc_ticket req) (tc_session_id req) st))))
     (\<lambda>e. case e of
        KeyError _ \<Rightarrow> throw (HTTPException 404 ''session not found or does not belong to that ticket'')
      | _ \<Rightarrow> throw e)"

section \<open>Dependencies and parameters\<close>

text \<open>
  \<^verbatim>\<open>dependencies=[Depends(enforce_cf_access), Depends(enforce_api_key)]\<close>; \<open>cf\<close> is what the first
  check answered.
\<close>

definition guarded ::
    "settings \<Rightarrow> exn + access_identity \<Rightarrow> string option \<Rightarrow> ('w, 'a) prog \<Rightarrow> ('w, 'a) prog" where
  "guarded s cf api_key m =
     (case cf of
        Inl e \<Rightarrow> throw e
      | Inr _ \<Rightarrow> (case enforce_api_key s api_key of Inl e \<Rightarrow> throw e | Inr _ \<Rightarrow> m))"

text \<open>\<^verbatim>\<open>PathParam(..., min_length=8)\<close>.\<close>

definition with_path_id :: "string \<Rightarrow> (string \<Rightarrow> ('w, 'a) prog) \<Rightarrow> ('w, 'a) prog" where
  "with_path_id sid f =
     (if length sid < 8 then throw (bad_request ''session_id: too short'') else f sid)"

definition with_body :: "exn + 'r \<Rightarrow> ('r \<Rightarrow> ('w, 'a) prog) \<Rightarrow> ('w, 'a) prog" where
  "with_body parsed f = (case parsed of Inl e \<Rightarrow> throw (bad_request (exn_str e)) | Inr r \<Rightarrow> f r)"

text \<open>
  The requests of the API, and what is served for each. A body is the value FastAPI decoded: bytes that
  are no JSON it answers with 422 before any check, and no code of the application runs. The checks read
  the settings of the service, which are those of \<^verbatim>\<open>get_settings\<close> in the running application.
\<close>

datatype request =
    PostInstance json
  | GetSession string
  | PostResetTtl string
  | DeleteSession string
  | GetCa string

definition serve ::
    "'x service \<Rightarrow> 'x env \<Rightarrow> exn + access_identity \<Rightarrow> string option \<Rightarrow> request \<Rightarrow> ('x world, response) prog"
where
  "serve S E cf api_key req = guarded (sv_settings S) cf api_key
     (case req of
        PostInstance body \<Rightarrow> with_body (make_create_request body) (create_instance S E)
      | GetSession sid \<Rightarrow> with_path_id sid (get_session S E)
      | PostResetTtl sid \<Rightarrow> with_path_id sid (reset_ttl_route S E)
      | DeleteSession sid \<Rightarrow> with_path_id sid (delete_session S)
      | GetCa sid \<Rightarrow> with_path_id sid (get_ca E))"

text \<open>
  The webhook route. FastAPI decodes the bytes of the body before it runs the dependencies (the
  parameter \<open>decode_body\<close>, with the exception it answers bytes with that are no JSON), and validates
  it after them; the signature is checked on the same bytes.
\<close>

definition serve_webhook ::
    "(bytes \<Rightarrow> exn + json) \<Rightarrow> 'x service \<Rightarrow> bytes \<Rightarrow> string option \<Rightarrow> ('x world, response) prog" where
  "serve_webhook decode_body S raw_body sig =
     bindE (liftE (decode_body raw_body)) (\<lambda>body.
     bindE (liftE (require_webhook_signature (sv_settings S) raw_body sig)) (\<lambda>_.
     with_body (make_ticket_closed_request body) (ticket_closed S)))"

section \<open>The application\<close>

record 'x app_context =
  ctx_settings :: settings
  ctx_service :: "'x service"

definition build_context :: "'x env \<Rightarrow> 'x x509 \<Rightarrow> settings \<Rightarrow> exn + 'x app_context" where
  "build_context E X s =
     (case build_service E X s of
        Inl e \<Rightarrow> Inl e
      | Inr S \<Rightarrow> Inr \<lparr>ctx_settings = s, ctx_service = S\<rparr>)"

text \<open>
  The context an application starts with: the one it was given, or one built from the settings,
  which are loaded once (the state is the cache of \<^const>\<open>get_settings\<close>).
\<close>

definition lifespan_context ::
    "'x env \<Rightarrow> 'x x509 \<Rightarrow> 'x app_context option \<Rightarrow> exn + settings
      \<Rightarrow> (settings option, 'x app_context) prog" where
  "lifespan_context E X given load =
     (case given of
        Some ctx \<Rightarrow> ret ctx
      | None \<Rightarrow> bindE (get_settings load) (\<lambda>s. liftE (build_context E X s)))"

definition reset_for_tests :: "(settings option, unit) prog" where
  "reset_for_tests = reset_settings_cache"

text \<open>The background task \<^verbatim>\<open>lifespan\<close> starts.\<close>

definition lifespan_reaper :: "'x env \<Rightarrow> wake list \<Rightarrow> ('x world, bool) prog" where
  "lifespan_reaper E wakes = reap_loop E (docker_down E) wakes"

section \<open>What a client can rely on\<close>

lemma dict_get_http: "dict_get category_to_http c 500 \<in> {422, 500, 502, 503}"
  by (simp add: dict_get_def category_to_http_def)



text \<open>C11: What a client is told at the creation it can read again: after an answer 201, reading that
  session answers 200 with the ticket, the status ready, no extension, and the very hosts, port,
  times, CA address and databases (names, users, passwords and tables) of the first answer.\<close>

theorem post_then_get:
  assumes build: "build_service E X s = Inr S"
    and fernet: "fernet_roundtrip E (sandbox_fernet_key s)"
    and run: "create_instance S E req w = (Inr resp, w')" and created: "code resp = 201"
  shows "\<exists>told sid shown. resp = Json 201 (JObj told) \<and> jget ''session_id'' told = Some (JStr sid)
     \<and> get_session S E sid w' = (Inr (Json 200 (JObj shown)), w')
     \<and> (\<forall>k \<in> fst ` set told. jget k shown = jget k told)
     \<and> jget ''ticket'' shown = Some (JStr (cr_ticket req))
     \<and> jget ''status'' shown = Some (JStr ''ready'')
     \<and> jget ''ttl_extended'' shown = Some (JBool False)"
proof -
  obtain r w1 where c: "create_session S E (cr_ticket req) (cr_dbs req) w = (r, w1)" by fastforce
  have "dict_get category_to_http cat 500 \<noteq> 201" for cat using dict_get_http[of cat] by auto
  then obtain res where r: "r = Inr res" and resp: "resp = Json 201 (created_json res)" and "w' = w1"
    using run created c
    by (cases r) (auto simp: create_instance_def catchE_apply bindE_apply ret_apply create_error_def
        split: exn.splits)
  with c have "create_session S E (cr_ticket req) (cr_dbs req) w = (Inr res, w')" by simp
  from build fernet this show ?thesis
  proof (rule view_created)
    fix row dbs'
    assume v: "view S E (rs_session_id res) w' = (Inr (Some (view_of row dbs')), w')"
      and row: "s_id row = rs_session_id res" "s_ticket row = cr_ticket req"
        "s_status row = STATUS_READY" "s_host row = rs_api_host res"
        "s_mysql_host row = rs_mysql_host res" "s_port row = rs_mysql_port res"
        "s_expires_at row = rs_expires_at res" "s_max_extended_until row = rs_max_extended_until res"
        "s_ttl_extended row = 0" "ca_url (s_host row) (s_id row) = rs_ca_url res"
      and infos: "database_infos dbs' = Inr (rs_databases res)"
    have "get_session S E (rs_session_id res) w'
        = (Inr (Json 200 (view_json (view_of row dbs') ''ready'' (rs_databases res))), w')"
      using row(3) by (simp add: get_session_def bindE_apply v liftE_apply ret_apply
          session_view_json_def view_of_def infos status_literal_def STATUS_READY_def)
    with resp row show ?thesis
      by (simp add: created_json_def view_json_def view_of_def jget_def)
  qed
qed

lemma post_then_get_witness:
  "\<exists>told sid shown w'. create_instance sample_service sample_env
       \<lparr>cr_ticket = ''T-1'', cr_dbs = [\<lparr>spec_name = ''crm'', spec_tables = TNone\<rparr>]\<rparr> (sample_world [])
       = (Inr (Json 201 (JObj told)), w')
     \<and> get_session sample_service sample_env sid w' = (Inr (Json 200 (JObj shown)), w')
     \<and> jget ''status'' shown = Some (JStr ''ready'')"
proof -
  let ?req = "\<lparr>cr_ticket = ''T-1'', cr_dbs = [\<lparr>spec_name = ''crm'', spec_tables = TNone\<rparr>]\<rparr>"
  obtain res w' where "create_session sample_service sample_env ''T-1''
      [\<lparr>spec_name = ''crm'', spec_tables = TNone\<rparr>] (sample_world []) = (Inr res, w')"
    using sample_created by blast
  then have run: "create_instance sample_service sample_env ?req (sample_world [])
      = (Inr (Json 201 (created_json res)), w')"
    by (simp add: create_instance_def catchE_apply bindE_apply ret_apply)
  from post_then_get[OF sample_build sample_fernet(1) run] run show ?thesis by auto
qed

text \<open>C20: Outside test mode a request without the right API key, or with an empty one, gets 401,
  whatever it asks for, and nothing happens; with a bad Cloudflare token it fails even before.\<close>

theorem no_key_no_effect:
  assumes "\<not> sandbox_test_mode (sv_settings S)"
    and "api_key \<noteq> Some (sandbox_api_key (sv_settings S)) \<or> sandbox_api_key (sv_settings S) = []"
  shows "serve S E cf api_key req w =
     (Inl (case cf of Inl e \<Rightarrow> e | Inr _ \<Rightarrow> HTTPException 401 ''invalid or missing API key''), w)"
  using assms
  by (auto simp: serve_def guarded_def enforce_api_key_def truthy_def throw_apply
      split: sum.split option.splits if_splits)

lemma no_key_no_effect_witness:
  "serve sample_service sample_env (Inr \<lparr>ai_email = JNull, ai_sub = JNull, ai_raw = []\<rparr>) (Some ''kez'')
      (DeleteSession ''11111111'') (sample_world [sample_row])
    = (Inl (HTTPException 401 ''invalid or missing API key''), sample_world [sample_row])"
  using no_key_no_effect[of sample_service "Some ''kez''" sample_env
      "Inr \<lparr>ai_email = JNull, ai_sub = JNull, ai_raw = []\<rparr>" "DeleteSession ''11111111''"
      "sample_world [sample_row]"]
  by (simp add: sample_sv sample_settings_def)

text \<open>C21: Outside test mode the webhook acts only on a body that carries its own HMAC-SHA256 under
  the shared secret; otherwise nothing happens and the answer is 401, unless FastAPI has refused
  the bytes already.\<close>

theorem unsigned_webhook_no_effect:
  assumes "\<not> sandbox_test_mode (sv_settings S)"
    and "sig \<noteq> Some (webhook_signature (sandbox_webhook_secret (sv_settings S)) raw_body)"
  shows "serve_webhook decode_body S raw_body sig w
     = (Inl (case decode_body raw_body of
          Inl e \<Rightarrow> e | Inr _ \<Rightarrow> HTTPException 401 ''invalid or missing webhook signature''), w)"
  using assms
  by (simp add: serve_webhook_def require_webhook_signature_def verify_webhook_header_iff
      webhook_signature_for_eq bindE_apply liftE_apply split: sum.split)

lemma unsigned_webhook_no_effect_witness:
  "serve_webhook (\<lambda>_. Inr JNull) sample_service [1, 2] None (sample_world [sample_row])
     = (Inl (HTTPException 401 ''invalid or missing webhook signature''), sample_world [sample_row])"
  using unsigned_webhook_no_effect[of sample_service None "[1, 2]" "\<lambda>_. Inr JNull" "sample_world [sample_row]"]
  by (simp add: sample_sv sample_settings_def)

text \<open>C23: A body that fails validation is answered with 422 and changes nothing; the service is
  called only with a valid request: a well-formed ticket, one to ten databases with distinct valid
  names, and distinct valid table names in each.\<close>

theorem invalid_body_no_effect:
  assumes "enforce_api_key (sv_settings S) api_key = Inr ()"
  shows "case make_create_request body of
       Inl e \<Rightarrow> serve S E (Inr i) api_key (PostInstance body) w = (Inl (bad_request (exn_str e)), w)
     | Inr req \<Rightarrow> valid_request req
         \<and> serve S E (Inr i) api_key (PostInstance body) w = create_instance S E req w"
  using assms
  by (simp add: serve_def guarded_def with_body_def throw_apply make_create_request_valid split: sum.split)

lemma invalid_body_no_effect_witness:
  "serve sample_service sample_env (Inr \<lparr>ai_email = JNull, ai_sub = JNull, ai_raw = []\<rparr>) (Some ''key'')
      (PostInstance JNull) (sample_world []) = (Inl (bad_request ''an object is required''), sample_world [])"
  using invalid_body_no_effect[where S = sample_service and api_key = "Some ''key''" and body = JNull
      and E = sample_env and i = "\<lparr>ai_email = JNull, ai_sub = JNull, ai_raw = []\<rparr>"
      and w = "sample_world []"]
  by (simp add: make_create_request_def enforce_api_key_def sample_sv sample_settings_def truthy_def)

lemma ages_unbound:
  "ages None rows = (if \<exists>r \<in> set rows. s_status r = STATUS_READY
     then Inl (NameError ''cannot access free variable now'') else Inr [])"
  by (induction rows) auto

lemma ages_bound:
  "ages (Some n) rows = Inr (map (\<lambda>r. n - s_created_at r) (filter (\<lambda>r. s_status r = STATUS_READY) rows))"
  by (induction rows) auto

lemma Min_ages:
  assumes "finite S" and "S \<noteq> {}"
  shows "Min ((\<lambda>r. n - c r) ` S) = n - Max (c ` S :: int set)"
proof (rule Min_eqI)
  show "n - Max (c ` S) \<in> (\<lambda>r. n - c r) ` S"
  proof -
    have "Max (c ` S) \<in> c ` S" using assms by (intro Max_in) simp_all
    then show ?thesis by auto
  qed
next
  fix y assume "y \<in> (\<lambda>r. n - c r) ` S"
  then obtain r where "r \<in> S" "y = n - c r" by blast
  moreover from this have "c r \<le> Max (c ` S)" using assms by simp
  ultimately show "n - Max (c ` S) \<le> y" by simp
qed (use assms in simp)

lemma oldest_bound:
  "oldest_unused (Some n) rows = Inr (let ready = {r \<in> set rows. s_status r = STATUS_READY} in
     if ready = {} then 0 else n - Max (s_created_at ` ready))"
proof (cases "filter (\<lambda>r. s_status r = STATUS_READY) rows")
  case Nil
  then show ?thesis by (auto simp: oldest_unused_def ages_bound filter_empty_conv)
next
  case (Cons r rs)
  have ready: "{r \<in> set rows. s_status r = STATUS_READY} = set (r # rs)"
    unfolding Cons[symmetric] by auto
  have "oldest_unused (Some n) rows = Inr (Min (set (map (\<lambda>r. n - s_created_at r) (r # rs))))"
    unfolding oldest_unused_def ages_bound Cons Min.set_eq_fold list.map by simp
  also have "Min (set (map (\<lambda>r. n - s_created_at r) (r # rs))) = n - Max (s_created_at ` set (r # rs))"
    unfolding set_map by (rule Min_ages) simp_all
  finally show ?thesis by (simp only: ready Let_def) simp
qed

text \<open>C38: The metrics endpoint raises \<^verbatim>\<open>NameError\<close>, and so answers 500, exactly when some session
  is ready; otherwise it answers 200 and reports the age 0. With the assignment of \<^verbatim>\<open>now\<close> moved up it
  would not fail, but report the age of the newest ready session, not of the oldest.\<close>

theorem metrics_fails_iff_ready:
  "metrics E w = (if \<exists>r \<in> set (db w). s_status r = STATUS_READY
     then (Inl (NameError ''cannot access free variable now''), w)
     else (Inr (Plain 200 (metrics_text (length (db w)) (count_by_status (list_all_rows (db w))) 0)), w))
   \<and> status_code (fst (metrics E w)) = (if \<exists>r \<in> set (db w). s_status r = STATUS_READY then 500 else 200)
   \<and> oldest_unused (Some n) (db w) = Inr (let ready = {r \<in> set (db w). s_status r = STATUS_READY} in
       if ready = {} then 0 else n - Max (s_created_at ` ready))"
proof -
  have "set (list_all_rows (db w)) = set (db w)" and "length (list_all_rows (db w)) = length (db w)"
    by (simp_all add: list_all_rows_def)
  then have "metrics E w = (if \<exists>r \<in> set (db w). s_status r = STATUS_READY
     then (Inl (NameError ''cannot access free variable now''), w)
     else (Inr (Plain 200 (metrics_text (length (db w)) (count_by_status (list_all_rows (db w))) 0)), w))"
    by (simp add: metrics_def bindE_apply getsW_apply liftE_apply oldest_unused_def ages_unbound
        now_s_run ret_apply)
  then show ?thesis by (simp add: oldest_bound status_code_def)
qed

text \<open>C35: After a create that failed once its row was reserved, reading that session answers 500:
  the row is there, but its placeholder credentials cannot be decrypted.\<close>

theorem failed_create_then_get:
  assumes build: "build_service E X s = Inr S"
    and fernet: "rejects_placeholder E (sandbox_fernet_key s)"
    and run: "create_session S E ticket dbs w = (Inl e, w')" and new: "db w' \<noteq> db w"
  shows "\<exists>row. db w' = db w @ [row] \<and> status_code (fst (get_session S E (s_id row) w')) = 500"
proof -
  from build have S: "S = real_service E X s (sandbox_fernet_key s)" by (rule build_service_Inr)
  from run[unfolded S] show ?thesis
  proof (cases rule: real.create_session_cases)
    case (failed cat m sid' sid date paths now port)
    let ?row = "(first_row s sid ticket date dbs paths now port)\<lparr>s_status := STATUS_ERROR\<rparr>"
    from failed have w': "db w' = db w @ [?row]" and "sid \<notin> s_id ` set (db w)" by simp_all
    with get_append_new[of ?row "db w"] have "get sid (db w') = Some ?row" by simp
    then have "fst (get_session S E sid w')
        = Inl (ValueError ''Invalid Fernet token (key mismatch or corruption)'')"
      using fernet
      by (simp add: get_session_def view_def bindE_apply getsW_apply liftE_apply decrypt_creds_def
          rejects_placeholder_def S)
    with w' show ?thesis by (intro exI[of _ ?row]) (simp add: status_code_def)
  qed (use new in simp_all)
qed

text \<open>A disk that takes no data: the create fails on the first certificate.\<close>

definition full_disk :: "unit env" where
  "full_disk = sample_env\<lparr>e_write := (\<lambda>p b x. (Inl (OSError ''No space left on device''), 0, x))\<rparr>"

definition full_disk_service :: "unit service" where
  "full_disk_service = real_service full_disk sample_x509 sample_settings ''fernet''"

lemma full_disk_build: "build_service full_disk sample_x509 sample_settings = Inr full_disk_service"
  by (simp add: build_service_def fernet_from_key_def full_disk_def sample_env_def sample_settings_def
      full_disk_service_def)

lemma full_disk_do_create:
  assumes "ca_dbs a = []"
  shows "\<exists>e w'. do_create full_disk_service full_disk a w = (Inl e, w')"
proof -
  have "\<exists>e w'. generate_session_tls full_disk X sid dir c ip w = (Inl e, w')" for X :: "unit x509" and sid dir c ip w
    by (auto simp: generate_session_tls_def thenE_apply bindE_apply mkdir_def os_call_def build_ca_def
        os_draw_def now_s_def os_read_def ret_apply write_cert_def write_file_def Let_def full_disk_def
        sample_env_def split: prod.split sum.split)
  then have tls: "\<exists>e w'. start_private full_disk_service a pw w = (Inl e, w')" for pw w
    unfolding start_private_def bindE_Inl full_disk_service_def real_service_def service.simps by blast
  obtain pw w1 where "gen_root_password full_disk w = (Inr pw, w1)"
    using yieldsD[OF yields_root] by blast
  moreover have "sv_gen_root_password full_disk_service = gen_root_password full_disk"
    by (simp add: full_disk_service_def real_service_def)
  moreover obtain e w2 where "start_private full_disk_service a pw w1 = (Inl e, w2)" using tls by blast
  ultimately show ?thesis using assms by (simp add: do_create_def bindE_apply thenE_apply ret_apply)
qed

lemma full_disk_create:
  "\<exists>e w'. create_session full_disk_service full_disk ''T-1'' [] (sample_world []) = (Inl e, w') \<and> db w' \<noteq> []"
proof -
  have "yields (make_session_paths full_disk sid t date s) (\<lambda>_. True)" for sid t date s
    unfolding make_session_paths_def Let_def mkdir_def
    by (intro yields_thenE[OF yields_os_call_ok] yields_ret TrueI)
      (simp_all add: ok_call_def full_disk_def sample_env_def)
  moreover have "fst (e_uuid full_disk (os (sample_world []))) \<notin> s_id ` set (db (sample_world []))"
    by (simp add: sample_world_def)
  moreover have "33060 \<in> set (port_range sample_settings)" "33060 \<notin> used_ports (db (sample_world []))"
    by (simp_all add: sample_settings_def sample_world_def used_ports_def)
  ultimately obtain a sid row w3 where run: "create_session full_disk_service full_disk ''T-1'' [] (sample_world [])
      = catchE (do_create full_disk_service full_disk a)
          (create_failed full_disk_service full_disk sid (ca_paths a)) w3"
    and w3: "db w3 = db (sample_world []) @ [row]" and "ca_dbs a = []"
    unfolding full_disk_service_def by (rule create_session_reserves)
  from full_disk_do_create[OF this(3)] obtain e w4 where dc: "do_create full_disk_service full_disk a w3 = (Inl e, w4)"
    by blast
  then have "db w4 = db w3" unfolding full_disk_service_def by (rule real.do_create_Inl)
  moreover obtain r w5 where cf: "create_failed full_disk_service full_disk sid (ca_paths a) e w4 = (r :: exn + create_result, w5)"
    by fastforce
  ultimately have "\<exists>e. r = Inl e" and "db w5 \<noteq> []"
    using real.create_failed_run[OF cf[unfolded full_disk_service_def]] w3 by (auto simp: update_where_def)
  with run dc cf show ?thesis by (auto simp: catchE_apply)
qed

lemma failed_create_then_get_witness:
  "\<exists>e w' row. create_session full_disk_service full_disk ''T-1'' [] (sample_world []) = (Inl e, w')
     \<and> db w' = [row] \<and> status_code (fst (get_session full_disk_service full_disk (s_id row) w')) = 500"
proof -
  obtain e w' where run: "create_session full_disk_service full_disk ''T-1'' [] (sample_world []) = (Inl e, w')"
    and "db w' \<noteq> []"
    using full_disk_create by blast
  then have new: "db w' \<noteq> db (sample_world [])" by (simp add: sample_world_def)
  have "rejects_placeholder full_disk (sandbox_fernet_key sample_settings)"
    by (simp add: rejects_placeholder_def full_disk_def sample_env_def placeholder_creds_def)
  from failed_create_then_get[OF full_disk_build this run new] run show ?thesis
    by (auto simp: sample_world_def)
qed

text \<open>The service reports itself ready exactly when the docker daemon answers and the three
  MySQL programs are on the path.\<close>

lemma readyz_status:
  assumes "docker_check E w = (Inr (name, ok, info), w1)"
  shows "\<exists>resp w'. readyz E w = (Inr resp, w')
     \<and> code resp = (if ok \<and> (\<forall>bin \<in> {''mysqldump'', ''mysql'', ''mysqladmin''}. truthy (e_which E bin (os w1)))
          then 200 else 503)"
  using assms
  by (auto simp: readyz_def binary_check_def bindE_apply getsW_apply ret_apply Let_def)

end
