(* ===== verification/System.thy ===== *)
theory System
  imports Http "HOL-Library.Multiset"
begin

text \<open>
  The service as it runs: API worker threads and the reaper share one session store, and between
  two store operations of a handler any other handler may run. A state is the store with the tasks
  in progress; a step is one store operation of one task, with any time on the clock, or the end of
  a task (an exception, a crash of the process). The handlers of \<^verbatim>\<open>service.py\<close> and
  \<^verbatim>\<open>reaper.py\<close>, run alone, are runs of this system (\<open>handlers_are_runs\<close>).
\<close>

section \<open>Tasks and steps\<close>

text \<open>
  What a handler remembers between two of its store operations: a create its id and start time, an
  extension the expiry it decided on, the reaper the rows its two queries returned.
\<close>

datatype task =
    Creating string int
  | Failing string
  | Resetting string int
  | Nuking string
  | Claimed int "session list"
  | Tearing "session list" "session list"

type_synonym system = "store \<times> task multiset"

inductive step :: "settings \<Rightarrow> system \<Rightarrow> system \<Rightarrow> bool" for s where
  reserve: "reserve_session (placeholder s sid ticket date dbs paths now)
      (\<lambda>used. allocate_port used s) rows = (Inr d, rows')
    \<Longrightarrow> step s (rows, T) (rows', add_mset (Creating sid now) T)"
| commit: "update_to_ready sid blob (now + sandbox_ttl_default_seconds s)
      (now + sandbox_ttl_max_seconds s) rows = (Inr won, rows')
    \<Longrightarrow> step s (rows, add_mset (Creating sid now) T)
          (rows', if won then T else add_mset (Failing sid) T)"
| give_up: "step s (rows, add_mset (Creating sid now) T) (rows, add_mset (Failing sid) T)"
| failed: "step s (rows, add_mset (Failing sid) T) (snd (set_status sid STATUS_ERROR rows), T)"
| reset_read: "get sid rows = Some r \<Longrightarrow> reset_decision s now r = Inr t
    \<Longrightarrow> step s (rows, T) (rows, add_mset (Resetting sid t) T)"
| reset_write: "step s (rows, add_mset (Resetting sid t) T) (snd (update_ttl sid t 1 rows), T)"
| nuke_read: "get sid rows = Some r \<Longrightarrow> step s (rows, T) (rows, add_mset (Nuking sid) T)"
| nuke_write: "step s (rows, add_mset (Nuking sid) T) (snd (set_status sid STATUS_NUKED rows), T)"
| claim: "claim_expired now rows = (Inr expired, rows')
    \<Longrightarrow> step s (rows, T) (rows', add_mset (Claimed now expired) T)"
| collect: "claim_stuck now g rows = (Inr stuck, rows')
    \<Longrightarrow> step s (rows, add_mset (Claimed now expired) T)
          (rows', add_mset (Tearing stuck (expired @ stuck)) T)"
| settled: "step s (rows, add_mset (Tearing stuck (rec # todo)) T)
    (snd (settle_op stuck rec rows), add_mset (Tearing stuck todo) T)"
| skipped: "step s (rows, add_mset (Tearing stuck (rec # todo)) T)
    (rows, add_mset (Tearing stuck todo) T)"
| ended: "step s (rows, add_mset t T) (rows, T)"

inductive reachable :: "settings \<Rightarrow> system \<Rightarrow> bool" for s where
  start: "reachable s ([], {#})"
| after: "reachable s x \<Longrightarrow> step s x y \<Longrightarrow> reachable s y"

section \<open>The invariant of the system\<close>

text \<open>
  The times of a session that never became ready, and of one that did: its expiry is the default
  one, or the single extension of it, up to the limit.
\<close>

definition never_ready :: "session \<Rightarrow> bool" where
  "never_ready r \<longleftrightarrow> s_max_extended_until r = s_created_at r
     \<and> s_expires_at r = s_created_at r + 3600 \<and> s_ttl_extended r = 0
     \<and> s_creds_enc r = placeholder_creds"

definition extended_expiry :: "settings \<Rightarrow> session \<Rightarrow> int" where
  "extended_expiry s r = min (s_created_at r + sandbox_ttl_max_seconds s)
     (s_created_at r + sandbox_ttl_default_seconds s + sandbox_ttl_reset_add_seconds s)"

definition was_ready :: "settings \<Rightarrow> session \<Rightarrow> bool" where
  "was_ready s r \<longleftrightarrow> s_max_extended_until r = s_created_at r + sandbox_ttl_max_seconds s
     \<and> ((s_ttl_extended r = 0 \<and> s_expires_at r = s_created_at r + sandbox_ttl_default_seconds s)
        \<or> (s_ttl_extended r = 1 \<and> s_expires_at r = extended_expiry s r))"

definition row_ok :: "settings \<Rightarrow> session \<Rightarrow> bool" where
  "row_ok s r \<longleftrightarrow> sandbox_port_range_start s \<le> s_port r \<and> s_port r \<le> sandbox_port_range_end s
     \<and> (never_ready r \<or> was_ready s r)
     \<and> (s_status r \<in> {STATUS_STARTING, STATUS_ERROR} \<longrightarrow> never_ready r)
     \<and> (s_status r \<in> {STATUS_READY, STATUS_EXPIRED} \<longrightarrow> was_ready s r)"

text \<open>The session a task works on, and what it may rely on about the row.\<close>

fun works_on :: "task \<Rightarrow> string option" where
  "works_on (Creating sid _) = Some sid"
| "works_on (Failing sid) = Some sid"
| "works_on (Resetting sid _) = Some sid"
| "works_on (Nuking sid) = Some sid"
| "works_on _ = None"

fun fits :: "settings \<Rightarrow> task \<Rightarrow> session \<Rightarrow> bool" where
  "fits s (Creating _ now) r \<longleftrightarrow> s_created_at r = now \<and> never_ready r
     \<and> s_status r \<in> {STATUS_STARTING, STATUS_NUKED}"
| "fits s (Failing _) r \<longleftrightarrow> never_ready r \<and> s_status r \<in> {STATUS_STARTING, STATUS_NUKED}"
| "fits s (Resetting _ t) r \<longleftrightarrow> was_ready s r \<and> t = extended_expiry s r"
| "fits s _ r \<longleftrightarrow> True"

definition task_ok :: "settings \<Rightarrow> store \<Rightarrow> task \<Rightarrow> bool" where
  "task_ok s rows t \<longleftrightarrow> (case works_on t of None \<Rightarrow> True
     | Some sid \<Rightarrow> (case get sid rows of None \<Rightarrow> False | Some r \<Rightarrow> fits s t r))"

text \<open>A create owns its session until it has returned.\<close>

fun owns :: "string \<Rightarrow> task \<Rightarrow> bool" where
  "owns sid (Creating i _) = (i = sid)"
| "owns sid (Failing i) = (i = sid)"
| "owns sid _ = False"

definition owners :: "string \<Rightarrow> task multiset \<Rightarrow> nat" where
  "owners sid T = size (filter_mset (owns sid) T)"

lemma owners_simps [simp]:
  "owners sid {#} = 0"
  "owners sid (add_mset t T) = (if owns sid t then Suc (owners sid T) else owners sid T)"
  by (simp_all add: owners_def)

lemma owners_0: "owners sid T = 0 \<longleftrightarrow> (\<forall>t \<in># T. \<not> owns sid t)"
  by (induction T) auto

lemma owners_drop: "\<forall>sid. owners sid (add_mset t T) \<le> n \<Longrightarrow> \<forall>sid. owners sid T \<le> n"
  by (auto split: if_splits) (metis Suc_leD)

definition sys_inv :: "settings \<Rightarrow> system \<Rightarrow> bool" where
  "sys_inv s x \<longleftrightarrow> (case x of (rows, T) \<Rightarrow> wf_store rows \<and> (\<forall>r \<in> set rows. row_ok s r)
     \<and> (\<forall>t \<in># T. task_ok s rows t) \<and> (\<forall>sid. owners sid T \<le> 1))"


lemma never_not_ready: "valid_settings s \<Longrightarrow> never_ready r \<Longrightarrow> \<not> was_ready s r"
  by (auto simp: valid_settings_def never_ready_def was_ready_def)

lemma time_shape_simps [simp]:
  "never_ready (r\<lparr>s_status := st\<rparr>) = never_ready r"
  "was_ready s (r\<lparr>s_status := st\<rparr>) = was_ready s r"
  "extended_expiry s (r\<lparr>s_status := st\<rparr>) = extended_expiry s r"
  by (simp_all add: never_ready_def was_ready_def extended_expiry_def)

text \<open>A status change to \<^verbatim>\<open>nuked\<close> suits every row and every task.\<close>

lemma fits_nuked [simp]: "fits s t r \<Longrightarrow> fits s t (r\<lparr>s_status := STATUS_NUKED\<rparr>)"
  by (cases t) auto

lemma row_ok_nuked [simp]: "row_ok s r \<Longrightarrow> row_ok s (r\<lparr>s_status := STATUS_NUKED\<rparr>)"
  by (auto simp: row_ok_def)

text \<open>The effect of an update of one session on the invariant.\<close>

context row_update
begin

lemma task_ok_upd:
  assumes "task_ok s rows t"
    and "\<And>r. get sid rows = Some r \<Longrightarrow> works_on t = Some sid \<Longrightarrow> guard r \<Longrightarrow> fits s t r
      \<Longrightarrow> fits s t (change r)"
  shows "task_ok s (snd (upd sid rows)) t"
  using assms by (auto simp: task_ok_def get_upd split: option.splits)

lemma rows_ok_upd:
  assumes "\<forall>r \<in> set rows. row_ok s r" and "unique_ids rows"
    and "\<And>r. get sid rows = Some r \<Longrightarrow> guard r \<Longrightarrow> row_ok s r \<Longrightarrow> row_ok s (change r)"
  shows "\<forall>r \<in> set (snd (upd sid rows)). row_ok s r"
  using assms get_member[OF assms(2)] by (auto simp: upd_rows set_update_where)

end

context port_safe_update
begin

lemma sys_inv_upd:
  assumes inv: "sys_inv s (rows, add_mset t0 T)"
    and row: "\<And>r. get sid rows = Some r \<Longrightarrow> guard r \<Longrightarrow> row_ok s r \<Longrightarrow> row_ok s (change r)"
    and task: "\<And>t r. t \<in># T \<Longrightarrow> works_on t = Some sid \<Longrightarrow> get sid rows = Some r \<Longrightarrow> guard r
      \<Longrightarrow> fits s t r \<Longrightarrow> fits s t (change r)"
  shows "sys_inv s (snd (upd sid rows), T)"
proof -
  have "wf_store (snd (upd sid rows))"
    using inv by (intro wf_upd) (simp add: sys_inv_def)
  moreover have "\<forall>r \<in> set (snd (upd sid rows)). row_ok s r"
    using inv by (intro rows_ok_upd row) (simp_all add: sys_inv_def wf_store_def)
  moreover have "\<forall>t \<in># T. task_ok s (snd (upd sid rows)) t"
    using inv by (intro ballI task_ok_upd task) (simp_all add: sys_inv_def)
  moreover have "\<forall>i. owners i T \<le> 1"
    using inv by (auto simp: sys_inv_def simp del: owners_simps dest!: owners_drop)
  ultimately show ?thesis by (simp add: sys_inv_def)
qed

end


section \<open>Every step keeps the invariant\<close>

lemma inv_drop: "sys_inv s (rows, add_mset t T) \<Longrightarrow> sys_inv s (rows, T)"
  by (auto simp: sys_inv_def simp del: owners_simps dest!: owners_drop)

lemma inv_add:
  assumes "sys_inv s (rows, T)" and "task_ok s rows t"
    and "\<And>sid. owns sid t \<Longrightarrow> owners sid T = 0"
  shows "sys_inv s (rows, add_mset t T)"
  using assms by (auto simp: sys_inv_def)

lemma inv_unique: "sys_inv s (rows, T) \<Longrightarrow> unique_ids rows"
  by (simp add: sys_inv_def wf_store_def)

lemma inv_task: "sys_inv s (rows, T) \<Longrightarrow> t \<in># T \<Longrightarrow> task_ok s rows t"
  by (simp add: sys_inv_def)

text \<open>While a create or its failure handler is at work, no other task relies on its row.\<close>

lemma owner_alone:
  assumes "valid_settings s" and inv: "sys_inv s (rows, add_mset c T)" and c: "owns sid c"
    and t: "t \<in># T" "works_on t = Some sid"
  shows "t = Nuking sid"
proof -
  have "owners sid T = 0"
    using inv c by (auto simp: sys_inv_def split: if_splits dest: spec[of _ sid])
  with t have not_owner: "\<not> owns sid t" by (simp add: owners_0)
  have "works_on c = Some sid" using c by (cases c) auto
  then obtain r where r: "get sid rows = Some r" and "fits s c r"
    using inv_task[OF inv, of c] by (auto simp: task_ok_def split: option.splits)
  then have "never_ready r" using c by (cases c) auto
  with assms(1) have "\<not> was_ready s r" by (rule never_not_ready)
  moreover have "fits s t r"
    using inv_task[OF inv, of t] t r by (simp add: task_ok_def)
  ultimately show ?thesis using t not_owner by (cases t) auto
qed

lemma get_append: "get sid rows = Some r \<Longrightarrow> get sid (rows @ rows') = Some r"
  unfolding get_def by (induction rows) (auto split: if_splits)

lemma reserve_inv:
  assumes inv: "sys_inv s (rows, T)"
    and res: "reserve_session (placeholder s sid ticket date dbs paths now)
      (\<lambda>used. allocate_port used s) rows = (Inr d, rows')"
  shows "sys_inv s (rows', add_mset (Creating sid now) T)"
proof -
  obtain port where port: "allocate_port (used_ports rows) s = Inr port" and new: "sid \<notin> s_id ` set rows"
    and rows': "rows' = rows @ [first_row s sid ticket date dbs paths now port]"
    using res by (rule real.reserve_first_row)
  let ?r = "first_row s sid ticket date dbs paths now port"
  have fresh: "\<And>t. t \<in># T \<Longrightarrow> works_on t \<noteq> Some sid"
  proof
    fix t assume "t \<in># T" and "works_on t = Some sid"
    with inv_task[OF inv, of t] new show False
      by (cases "get sid rows") (auto simp: task_ok_def get_None dest: get_Some)
  qed
  have get': "get i rows' = Some r" if "get i rows = Some r" for i r
    using that by (simp add: rows' get_append)
  have "wf_store rows'"
    using inv new allocated_port[OF port] by (auto simp: rows' sys_inv_def intro!: wf_append)
  moreover have "row_ok s ?r"
    using allocated_port[OF port] by (simp add: row_ok_def never_ready_def)
  then have "\<forall>r \<in> set rows'. row_ok s r" using inv by (simp add: rows' sys_inv_def)
  moreover have "task_ok s rows' t" if "t \<in># T" for t
    using inv_task[OF inv that] get' by (auto simp: task_ok_def split: option.splits)
  moreover have "task_ok s rows' (Creating sid now)"
    using get_append_new[of ?r rows] new by (simp add: task_ok_def rows' never_ready_def)
  moreover have "owners sid T = 0"
  proof -
    have "owns sid t \<Longrightarrow> works_on t = Some sid" for t by (cases t) auto
    with fresh show ?thesis by (auto simp: owners_0)
  qed
  ultimately show ?thesis using inv by (auto simp: sys_inv_def)
qed

lemma commit_inv:
  assumes v: "valid_settings s" and inv: "sys_inv s (rows, add_mset (Creating sid now) T)"
    and run: "update_to_ready sid blob (now + sandbox_ttl_default_seconds s)
      (now + sandbox_ttl_max_seconds s) rows = (Inr won, rows')"
  shows "sys_inv s (rows', if won then T else add_mset (Failing sid) T)"
proof (cases won)
  case True
  have "sys_inv s (snd (update_to_ready sid blob (now + sandbox_ttl_default_seconds s)
      (now + sandbox_ttl_max_seconds s) rows), T)"
  proof (rule to_ready.sys_inv_upd[OF inv])
    fix r assume r: "get sid rows = Some r" and "row_ok s r"
    have "s_created_at r = now" and "s_ttl_extended r = 0"
      using inv_task[OF inv, of "Creating sid now"] r by (simp_all add: task_ok_def never_ready_def)
    with \<open>row_ok s r\<close> show "row_ok s (r\<lparr>s_status := STATUS_READY, s_creds_enc := blob,
        s_expires_at := now + sandbox_ttl_default_seconds s,
        s_max_extended_until := now + sandbox_ttl_max_seconds s\<rparr>)"
      by (simp add: row_ok_def was_ready_def)
  qed (use owner_alone[OF v inv, of sid] in fastforce)
  with True run show ?thesis by simp
next
  case False
  then have "rows' = rows"
    using run by (auto simp: store_run intro!: update_where_none)
  moreover have "sys_inv s (rows, T)" using inv by (rule inv_drop)
  moreover have "task_ok s rows (Failing sid)"
    using inv_task[OF inv, of "Creating sid now"] by (auto simp: task_ok_def split: option.splits)
  moreover have "owners i T = 0" if "owns i (Failing sid)" for i
    using that inv by (auto simp: sys_inv_def split: if_splits dest: spec[of _ sid])
  ultimately show ?thesis using False by (auto intro: inv_add)
qed


lemma claim_inv:
  assumes inv: "sys_inv s (rows, T)" and run: "claim_expired now rows = (Inr expired, rows')"
  shows "sys_inv s (rows', add_mset (Claimed now expired) T)"
proof -
  have rows': "rows' = update_where (expired_due now) (\<lambda>r. r\<lparr>s_status := STATUS_EXPIRED\<rparr>) rows"
    using run inv_unique[OF inv] by (simp add: store_run)
  have get': "get i rows' = map_option
      (\<lambda>r. if expired_due now r then r\<lparr>s_status := STATUS_EXPIRED\<rparr> else r) (get i rows)" for i
    unfolding rows' by (rule get_update_where) simp
  have "wf_store rows'"
    using wf_claim_expired[of rows now] run inv by (simp add: sys_inv_def)
  moreover have "\<forall>r \<in> set rows'. row_ok s r"
    using inv by (auto simp: rows' set_update_where sys_inv_def row_ok_def expired_due_def)
  moreover have "task_ok s rows' t" if "t \<in># T" for t
    using inv_task[OF inv that]
    by (cases t) (auto simp: task_ok_def get' expired_due_def split: option.splits)
  ultimately show ?thesis
    using inv by (auto simp: sys_inv_def task_ok_def)
qed

lemma failed_inv:
  assumes v: "valid_settings s" and inv: "sys_inv s (rows, add_mset (Failing sid) T)"
  shows "sys_inv s (snd (set_status sid STATUS_ERROR rows), T)"
proof (rule error_status.sys_inv_upd[OF inv])
  fix r assume "get sid rows = Some r" and "row_ok s r"
  then show "row_ok s (r\<lparr>s_status := STATUS_ERROR\<rparr>)"
    using inv_task[OF inv, of "Failing sid"] by (simp add: task_ok_def row_ok_def)
qed (use owner_alone[OF v inv, of sid] in fastforce)

lemma reset_write_inv:
  assumes v: "valid_settings s" and inv: "sys_inv s (rows, add_mset (Resetting sid t) T)"
  shows "sys_inv s (snd (update_ttl sid t 1 rows), T)"
proof (rule ttl_update.sys_inv_upd[OF inv])
  fix r assume r: "get sid rows = Some r"
  then have fit: "was_ready s r" "t = extended_expiry s r"
    using inv_task[OF inv, of "Resetting sid t"] by (simp_all add: task_ok_def)
  let ?r = "r\<lparr>s_expires_at := t, s_ttl_extended := 1\<rparr>"
  have ready: "was_ready s ?r"
    using fit by (simp add: was_ready_def extended_expiry_def)
  have "\<not> never_ready r" using never_not_ready[OF v] fit by blast
  with ready show "row_ok s r \<Longrightarrow> row_ok s ?r" by (auto simp: row_ok_def)
  fix u assume "fits s u r"
  with \<open>\<not> never_ready r\<close> ready show "fits s u ?r"
    by (cases u) (auto simp: extended_expiry_def)
qed

lemma settle_op_inv:
  assumes "sys_inv s (rows, add_mset (Tearing stuck (rec # todo)) T)"
  shows "sys_inv s (snd (settle_op stuck rec rows), add_mset (Tearing stuck todo) T)"
proof -
  have "sys_inv s (snd (settle_op stuck rec rows), T)"
    unfolding settle_op_def
    using mark_nuked.sys_inv_upd[OF assms, of "s_id rec"] nuke_status.sys_inv_upd[OF assms, of "s_id rec"]
    by simp
  then show ?thesis by (auto intro: inv_add simp: task_ok_def)
qed

lemma reset_read_inv:
  assumes inv: "sys_inv s (rows, T)" and r: "get sid rows = Some r"
    and dec: "reset_decision s now r = Inr t"
  shows "sys_inv s (rows, add_mset (Resetting sid t) T)"
proof (rule inv_add[OF inv])
  have "row_ok s r" using inv r by (auto simp: sys_inv_def dest: get_Some)
  then have "was_ready s r" and "s_ttl_extended r = 0"
    using dec by (auto simp: reset_decision_def row_ok_def split: if_splits)
  with dec r show "task_ok s rows (Resetting sid t)"
    by (auto simp: task_ok_def was_ready_def extended_expiry_def reset_decision_def split: if_splits)
qed simp

lemma step_inv:
  assumes "step s x y" and v: "valid_settings s" and "sys_inv s x"
  shows "sys_inv s y"
  using assms(1,3)
proof (cases rule: step.cases)
  case (give_up rows sid now T)
  with assms(3) have inv: "sys_inv s (rows, add_mset (Creating sid now) T)" by simp
  have "task_ok s rows (Failing sid)"
    using inv_task[OF inv, of "Creating sid now"] by (auto simp: task_ok_def split: option.splits)
  moreover have "owners i T = 0" if "owns i (Failing sid)" for i
    using that inv by (auto simp: sys_inv_def split: if_splits dest: spec[of _ sid])
  ultimately show ?thesis using give_up inv_drop[OF inv] by (auto intro: inv_add)
next
  case (commit sid blob now rows won rows' T)
  with assms(3) show ?thesis by (simp only: commit_inv[OF v])
next
  case (nuke_write rows sid T)
  with assms(3) show ?thesis by (auto intro: nuke_status.sys_inv_upd)
next
  case (collect now g rows stuck rows' expired T)
  with assms(3) show ?thesis
    by (auto simp: store_run task_ok_def dest: inv_drop intro: inv_add)
next
  case (skipped rows stuck rec todo T)
  with assms(3) show ?thesis
    by (auto simp: task_ok_def dest: inv_drop intro: inv_add)
next
  case (nuke_read sid rows r T)
  with assms(3) show ?thesis by (auto simp: task_ok_def intro: inv_add)
qed (auto intro: reserve_inv v failed_inv reset_read_inv reset_write_inv claim_inv
      settle_op_inv inv_drop)

lemma start_inv: "sys_inv s ([], {#})"
  by (simp add: sys_inv_def)

lemma reachable_inv: "reachable s x \<Longrightarrow> valid_settings s \<Longrightarrow> sys_inv s x"
  by (induction rule: reachable.induct) (blast intro: step_inv start_inv)+


section \<open>The life of a session\<close>

text \<open>The changes of status a step can make, and what it never changes.\<close>

definition edge :: "string \<Rightarrow> string \<Rightarrow> bool" where
  "edge st st' \<longleftrightarrow> st' = st
     \<or> (st = STATUS_STARTING \<and> st' \<in> {STATUS_READY, STATUS_ERROR, STATUS_NUKED})
     \<or> (st = STATUS_READY \<and> st' \<in> {STATUS_EXPIRED, STATUS_NUKED})
     \<or> (st = STATUS_EXPIRED \<and> st' = STATUS_NUKED)
     \<or> (st = STATUS_ERROR \<and> st' = STATUS_NUKED)
     \<or> (st = STATUS_NUKED \<and> st' = STATUS_ERROR)"

definition same_session :: "session \<Rightarrow> session \<Rightarrow> bool" where
  "same_session r r' \<longleftrightarrow> s_id r' = s_id r \<and> s_ticket r' = s_ticket r \<and> s_port r' = s_port r
     \<and> s_created_at r' = s_created_at r \<and> s_compose_path r' = s_compose_path r"

lemma edge_refl [simp]: "edge st st"
  and same_session_refl [simp]: "same_session r r"
  by (simp_all add: edge_def same_session_def)

lemma edge_nuked: "st \<in> set VALID_STATUSES \<Longrightarrow> edge st STATUS_NUKED"
  by (auto simp: edge_def VALID_STATUSES_def)

lemma step_edge:
  assumes "step s x y" and inv: "sys_inv s x" and r: "get sid (fst x) = Some r"
  shows "\<exists>r'. get sid (fst y) = Some r' \<and> edge (s_status r) (s_status r') \<and> same_session r r'"
  using assms(1)
proof (cases rule: step.cases)
  case (reserve sid' ticket date dbs paths now rows d rows' T)
  then show ?thesis
    using r by (auto simp: reserve_Inr dest: get_append)
next
  case (commit sid' blob now rows won rows' T)
  with r to_ready.get_upd[of sid sid' blob "now + sandbox_ttl_default_seconds s"
      "now + sandbox_ttl_max_seconds s" rows]
  show ?thesis by (auto simp: edge_def same_session_def)
next
  case (failed rows sid' T)
  have "s_status r \<in> {STATUS_STARTING, STATUS_NUKED}" if "sid' = sid"
    using inv_task[of s rows "add_mset (Failing sid') T" "Failing sid'"] inv r that failed
    by (auto simp: task_ok_def)
  then show ?thesis
    using r failed by (auto simp: error_status.get_upd edge_def same_session_def)
next
  case (reset_write rows sid' t T)
  then show ?thesis using r by (auto simp: ttl_update.get_upd same_session_def)
next
  case (nuke_write rows sid' T)
  have "s_status r \<in> set VALID_STATUSES"
    using inv r nuke_write by (auto simp: sys_inv_def wf_store_def dest: get_Some)
  then show ?thesis
    using r nuke_write by (auto simp: nuke_status.get_upd same_session_def edge_nuked)
next
  case (claim now rows expired rows' T)
  with inv have "rows' = update_where (expired_due now) (\<lambda>r. r\<lparr>s_status := STATUS_EXPIRED\<rparr>) rows"
    using inv_unique[of s rows T] by (simp add: store_run)
  then have "get sid rows' = map_option
      (\<lambda>r. if expired_due now r then r\<lparr>s_status := STATUS_EXPIRED\<rparr> else r) (get sid rows)"
    using get_update_where[of "\<lambda>r. r\<lparr>s_status := STATUS_EXPIRED\<rparr>"] by simp
  then show ?thesis
    using r claim by (auto simp: expired_due_def edge_def same_session_def)
next
  case (settled rows stuck rec todo T)
  have "s_status r \<in> set VALID_STATUSES"
    using inv r settled by (auto simp: sys_inv_def wf_store_def dest: get_Some)
  then show ?thesis
    using r settled by (auto simp: settle_op_def nuke_status.get_upd mark_nuked.get_upd
        same_session_def edge_nuked)
qed (use r in \<open>auto simp: store_run\<close>)


text \<open>Sessions that have ended.\<close>

lemma ended_step:
  assumes "step s x y" and "sys_inv s x" and "get sid (fst x) = Some r"
    and "s_status r \<notin> {STATUS_STARTING, STATUS_READY}"
  shows "\<exists>r'. get sid (fst y) = Some r' \<and> s_status r' \<notin> {STATUS_STARTING, STATUS_READY}
     \<and> same_session r r'"
  using step_edge[OF assms(1-3)] assms(4) by (auto simp: edge_def)

lemma ended_steps:
  assumes "(step s)\<^sup>*\<^sup>* x y" and v: "valid_settings s" and "sys_inv s x" and "get sid (fst x) = Some r"
    and "s_status r \<notin> {STATUS_STARTING, STATUS_READY}"
  shows "\<exists>r'. get sid (fst y) = Some r' \<and> s_status r' \<notin> {STATUS_STARTING, STATUS_READY}
     \<and> same_session r r'"
  using assms
proof (induction arbitrary: r rule: converse_rtranclp_induct)
  case (step x y)
  from ended_step[OF step.hyps(1) step.prems(2-4)] obtain r' where
    "get sid (fst y) = Some r'" "s_status r' \<notin> {STATUS_STARTING, STATUS_READY}" "same_session r r'"
    by blast
  with step.IH[OF v step_inv[OF step.hyps(1) v step.prems(2)]] show ?case
    by (fastforce simp: same_session_def)
qed auto

section \<open>A reachable state of the sample\<close>

lemma sample_valid: "valid_settings sample_settings"
  by (simp add: valid_settings_def sample_settings_def)

lemma sample_port: "allocate_port {} sample_settings = Inr 33060"
  by (simp add: allocate_port_def port_range_def sample_settings_def upto_rec1)

text \<open>The row of the sample while it is being created.\<close>

definition sample_draft :: "int \<Rightarrow> draft" where
  "sample_draft = placeholder sample_settings ''11111111'' ''T-1'' ''2024-01-01'' []
     \<lparr>sp_session_dir = ''/c/1'', sp_compose_path = ''/c/1/docker-compose.yml'',
      sp_cnf_path = ''/c/1/mysqld.cnf'', sp_tls_dir = ''/t/1'', sp_log_dir = ''/l/1''\<rparr> 900"

definition starting_row :: session where
  "starting_row = row_of (sample_draft 33060)"

lemma starting_row_simps [simp]:
  "s_id starting_row = ''11111111''" "s_status starting_row = STATUS_STARTING"
  "s_created_at starting_row = 900"
  by (simp_all add: starting_row_def sample_draft_def placeholder_def row_of_def)

lemma sample_creating: "reachable sample_settings ([starting_row], {#Creating ''11111111'' 900#})"
proof -
  have "reserve_session sample_draft (\<lambda>used. allocate_port used sample_settings) []
      = (Inr (sample_draft 33060), [starting_row])"
    by (simp add: reserve_Inr placeholder_ok used_ports_def sample_port starting_row_def sample_draft_def)
  from step.reserve[OF this[unfolded sample_draft_def]] show ?thesis
    by (blast intro: reachable.intros)
qed

lemma sample_reachable: "reachable sample_settings ([sample_row], {#})"
proof -
  have "update_to_ready ''11111111'' placeholder_creds (900 + sandbox_ttl_default_seconds sample_settings)
      (900 + sandbox_ttl_max_seconds sample_settings) [starting_row] = (Inr True, [sample_row])"
    by (simp add: store_run sample_row_def sample_settings_def first_row_def placeholder_def row_of_def
        starting_row_def sample_draft_def)
  from step.commit[OF this] have
    "step sample_settings ([starting_row], {#Creating ''11111111'' 900#}) ([sample_row], {#})"
    by simp
  with sample_creating show ?thesis by (rule reachable.after)
qed

section \<open>What holds under every interleaving\<close>

text \<open>C2: However requests and reaper passes interleave, ids stay unique, no two sessions that
  are starting, ready or expired share a port, every port is in the configured range and every
  status is a known one.\<close>

theorem system_invariant:
  assumes "valid_settings s" and "reachable s (rows, T)"
  shows "distinct (map s_id rows) \<and> distinct (map s_port (filter holds_port rows))
     \<and> (\<forall>r \<in> set rows. s_status r \<in> set VALID_STATUSES
          \<and> sandbox_port_range_start s \<le> s_port r \<and> s_port r \<le> sandbox_port_range_end s)"
  using reachable_inv[OF assms(2,1)]
  by (simp add: sys_inv_def wf_store_def unique_ids_def active_ports_distinct_def row_ok_def)

lemma system_invariant_witness:
  "sandbox_port_range_start sample_settings \<le> s_port sample_row"
  using system_invariant[OF sample_valid sample_reachable] by simp

text \<open>C4: No interleaving of extensions adds up: a session that is ready or expired has the limit
  set when it became ready, and its expiry is the default one or the one single extension of it,
  never past the limit.\<close>

theorem extensions_never_add_up:
  assumes "valid_settings s" and "reachable s (rows, T)" and "r \<in> set rows"
    and "s_status r \<in> {STATUS_READY, STATUS_EXPIRED}"
  shows "s_max_extended_until r = s_created_at r + sandbox_ttl_max_seconds s
     \<and> s_expires_at r \<le> s_max_extended_until r
     \<and> s_expires_at r = (if s_ttl_extended r = 0
          then s_created_at r + sandbox_ttl_default_seconds s
          else min (s_max_extended_until r)
            (s_created_at r + sandbox_ttl_default_seconds s + sandbox_ttl_reset_add_seconds s))"
proof -
  have "was_ready s r"
    using reachable_inv[OF assms(2,1)] assms(3,4) by (auto simp: sys_inv_def row_ok_def)
  with assms(1) show ?thesis
    by (auto simp: was_ready_def extended_expiry_def valid_settings_def)
qed

lemma extensions_never_add_up_witness:
  "s_expires_at sample_row = s_created_at sample_row + sandbox_ttl_default_seconds sample_settings"
  using extensions_never_add_up[OF sample_valid sample_reachable, of sample_row] by simp

text \<open>C3: A session that has ended (expired, nuked or in error) never becomes starting or ready
  again, whatever runs afterwards, and its row stays in the table with its ticket, port and
  compose file.\<close>

theorem ended_stays_ended:
  assumes "valid_settings s" and "reachable s x" and "(step s)\<^sup>*\<^sup>* x y"
    and "get sid (fst x) = Some r" and "s_status r \<notin> {STATUS_STARTING, STATUS_READY}"
  shows "\<exists>r'. get sid (fst y) = Some r' \<and> s_status r' \<in> {STATUS_EXPIRED, STATUS_NUKED, STATUS_ERROR}
     \<and> s_ticket r' = s_ticket r \<and> s_port r' = s_port r \<and> s_compose_path r' = s_compose_path r"
proof -
  from ended_steps[OF assms(3,1) reachable_inv[OF assms(2,1)] assms(4,5)] obtain r' where
    r': "get sid (fst y) = Some r'" "s_status r' \<notin> {STATUS_STARTING, STATUS_READY}" "same_session r r'"
    by blast
  have "sys_inv s y"
    using assms(3) reachable_inv[OF assms(2,1)] by induction (auto intro: step_inv assms(1))
  with r' have "s_status r' \<in> set VALID_STATUSES"
    by (cases y) (auto simp: sys_inv_def wf_store_def dest: get_Some)
  with r' show ?thesis by (auto simp: VALID_STATUSES_def same_session_def)
qed

lemma ended_stays_ended_witness:
  "\<exists>y r'. (step sample_settings)\<^sup>*\<^sup>* ([sample_row\<lparr>s_status := STATUS_NUKED\<rparr>], {#}) y
     \<and> get ''11111111'' (fst y) = Some r' \<and> s_ticket r' = ''T-1''
     \<and> s_status r' \<in> {STATUS_EXPIRED, STATUS_NUKED, STATUS_ERROR}"
proof -
  let ?r = "sample_row\<lparr>s_status := STATUS_NUKED\<rparr>"
  have "step sample_settings ([sample_row], {#}) ([sample_row], {#Nuking ''11111111''#})"
    by (rule step.nuke_read[OF sample_get])
  moreover have "step sample_settings ([sample_row], {#Nuking ''11111111''#}) ([?r], {#})"
    using step.nuke_write[of sample_settings "[sample_row]" "''11111111''" "{#}"] by (simp add: store_run)
  ultimately have nuked: "reachable sample_settings ([?r], {#})"
    using sample_reachable by (blast intro: reachable.after)
  have "step sample_settings ([?r], {#}) ([?r], {#Nuking ''11111111''#})"
    by (rule step.nuke_read) (simp add: get_def)
  then have run: "(step sample_settings)\<^sup>*\<^sup>* ([?r], {#}) ([?r], {#Nuking ''11111111''#})" by blast
  from ended_stays_ended[OF sample_valid nuked run, of "''11111111''" ?r] run show ?thesis
    by (auto simp: get_def)
qed

end
