(* ===== verification/Runs.thy ===== *)
theory Runs
  imports System
begin

text \<open>
  The refinement of the concurrent system by the code's handlers: what a handler of the API or a
  pass of the reaper does to the store, run alone, is a run of \<^const>\<open>step\<close> that leaves the
  other tasks in progress alone. What \<^verbatim>\<open>System\<close> proves of every run therefore holds of them.
\<close>

named_theorems runs_intros

definition runs :: "settings \<Rightarrow> ('x world, 'a) prog \<Rightarrow> bool" where
  "runs s m \<longleftrightarrow> (\<forall>w T. (step s)\<^sup>*\<^sup>* (db w, T) (db (snd (m w)), T))"

lemma runsD: "runs s m \<Longrightarrow> m w = (r, w') \<Longrightarrow> (step s)\<^sup>*\<^sup>* (db w, T) (db w', T)"
  by (metis runs_def snd_conv)

lemma runsI: "(\<And>w r w' T. m w = (r, w') \<Longrightarrow> (step s)\<^sup>*\<^sup>* (db w, T) (db w', T)) \<Longrightarrow> runs s m"
  unfolding runs_def by (metis prod.collapse)

lemma runs_frames: "frames db m \<Longrightarrow> runs s m"
  by (simp add: runs_def frames_def)

lemma runs_bindE [runs_intros]:
  assumes "runs s m" and "\<And>a. runs s (n a)"
  shows "runs s (bindE m n)"
proof (rule runsI)
  fix w r w' T assume "bindE m n w = (r, w')"
  moreover obtain x w1 where m: "m w = (x, w1)" by fastforce
  ultimately show "(step s)\<^sup>*\<^sup>* (db w, T) (db w', T)"
    using runsD[OF assms(1) m, of T] runsD[OF assms(2), of _ w1 r w' T]
    by (cases x) (auto simp: bindE_apply intro: rtranclp_trans)
qed

lemma runs_thenE [runs_intros]: "runs s m \<Longrightarrow> runs s n \<Longrightarrow> runs s (thenE m n)"
  unfolding thenE_def by (rule runs_bindE)

lemma runs_catchE [runs_intros]:
  assumes "runs s m" and "\<And>e. runs s (h e)"
  shows "runs s (catchE m h)"
proof (rule runsI)
  fix w r w' T assume "catchE m h w = (r, w')"
  moreover obtain x w1 where m: "m w = (x, w1)" by fastforce
  ultimately show "(step s)\<^sup>*\<^sup>* (db w, T) (db w', T)"
    using runsD[OF assms(1) m, of T] runsD[OF assms(2), of _ w1 r w' T]
    by (cases x) (auto simp: catchE_apply intro: rtranclp_trans)
qed

lemma runs_pure [runs_intros]:
  "runs s (ret a)" "runs s (throw e)" "runs s (liftE r)" "runs s (getsW g)"
  by (intro runs_frames frame_intros)+

section \<open>The handlers of the service\<close>

lemma reserve_step:
  assumes "sid \<notin> s_id ` set rows" and "allocate_port (used_ports rows) s = Inr port"
  shows "step s (rows, T)
    (rows @ [first_row s sid ticket date dbs paths now port], add_mset (Creating sid now) T)"
proof (rule step.reserve)
  show "reserve_session (placeholder s sid ticket date dbs paths now) (\<lambda>used. allocate_port used s) rows
    = (Inr (placeholder s sid ticket date dbs paths now port),
       rows @ [first_row s sid ticket date dbs paths now port])"
    using assms by (simp add: reserve_Inr placeholder_ok first_row_def[symmetric])
qed

lemma update_new:
  "sid \<notin> s_id ` set rows \<Longrightarrow> update_where (\<lambda>r. s_id r = sid \<and> P r) f rows = rows"
  by (rule update_where_none) auto

lemma runs_create: "runs s (create_session (real_service E X s fernet) E ticket dbs)"
proof (rule runsI)
  fix w r w' T
  assume "create_session (real_service E X s fernet) E ticket dbs w = (r, w')"
  then show "(step s)\<^sup>*\<^sup>* (db w, T) (db w', T)"
  proof (cases rule: real.create_session_cases)
    case (failed cat m sid' sid date paths now port)
    let ?r = "first_row s sid ticket date dbs paths now port"
    have "(step s)\<^sup>*\<^sup>* (db w, T) (db w @ [?r], add_mset (Creating sid now) T)"
      using failed by (intro r_into_rtranclp reserve_step) simp_all
    also have "step s \<dots> (db w @ [?r], add_mset (Failing sid) T)" by (rule step.give_up)
    also have "step s \<dots> (snd (set_status sid STATUS_ERROR (db w @ [?r])), T)" by (rule step.failed)
    also have "snd (set_status sid STATUS_ERROR (db w @ [?r])) = db w'"
      using failed update_new[of sid "db w" "\<lambda>_. True"] by (simp add: store_run)
    finally show ?thesis by simp
  next
    case (created res creds w0 w0' pw blob w1 w2 date paths now)
    let ?sid = "rs_session_id res"
    let ?r = "first_row s ?sid ticket date dbs paths now (rs_mysql_port res)"
    have "(step s)\<^sup>*\<^sup>* (db w, T) (db w @ [?r], add_mset (Creating ?sid now) T)"
      using created by (intro r_into_rtranclp reserve_step) simp_all
    moreover have "update_to_ready ?sid blob (now + sandbox_ttl_default_seconds s)
        (now + sandbox_ttl_max_seconds s) (db w @ [?r]) = (Inr True, db w')"
      using created update_new[of ?sid "db w"] by (simp add: store_run)
    from step.commit[OF this, of T] have "step s (db w @ [?r], add_mset (Creating ?sid now) T) (db w', T)"
      by simp
    ultimately show ?thesis by (rule rtranclp.rtrancl_into_rtrancl)
  qed simp
qed

lemma runs_reset:
  assumes "sv_settings S = s"
  shows "runs s (reset_ttl S E sid)"
proof (rule runsI)
  fix w r w' T assume run: "reset_ttl S E sid w = (r, w')"
  show "(step s)\<^sup>*\<^sup>* (db w, T) (db w', T)"
  proof (cases "\<exists>row t. get sid (db w) = Some row \<and> reset_decision s (e_time E (os w)) row = Inr t")
    case True
    then obtain row t where row: "get sid (db w) = Some row"
      and t: "reset_decision s (e_time E (os w)) row = Inr t" by blast
    then have "(step s)\<^sup>*\<^sup>* (db w, T) (db w, add_mset (Resetting sid t) T)"
      by (intro r_into_rtranclp step.reset_read)
    also have "step s \<dots> (snd (update_ttl sid t 1 (db w)), T)" by (rule step.reset_write)
    also have "snd (update_ttl sid t 1 (db w)) = db w'"
      using run row t assms by (auto simp: reset_ttl_run)
    finally show ?thesis by simp
  next
    case False
    with run assms show ?thesis by (auto simp: reset_ttl_run split: option.splits sum.splits)
  qed
qed

text \<open>Both ways to end a session: the row is read, the containers go, the status is written.\<close>

lemma nuke_steps:
  assumes "get sid (db w) = Some r" and "frames db m"
  shows "(step s)\<^sup>*\<^sup>* (db w, T)
    (db (snd (thenE (quietE m) (thenE (store_op (set_status sid STATUS_NUKED)) (ret a)) w)), T)"
proof -
  have "(step s)\<^sup>*\<^sup>* (db w, T) (db w, add_mset (Nuking sid) T)"
    using assms(1) by (intro r_into_rtranclp step.nuke_read)
  also have "step s \<dots> (snd (set_status sid STATUS_NUKED (db w)), T)" by (rule step.nuke_write)
  also have "snd (set_status sid STATUS_NUKED (db w))
      = db (snd (thenE (quietE m) (thenE (store_op (set_status sid STATUS_NUKED)) (ret a)) w))"
    using assms(2) by (simp add: thenE_apply quietE_apply store_op_eq store_run ret_apply frames_def)
  finally show ?thesis by simp
qed

lemma runs_nuke: "runs s (nuke (real_service E X s fernet) sid)"
proof (rule runsI)
  fix w r w' T
  assume run: "nuke (real_service E X s fernet) sid w = (r, w')"
  show "(step s)\<^sup>*\<^sup>* (db w, T) (db w', T)"
  proof (cases "get sid (db w)")
    case None
    with run show ?thesis by (simp add: nuke_def bindE_apply getsW_apply throw_apply)
  next
    case (Some row)
    from nuke_steps[OF this, of "down_session E (s_compose_path row) True 120" s T "()"] run Some
    show ?thesis
      by (auto simp: nuke_def bindE_apply getsW_apply frame_intros thenE_apply quietE_apply store_op_eq
          store_run ret_apply)
  qed
qed

lemma runs_nuke_by_ticket: "runs s (nuke_by_ticket (real_service E X s fernet) ticket sid)"
proof (rule runsI)
  fix w r w' T
  assume run: "nuke_by_ticket (real_service E X s fernet) ticket sid w = (r, w')"
  show "(step s)\<^sup>*\<^sup>* (db w, T) (db w', T)"
  proof (cases "get sid (db w)")
    case None
    with run show ?thesis by (simp add: nuke_by_ticket_def bindE_apply getsW_apply throw_apply)
  next
    case (Some row)
    from nuke_steps[OF this, of "down_session E (s_compose_path row) True 120" s T "''nuked''"] run Some
    show ?thesis
      by (auto simp: nuke_by_ticket_def bindE_apply getsW_apply throw_apply ret_apply frame_intros
          split: if_splits)
  qed
qed


section \<open>The routes\<close>

lemma runs_serve:
  assumes "S = real_service E X s fernet"
  shows "runs s (serve S E cf api_key req)"
proof -
  have read: "runs s (view S E sid)" "runs s (ca_pem E sid)" for sid
    unfolding view_def ca_pem_def Let_def
    by (auto split: option.split intro!: runs_frames frame_intros)
  have "runs s (create_instance S E r)" for r
    unfolding create_instance_def assms
    by (intro runs_intros runs_create) (auto split: exn.split intro: runs_intros)
  moreover have "runs s (get_session S E sid)" for sid
    unfolding get_session_def by (intro runs_intros read) (auto split: option.split intro: runs_intros)
  moreover have "runs s (reset_ttl_route S E sid)" for sid
    unfolding reset_ttl_route_def assms
    by (intro runs_intros runs_reset) (auto split: exn.split intro: runs_intros)
  moreover have "runs s (delete_session S sid)" for sid
    unfolding delete_session_def assms
    by (intro runs_intros runs_nuke) (auto split: exn.split intro: runs_intros)
  moreover have "runs s (get_ca E sid)" for sid
    unfolding get_ca_def by (intro runs_intros read) (auto split: exn.split intro: runs_intros)
  ultimately show ?thesis
    unfolding serve_def guarded_def with_body_def with_path_id_def
    by (auto split: sum.split request.split intro: runs_intros)
qed

lemma runs_webhook:
  assumes "S = real_service E X s fernet"
  shows "runs s (serve_webhook decode_body S raw_body sig)"
proof -
  have "runs s (ticket_closed S r)" for r
    unfolding ticket_closed_def assms
    by (intro runs_intros runs_nuke_by_ticket) (auto split: exn.split intro: runs_intros)
  then show ?thesis
    unfolding serve_webhook_def with_body_def by (auto split: sum.split intro!: runs_intros)
qed

section \<open>The reaper\<close>

lemma settle_steps:
  "(step s)\<^sup>*\<^sup>* (db w, add_mset (Tearing stuck (map fst results)) T) (db (snd (settle stuck results w)), T)"
proof (induction stuck results arbitrary: w rule: settle.induct)
  case (1 stuck)
  then show ?case by (auto simp: ret_apply intro: step.ended)
next
  case (2 stuck rec e rest)
  then show ?case by (auto simp: throw_apply intro: step.ended)
next
  case (3 stuck rec ok rest)
  let ?T = "\<lambda>todo. add_mset (Tearing stuck todo) T"
  show ?case
  proof (cases ok)
    case False
    have "step s (db w, ?T (rec # map fst rest)) (db w, ?T (map fst rest))" by (rule step.skipped)
    with "3.IH"(1)[of w] False show ?thesis by (auto intro: converse_rtranclp_into_rtranclp)
  next
    case True
    define w1 where "w1 = w\<lparr>db := snd (settle_op stuck rec (db w))\<rparr>"
    have w': "db (snd (settle stuck ((rec, Inr ok) # rest) w)) = db (snd (settle stuck rest w1))"
      using True by (simp add: settle_ok w1_def del: settle.simps split: prod.split sum.split)
    have "step s (db w, ?T (rec # map fst rest)) (db w1, ?T (map fst rest))"
      unfolding w1_def using step.settled[of s "db w" stuck rec "map fst rest" T] by simp
    with "3.IH"(2)[of w1] True w' show ?thesis by (auto intro: converse_rtranclp_into_rtranclp)
  qed
qed

lemma reap_steps:
  assumes uniq: "unique_ids (db w)" and run: "reap_once E (docker_down E) now_opt g v w = (r, w')"
  shows "(step s)\<^sup>*\<^sup>* (db w, T) (db w', T)"
proof -
  define now where "now = pass_now E now_opt w"
  define expired where "expired = filter (expired_due now) (db w)"
  define stuck where "stuck = filter (stuck_due now) (db w)"
  obtain results w1 where todo: "map fst results = expired @ stuck"
    and w1: "db w1 = update_where (expired_due now) (\<lambda>r. r\<lparr>s_status := STATUS_EXPIRED\<rparr>) (db w)"
    and settle: "settle stuck results w1 = (r, w')"
    by (rule docker_down.reap_once_run[OF uniq, of E v now_opt g])
      (simp add: run claimed_def due_rows_def expired_def stuck_def now_def)
  have "claim_expired now (db w) = (Inr expired, db w1)"
    using uniq by (simp add: store_run w1 expired_def)
  then have "(step s)\<^sup>*\<^sup>* (db w, T) (db w1, add_mset (Claimed now expired) T)"
    by (intro r_into_rtranclp step.claim)
  also have "claim_stuck now g (db w1) = (Inr stuck, db w1)"
    by (simp add: store_run w1 stuck_after_claim stuck_def)
  then have "step s (db w1, add_mset (Claimed now expired) T)
      (db w1, add_mset (Tearing stuck (expired @ stuck)) T)"
    by (rule step.collect)
  also have "(step s)\<^sup>*\<^sup>* \<dots> (db w', T)"
    using settle_steps[of s w1 stuck results T] todo settle by simp
  finally show ?thesis .
qed

section \<open>The table\<close>

text \<open>Whatever the tasks in progress rely on, no step breaks the invariant of the table.\<close>

lemma step_wf: "step s x y \<Longrightarrow> wf_store (fst x) \<Longrightarrow> wf_store (fst y)"
proof (induction rule: step.induct)
  case (reserve sid ticket date dbs paths now rows d rows' T)
  then show ?case
    using docker_ports.reserve_wf[of rows _ s, OF _ reserve.hyps] by (simp add: placeholder_def)
next
  case (commit sid blob now rows won rows' T)
  then show ?case
    using to_ready.wf_upd[of rows sid blob "now + sandbox_ttl_default_seconds s"
        "now + sandbox_ttl_max_seconds s"] by simp
next
  case (claim now rows expired rows' T)
  then show ?case using wf_claim_expired[of rows now] by simp
next
  case (collect now g rows stuck rows' expired T)
  then show ?case using wf_claim_stuck[of rows now g] by simp
qed (simp_all add: error_status.wf_upd ttl_update.wf_upd nuke_status.wf_upd mark_nuked.wf_upd settle_op_def)

lemma steps_wf: "(step s)\<^sup>*\<^sup>* x y \<Longrightarrow> wf_store (fst x) \<Longrightarrow> wf_store (fst y)"
  by (induction rule: rtranclp_induct) (auto intro: step_wf)

section \<open>The refinement\<close>

text \<open>C5: Every request the API answers, every webhook call and every pass of the reaper is, for
  the store, a run of the concurrent system, whatever other tasks are in progress.\<close>

theorem handlers_are_runs:
  assumes "build_service E X s = Inr S" and "unique_ids (db w)"
  shows "(step s)\<^sup>*\<^sup>* (db w, T) (db (snd (serve S E cf api_key req w)), T)
     \<and> (step s)\<^sup>*\<^sup>* (db w, T) (db (snd (serve_webhook decode_body S raw_body sig w)), T)
     \<and> (step s)\<^sup>*\<^sup>* (db w, T) (db (snd (reap_once E (docker_down E) now_opt g v w)), T)"
  using runs_serve[OF build_service_Inr[OF assms(1)], of cf api_key req]
    runs_webhook[OF build_service_Inr[OF assms(1)], of decode_body raw_body sig]
    reap_steps[OF assms(2), of E now_opt g v]
  by (auto simp: runs_def) (metis prod.collapse)

lemma handlers_are_runs_witness:
  "(step sample_settings)\<^sup>*\<^sup>* ([sample_row], {#})
     (db (snd (reap_once sample_env (docker_down sample_env) (Some 99999) 300 False (sample_world [sample_row]))), {#})"
  using handlers_are_runs[OF sample_build, of "sample_world [sample_row]" "{#}"]
  by (simp add: sample_world_def unique_ids_def)

text \<open>C10: No request, webhook call or pass of the reaper, however it ends, breaks the table: ids stay
  unique, statuses known, and no two sessions that are starting, ready or expired share a port.\<close>

theorem handlers_keep_table:
  assumes "build_service E X s = Inr S" and "wf_store (db w)"
  shows "wf_store (db (snd (serve S E cf api_key req w)))
     \<and> wf_store (db (snd (serve_webhook decode_body S raw_body sig w)))
     \<and> wf_store (db (snd (reap_once E (docker_down E) now_opt g v w)))"
proof -
  have S: "S = real_service E X s (sandbox_fernet_key s)" using assms(1) by (rule build_service_Inr)
  obtain r w' where "reap_once E (docker_down E) now_opt g v w = (r, w')" by fastforce
  with assms(2) have "(step s)\<^sup>*\<^sup>* (db w, {#}) (db (snd (reap_once E (docker_down E) now_opt g v w)), {#})"
    using reap_steps[of w E now_opt g v r w' s "{#}"] by (simp add: wf_store_def)
  with runs_serve[OF S, of cf api_key req] runs_webhook[OF S, of decode_body raw_body sig] assms(2)
  show ?thesis
    unfolding runs_def using steps_wf[of s "(db w, {#})"] by fastforce
qed

lemma handlers_keep_table_witness:
  "wf_store (db (snd (serve sample_service sample_env (Inr \<lparr>ai_email = JNull, ai_sub = JNull, ai_raw = []\<rparr>)
     (Some ''key'') (PostResetTtl ''11111111'') (sample_world [sample_row]))))"
proof -
  have "wf_store (db (sample_world [sample_row]))"
    by (simp add: sample_world_def wf_store_def unique_ids_def active_ports_distinct_def)
  from handlers_keep_table[OF sample_build this] show ?thesis by blast
qed

end
