(* ===== verification/Races.thy ===== *)
theory Races
  imports System
begin

text \<open>
  Two interleavings the store does not exclude: an extension that is granted while the reaper has
  already claimed the session, and a reaper that tears a session down in the middle of its create.
\<close>

section \<open>The reaper reaches a session\<close>

lemma skip_steps: "(step s)\<^sup>*\<^sup>* (rows, add_mset (Tearing stuck (xs @ todo)) T) (rows, add_mset (Tearing stuck todo) T)"
  by (induction xs) (auto intro: converse_rtranclp_into_rtranclp step.skipped)

text \<open>One session of the list is torn down, the others fail.\<close>

lemma settle_one:
  assumes "rec \<in> set todo"
  shows "(step s)\<^sup>*\<^sup>* (rows, add_mset (Tearing stuck todo) T) (snd (settle_op stuck rec rows), T)"
proof -
  obtain xs ys where todo: "todo = xs @ rec # ys" using assms by (meson split_list)
  have "(step s)\<^sup>*\<^sup>* (rows, add_mset (Tearing stuck todo) T) (rows, add_mset (Tearing stuck (rec # ys)) T)"
    unfolding todo by (rule skip_steps)
  also have "step s \<dots> (snd (settle_op stuck rec rows), add_mset (Tearing stuck ys) T)" by (rule step.settled)
  also have "step s \<dots> (snd (settle_op stuck rec rows), T)" by (rule step.ended)
  finally show ?thesis .
qed

text \<open>The two queries of a pass.\<close>

lemma claim_step:
  assumes "unique_ids rows"
  shows "step s (rows, T) (update_where (expired_due now) (\<lambda>r. r\<lparr>s_status := STATUS_EXPIRED\<rparr>) rows,
    add_mset (Claimed now (filter (expired_due now) rows)) T)"
  using assms by (intro step.claim) (simp add: store_run)

lemma collect_step:
  "step s (rows, add_mset (Claimed now expired) T)
     (rows, add_mset (Tearing (filter (stuck_due now) rows) (expired @ filter (stuck_due now) rows)) T)"
  by (rule step.collect) (simp add: claim_stuck_run)

section \<open>A granted extension that is lost\<close>

text \<open>C36: An extension can be granted and lost: when a ready session is past its expiry but its
  extension is still allowed, the reaper may claim it between the two store operations of
  \<^verbatim>\<open>reset_ttl\<close>; the extension is written all the same, to a time that lies ahead, and the session is
  nuked.\<close>

theorem granted_extension_lost:
  assumes "valid_settings s" and "reachable s (rows, T)"
    and "get sid rows = Some r" and "expired_due now r" and "reset_decision s now r = Inr t"
    and "now < s_expires_at r + sandbox_ttl_reset_add_seconds s"
  shows "now < t \<and> (\<exists>rows'. (step s)\<^sup>*\<^sup>* (rows, T) (rows', T) \<and> get sid rows' =
    Some (r\<lparr>s_status := STATUS_NUKED, s_expires_at := t, s_ttl_extended := 1\<rparr>))"
proof
  have ready: "s_status r = STATUS_READY"
    using assms(5) by (auto simp: reset_decision_def split: if_splits)
  show "now < t" using assms(5,6) by (auto simp: reset_decision_def split: if_splits)
  have uniq: "unique_ids rows" using reachable_inv[OF assms(2,1)] by (rule inv_unique)
  define rows1 where "rows1 = update_where (expired_due now) (\<lambda>r. r\<lparr>s_status := STATUS_EXPIRED\<rparr>) rows"
  define rows2 where "rows2 = snd (update_ttl sid t 1 rows1)"
  define stuck where "stuck = filter (stuck_due now) rows2"
  let ?expired = "filter (expired_due now) rows"
  have "(step s)\<^sup>*\<^sup>* (rows, T) (rows, add_mset (Resetting sid t) T)"
    using assms(3,5) by (intro r_into_rtranclp step.reset_read)
  also have "step s \<dots> (rows1, add_mset (Resetting sid t) (add_mset (Claimed now ?expired) T))"
    using claim_step[OF uniq, of s "add_mset (Resetting sid t) T" now] by (simp add: rows1_def add_mset_commute)
  also have "step s \<dots> (rows2, add_mset (Claimed now ?expired) T)"
    unfolding rows2_def by (rule step.reset_write)
  also have "step s \<dots> (rows2, add_mset (Tearing stuck (?expired @ stuck)) T)"
    unfolding stuck_def by (rule collect_step)
  also have "(step s)\<^sup>*\<^sup>* \<dots> (snd (settle_op stuck r rows2), T)"
    using assms(3,4) by (intro settle_one) (auto dest: get_Some)
  finally have "(step s)\<^sup>*\<^sup>* (rows, T) (snd (settle_op stuck r rows2), T)" by simp
  moreover have "get sid rows1 = Some (r\<lparr>s_status := STATUS_EXPIRED\<rparr>)"
    unfolding rows1_def using assms(3,4) by (subst get_update_where) simp_all
  then have "get sid rows2 = Some (r\<lparr>s_status := STATUS_EXPIRED, s_expires_at := t, s_ttl_extended := 1\<rparr>)"
    by (simp add: rows2_def ttl_update.get_upd)
  then have "get sid (snd (settle_op stuck r rows2))
      = Some (r\<lparr>s_status := STATUS_NUKED, s_expires_at := t, s_ttl_extended := 1\<rparr>)"
    using settle_op_get[of stuck r rows2 sid] ready get_Some[OF assms(3)] by (simp add: was_stuck_def)
  ultimately show "\<exists>rows'. (step s)\<^sup>*\<^sup>* (rows, T) (rows', T) \<and> get sid rows' =
      Some (r\<lparr>s_status := STATUS_NUKED, s_expires_at := t, s_ttl_extended := 1\<rparr>)" by blast
qed

lemma granted_extension_lost_witness:
  "\<exists>rows'. (step sample_settings)\<^sup>*\<^sup>* ([sample_row], {#}) (rows', {#}) \<and> get ''11111111'' rows'
     = Some (sample_row\<lparr>s_status := STATUS_NUKED, s_expires_at := 36900, s_ttl_extended := 1\<rparr>)"
proof -
  have "expired_due 22600 sample_row" by (simp add: expired_due_def)
  moreover have "reset_decision sample_settings 22600 sample_row = Inr 36900"
    by (simp add: reset_decision_def sample_settings_def)
  ultimately show ?thesis
    using granted_extension_lost[OF sample_valid sample_reachable sample_get, of 22600 36900]
    by (simp add: sample_settings_def)
qed

section \<open>A slow create that is torn down\<close>

text \<open>C37: A create may take two hours for one clone, but its row is due after one: once the placeholder's
  deadline has passed, a pass of the reaper may tear the session down while the create is still at
  work, and then nothing makes the session ready any more.\<close>

theorem slow_create_torn_down:
  assumes "valid_settings s" and "reachable s (rows, add_mset (Creating sid t0) T)"
    and "get sid rows = Some r" and "s_status r = STATUS_STARTING" and "t0 + 3600 < now"
  shows "\<exists>rows'. (step s)\<^sup>*\<^sup>* (rows, add_mset (Creating sid t0) T) (rows', add_mset (Creating sid t0) T)
     \<and> get sid rows' = Some (r\<lparr>s_status := STATUS_NUKED\<rparr>)
     \<and> (\<forall>y. (step s)\<^sup>*\<^sup>* (rows', add_mset (Creating sid t0) T) y
          \<longrightarrow> (\<exists>r'. get sid (fst y) = Some r' \<and> s_status r' \<noteq> STATUS_READY))"
proof -
  let ?T = "add_mset (Creating sid t0) T"
  have inv: "sys_inv s (rows, ?T)" using assms(2,1) by (rule reachable_inv)
  have uniq: "unique_ids rows" using inv by (rule inv_unique)
  have "never_ready r" and "s_created_at r = t0"
    using inv_task[OF inv, of "Creating sid t0"] assms(3) by (simp_all add: task_ok_def)
  then have due: "stuck_due now r" using assms(4,5) by (simp add: stuck_due_def never_ready_def)
  define rows1 where "rows1 = update_where (expired_due now) (\<lambda>r. r\<lparr>s_status := STATUS_EXPIRED\<rparr>) rows"
  define stuck where "stuck = filter (stuck_due now) rows1"
  let ?expired = "filter (expired_due now) rows" and ?rows' = "snd (settle_op stuck r rows1)"
  have get1: "get sid rows1 = Some r"
    unfolding rows1_def using assms(3,4) by (subst get_update_where) (simp_all add: expired_due_def)
  have in_stuck: "r \<in> set stuck" using get_Some[OF get1] due by (simp add: stuck_def)
  have "(step s)\<^sup>*\<^sup>* (rows, ?T) (rows1, add_mset (Claimed now ?expired) ?T)"
    unfolding rows1_def using uniq by (intro r_into_rtranclp claim_step)
  also have "step s \<dots> (rows1, add_mset (Tearing stuck (?expired @ stuck)) ?T)"
    unfolding stuck_def by (rule collect_step)
  also have "(step s)\<^sup>*\<^sup>* \<dots> (?rows', ?T)"
    using in_stuck by (intro settle_one) simp
  finally have run: "(step s)\<^sup>*\<^sup>* (rows, ?T) (?rows', ?T)" by simp
  have nuked: "get sid ?rows' = Some (r\<lparr>s_status := STATUS_NUKED\<rparr>)"
    using get1 get_Some[OF get1] assms(4) by (simp add: settle_op_get)
  have "sys_inv s (?rows', ?T)"
    using run inv by (induction rule: rtranclp_induct) (auto intro: step_inv assms(1))
  from ended_steps[OF _ assms(1) this] nuked have
    "\<forall>y. (step s)\<^sup>*\<^sup>* (?rows', ?T) y \<longrightarrow> (\<exists>r'. get sid (fst y) = Some r' \<and> s_status r' \<noteq> STATUS_READY)"
    by fastforce
  with run nuked show ?thesis by blast
qed

lemma slow_create_torn_down_witness:
  "\<exists>rows'. (step sample_settings)\<^sup>*\<^sup>* ([starting_row], {#Creating ''11111111'' 900#})
      (rows', {#Creating ''11111111'' 900#})
    \<and> get ''11111111'' rows' = Some (starting_row\<lparr>s_status := STATUS_NUKED\<rparr>)"
  using slow_create_torn_down[OF sample_valid sample_creating, of starting_row 4501] by (auto simp: get_def)

end
