(* ===== verification/Components.thy ===== *)
theory Components
  imports Guarantees Auth
begin

text \<open>
  What the components promise one by one: the settings, the port allocator, the validators and the
  credentials made from what they accept, the two webhook checks, the waiting loops, the tunnel and
  the certificates.
\<close>

section \<open>Settings and ports\<close>

text \<open>C30: Settings that load are usable: the port range is not empty and holds one port for every
  number between its bounds, and the default lifetime of a session lies between the minimal and
  the maximal one.\<close>

theorem settings_usable:
  assumes "make_settings home raw = Inr s"
  shows "sandbox_ttl_min_seconds s \<le> sandbox_ttl_default_seconds s
     \<and> sandbox_ttl_default_seconds s \<le> sandbox_ttl_max_seconds s
     \<and> port_range s \<noteq> [] \<and> distinct (port_range s)
     \<and> int (length (port_range s)) = sandbox_port_range_end s - sandbox_port_range_start s + 1
     \<and> set (port_range s) = {sandbox_port_range_start raw .. sandbox_port_range_end raw}"
proof -
  have "valid_settings s" using assms by (rule make_settings_valid)
  moreover have "sandbox_port_range_start s = sandbox_port_range_start raw"
    "sandbox_port_range_end s = sandbox_port_range_end raw"
    using assms by (auto simp: make_settings_def Let_def split: sum.splits if_splits)
  moreover have "port_range s \<noteq> [] \<longleftrightarrow> 0 < length (port_range s)" by simp
  ultimately show ?thesis
    by (auto simp: valid_settings_def length_port_range simp del: length_greater_0_conv)
qed

lemma settings_usable_witness:
  "int (length (port_range sample_settings)) = 940"
proof -
  have "make_settings (\<lambda>_. None) sample_settings = Inr sample_settings"
    by (simp add: make_settings_def expanduser_def sample_settings_def port_range_order_def
        ttl_max_above_default_def)
  from settings_usable[OF this] show ?thesis by (simp add: sample_settings_def)
qed

text \<open>C29: The allocator returns the lowest port of the range that is not in use, and fails only when
  every port of the range is.\<close>

theorem allocate_port_lowest:
  "case allocate_port used s of
     Inr p \<Rightarrow> sandbox_port_range_start s \<le> p \<and> p \<le> sandbox_port_range_end s \<and> p \<notin> used
       \<and> {sandbox_port_range_start s ..< p} \<subseteq> used
   | Inl e \<Rightarrow> {sandbox_port_range_start s .. sandbox_port_range_end s} \<subseteq> used
       \<and> e = DockerOpsError ''no free ports in configured range''"
proof (cases "allocate_port used s")
  case (Inl e)
  then have "set (port_range s) \<subseteq> used" and "e = DockerOpsError ''no free ports in configured range''"
    by (simp_all add: allocate_port_def scan_ports_Inl)
  moreover have "set (port_range s) = {sandbox_port_range_start s .. sandbox_port_range_end s}" by auto
  ultimately show ?thesis using Inl by simp
next
  case (Inr p)
  then have p: "sandbox_port_range_start s \<le> p" "p \<le> sandbox_port_range_end s" "p \<notin> used"
    by (auto dest: allocated_port)
  have "q \<in> used" if "q \<in> {sandbox_port_range_start s ..< p}" for q
  proof (rule ccontr)
    assume "q \<notin> used"
    with that p Inr have "p \<le> q"
      unfolding allocate_port_def by (intro scan_ports_least[of used "port_range s"]) auto
    with that show False by simp
  qed
  with p Inr show ?thesis by auto
qed

section \<open>Names\<close>

text \<open>C33: The names the validator accepts: one to sixty-four word characters, or, because of the
  dollar sign in its pattern, word characters and one final newline.\<close>

theorem names_accepted:
  "validate_name v kind = Inr v \<longleftrightarrow> length v \<le> 64
     \<and> (\<exists>body. (v = body \<or> v = body @ [CHR 0x0A]) \<and> body \<noteq> [] \<and> list_all word_char body)"
  by (simp add: validate_name_Inr name_re_iff)

text \<open>The characters that could end a quoted name or text in the statements the service sends.\<close>

definition breaks_quotes :: "char \<Rightarrow> bool" where
  "breaks_quotes c \<longleftrightarrow> c \<in> {CHR 0x27, CHR 0x22, CHR 0x60, CHR 0x5C, CHR 0x00}"

lemma word_char_safe: "word_char c \<Longrightarrow> \<not> breaks_quotes c"
proof
  assume w: "word_char c" and "breaks_quotes c"
  then have "c \<in> {CHR 0x27, CHR 0x22, CHR 0x60, CHR 0x5C, CHR 0x00}" by (simp add: breaks_quotes_def)
  then have "\<not> word_char c"
    by (elim insertE emptyE) (simp_all, code_simp+)
  with w show False by simp
qed

lemma name_safe: "name_re v \<Longrightarrow> c \<in> set v \<Longrightarrow> \<not> breaks_quotes c"
proof -
  assume "name_re v" and "c \<in> set v"
  then obtain body where "list_all word_char body" and "c \<in> set body \<or> c = CHR 0x0A"
    by (auto simp: name_re_iff)
  then show ?thesis
    using word_char_safe[of c] by (auto simp: list_all_iff breaks_quotes_def)
qed

lemma list_all_safe: "list_all (\<lambda>c. \<not> breaks_quotes c) s \<Longrightarrow> set t \<subseteq> set s \<Longrightarrow> c \<in> set t \<Longrightarrow> \<not> breaks_quotes c"
  by (auto simp: list_all_iff)

lemma hex_safe: "c \<in> set (hex bs) \<Longrightarrow> \<not> breaks_quotes c"
  by (rule list_all_safe[of hex_digits, OF _ set_hex])
    (simp add: hex_digits_def breaks_quotes_def)

lemma b64_safe: "c \<in> set (b64url bs) \<Longrightarrow> \<not> breaks_quotes c"
  by (rule list_all_safe[of b64_alphabet, OF _ set_b64url])
    (simp add: b64_alphabet_def breaks_quotes_def)

text \<open>C25: The credentials of a validated database cannot break out of the quotes of the grant
  statements: no quote, backtick, backslash or NUL in the database, the user or the password. With
  a source of as many random bytes as were asked for, the user name is eleven characters longer
  than the database name and the password has thirty-two characters (the 24 the code passes are bytes).\<close>

theorem credentials_safe:
  assumes "valid_dbspec d" and "make_cred E d w = (Inr c, w')"
  shows "(\<forall>ch \<in> set (g_db (grant_of c)) \<union> set (g_user (grant_of c)) \<union> set (g_password (grant_of c)).
        \<not> breaks_quotes ch)
     \<and> g_db (grant_of c) = spec_name d
     \<and> ((\<forall>n x. length (fst (e_random E n x)) = n) \<longrightarrow>
          length (g_user (grant_of c)) = length (spec_name d) + 11
          \<and> length (g_password (grant_of c)) = 32)"
proof -
  obtain tok x y where c: "c = \<lparr>dc_name = spec_name d, dc_user = ''u_'' @ spec_name d @ ''_'' @ hex tok,
      dc_password = b64url (fst (e_random E 24 y)), dc_tables = table_list d\<rparr>"
    and tok: "tok = fst (e_random E 4 x)"
    using assms(2)
    by (auto simp: make_cred_def gen_password_def bindE_apply os_draw_def ret_apply
        split: prod.splits) (metis fst_conv)
  have name: "name_re (spec_name d)" using assms(1) by (simp add: valid_dbspec_def)
  have "\<not> breaks_quotes CHR ''u''" "\<not> breaks_quotes CHR ''_''" by (simp_all add: breaks_quotes_def)
  with name show ?thesis
    by (auto simp: c tok grant_of_def length_b64url dest: name_safe hex_safe b64_safe)
qed

lemma credentials_safe_witness:
  "\<exists>c w'. make_cred sample_env \<lparr>spec_name = ''crm'', spec_tables = TNone\<rparr> (sample_world []) = (Inr c, w')
     \<and> length (g_user (grant_of c)) = 14 \<and> length (g_password (grant_of c)) = 32
     \<and> CHR 0x27 \<notin> set (g_user (grant_of c))"
proof -
  let ?d = "\<lparr>spec_name = ''crm'', spec_tables = TNone\<rparr>"
  have valid: "valid_dbspec ?d"
    by (simp add: valid_dbspec_def name_re_def word_char_def is_alnum_def is_digit_def char_between_def)
  obtain c w' where run: "make_cred sample_env ?d (sample_world []) = (Inr c, w')"
    by (simp add: make_cred_def gen_password_def bindE_apply os_draw_def ret_apply sample_env_def)
  have "\<forall>n x. length (fst (e_random sample_env n x)) = n" by (simp add: sample_env_def)
  with credentials_safe[OF valid run] run show ?thesis by (auto simp: breaks_quotes_def)
qed

section \<open>Stored requests\<close>

lemma check_tables_ok:
  "distinct ts \<Longrightarrow> set ts \<inter> seen = {} \<Longrightarrow> \<forall>t \<in> set ts. length t \<le> 64 \<and> name_re t
   \<Longrightarrow> check_tables seen (map JStr ts) = Inr ts"
proof (induction ts arbitrary: seen)
  case (Cons t ts)
  then have "validate_name t ''table'' = Inr t" by (simp add: validate_name_Inr)
  with Cons show ?case by simp
qed simp

definition dump_members :: "dbspec \<Rightarrow> (string \<times> json) list" where
  "dump_members d =
     [(''name'', JStr (spec_name d)),
      (''tables'', case spec_tables d of TNone \<Rightarrow> JNull | TAll \<Rightarrow> JStr ''all''
                   | TList ts \<Rightarrow> JArr (map JStr ts))]"

lemma make_dump: "valid_dbspec d \<Longrightarrow> make_dbspec (dump_members d) = Inr d"
proof -
  assume v: "valid_dbspec d"
  then have "validate_name (spec_name d) ''db'' = Inr (spec_name d)"
    by (simp add: valid_dbspec_def validate_name_Inr)
  moreover have "normalise_tables (case spec_tables d of TNone \<Rightarrow> JNull | TAll \<Rightarrow> JStr ''all''
      | TList ts \<Rightarrow> JArr (map JStr ts)) = Inr (spec_tables d)"
    using v by (auto simp: normalise_tables_def check_table_list_def valid_dbspec_def check_tables_ok
        split: tables.splits)
  ultimately show ?thesis by (simp add: make_dbspec_def dump_members_def jget_def)
qed

lemma accept_dumps: "accept_legacy_strings (map dump_dbspec ds) = Inr (map dump_members ds)"
  by (induction ds) (simp_all add: dump_dbspec_def dump_members_def)

lemma make_dumps: "\<forall>d \<in> set ds. valid_dbspec d \<Longrightarrow> make_dbspecs (map dump_members ds) = Inr ds"
  by (induction ds) (simp_all add: make_dump)

text \<open>C31: The request a session was created for can be recovered from its row: the stored JSON
  decodes to a list the validators accept, and what they make of it is the request's list of
  databases.\<close>

theorem stored_request_roundtrip:
  assumes "valid_request req"
  shows "\<exists>v. loads (s_dbs_json (first_row s sid (cr_ticket req) date (cr_dbs req) paths now port)) = Some v
     \<and> check_dbs v = Inr (cr_dbs req)"
proof -
  let ?v = "JArr (map dump_dbspec (cr_dbs req))"
  have "loads (s_dbs_json (first_row s sid (cr_ticket req) date (cr_dbs req) paths now port)) = Some ?v"
    by (simp add: first_row_def row_of_def placeholder_def json.dec_enc)
  moreover have "check_dbs ?v = Inr (cr_dbs req)"
    using assms
    by (simp add: check_dbs_def accept_dumps make_dumps valid_request_def unique_dbs_def Let_def
        distinct_map card_image distinct_card Suc_le_eq)
  ultimately show ?thesis by blast
qed

lemma stored_request_roundtrip_witness:
  "\<exists>v. loads (s_dbs_json (first_row sample_settings ''11111111'' ''T-1'' ''2024-01-01''
       [\<lparr>spec_name = ''crm'', spec_tables = TList [''a'', ''b'']\<rparr>]
       \<lparr>sp_session_dir = ''d'', sp_compose_path = ''c'', sp_cnf_path = ''f'', sp_tls_dir = ''t'',
        sp_log_dir = ''l''\<rparr> 1000 33060)) = Some v
     \<and> check_dbs v = Inr [\<lparr>spec_name = ''crm'', spec_tables = TList [''a'', ''b'']\<rparr>]"
  using stored_request_roundtrip[of "\<lparr>cr_ticket = ''T-1'',
      cr_dbs = [\<lparr>spec_name = ''crm'', spec_tables = TList [''a'', ''b'']\<rparr>]\<rparr>"]
  by (simp add: valid_request_def valid_dbspec_def ticket_ok_def ticket_char_def name_re_def
      word_char_def is_alnum_def is_digit_def char_between_def)

section \<open>The webhook signature\<close>

text \<open>C32: The two implementations of the webhook check agree, and accept exactly the signature of
  the body: the scheme name and sixty-four hexadecimal digits.\<close>

theorem webhook_checks_agree:
  "(verify_webhook_header secret body (Some header) \<longleftrightarrow> verify_webhook_signature secret body header)
   \<and> (verify_webhook_signature secret body header \<longleftrightarrow> header = webhook_signature secret body)
   \<and> \<not> verify_webhook_header secret body None
   \<and> take 7 (webhook_signature secret body) = ''sha256=''
   \<and> length (webhook_signature secret body) = 71
   \<and> set (drop 7 (webhook_signature secret body)) \<subseteq> set hex_digits"
  using set_hex[of "hmac_sha256 (utf8_encode secret) body"]
  by (auto simp: verify_webhook_header_iff verify_webhook_signature_iff webhook_signature_for_eq
      verify_webhook_header_def truthy_def webhook_signature_def hmac_sha256_def Let_def length_sha256)

section \<open>Waiting for a container\<close>

text \<open>Every run of a program makes at most \<open>n\<close> requests.\<close>

definition makes :: "nat \<Rightarrow> ('x world, 'a) prog \<Rightarrow> bool" where
  "makes n m \<longleftrightarrow> (\<forall>w. length (trace (snd (m w))) \<le> length (trace w) + n)"

lemma makesD: "makes n m \<Longrightarrow> m w = (r, w') \<Longrightarrow> length (trace w') \<le> length (trace w) + n"
  by (metis makes_def snd_conv)

lemma makes_bindE:
  assumes "makes i m" and "\<And>a. makes j (f a)"
  shows "makes (i + j) (bindE m f)"
  unfolding makes_def
proof
  fix w
  obtain x w1 where m: "m w = (x, w1)" by fastforce
  show "length (trace (snd (bindE m f w))) \<le> length (trace w) + (i + j)"
  proof (cases x)
    case (Inl e)
    with makesD[OF assms(1) m] m show ?thesis by (simp add: bindE_apply)
  next
    case (Inr a)
    obtain y w2 where f: "f a w1 = (y, w2)" by fastforce
    with makesD[OF assms(1) m] makesD[OF assms(2) f] m Inr show ?thesis by (simp add: bindE_apply)
  qed
qed

lemma makes_weaken: "makes i m \<Longrightarrow> i \<le> j \<Longrightarrow> makes j m"
  unfolding makes_def by (meson add_left_mono order_trans)

lemma makes_ret: "makes 0 (ret a)"
  by (simp add: makes_def ret_apply)

lemma makes_run_proc: "makes 1 (run_proc E p)"
  by (simp add: makes_def run_proc_def os_call_def split: prod.split)

lemma makes_published: "makes 1 (read_published_port E c)"
proof -
  have "makes (1 + 0) (read_published_port E c)"
    unfolding read_published_port_def
    by (rule makes_bindE[OF makes_run_proc]) (simp add: makes_def ret_apply)
  then show ?thesis by simp
qed

lemma makes_answers: "makes 1 (port_answers E p)"
proof -
  have "makes 1 (tcp_open E h q)" for h q
    by (auto simp: makes_def tcp_open_def tcp_connect_def os_call_def catchE_apply ret_apply throw_apply
        split: prod.split sum.split)
  then show ?thesis
    unfolding port_answers_def by (auto simp: makes_def ret_apply split: option.split)
qed

lemma makes_probe: "makes 3 (healthy_probe E c st)"
proof -
  have "makes 2 (bindE (read_published_port E c) (\<lambda>port.
      bindE (port_answers E port) (\<lambda>ok. ret (if ok then Inl () else Inr st'))))" for st' :: string
    by (rule makes_weaken[of "1 + (1 + 0)"], intro makes_bindE makes_published makes_answers makes_ret)
      simp
  then have "makes (1 + 2) (healthy_probe E c st)"
    unfolding healthy_probe_def Let_def
    by (intro makes_bindE makes_run_proc) (auto intro: makes_weaken[OF makes_ret])
  then show ?thesis by (rule makes_weaken) simp
qed

lemma makes_turn: "makes 5 (healthy_turn E c st)"
proof -
  have "makes 2 (bindE (read_published_port E c) (\<lambda>port.
      bindE (port_answers E port) (\<lambda>ok. ret (if ok then Inl () else Inr (st', ''port='' @ str_opt_int port)))))"
    for st' :: string
    by (rule makes_weaken[of "1 + (1 + 0)"], intro makes_bindE makes_published makes_answers makes_ret)
      simp
  then have "makes (3 + 2) (healthy_turn E c st)"
    unfolding healthy_turn_def
    by (intro makes_bindE makes_probe) (auto split: sum.split intro: makes_weaken[OF makes_ret])
  then show ?thesis by simp
qed

text \<open>A turn that sleeps \<open>p\<close> milliseconds pays for itself.\<close>

lemma turn_paid:
  assumes "c0 < (deadline :: nat)" and "c0 \<le> c1" and "0 < p"
  shows "(deadline - (c1 + p) + (p - 1)) div p + 1 \<le> (deadline - c0 + (p - 1)) div p"
proof -
  have "deadline - (c1 + p) + (p - 1) + p \<le> (deadline - c0 + (p - 1)) \<or> deadline - (c1 + p) = 0"
    using assms by linarith
  then show ?thesis
  proof
    assume "deadline - (c1 + p) + (p - 1) + p \<le> deadline - c0 + (p - 1)"
    then have "(deadline - (c1 + p) + (p - 1) + p) div p \<le> (deadline - c0 + (p - 1)) div p"
      by (rule div_le_mono)
    moreover have "(deadline - (c1 + p) + (p - 1) + p) div p = (deadline - (c1 + p) + (p - 1)) div p + 1"
      using assms(3) by (intro div_add_self2) simp
    ultimately show ?thesis by linarith
  next
    assume "deadline - (c1 + p) = 0"
    moreover have "p div p \<le> (deadline - c0 + (p - 1)) div p"
      using assms by (intro div_le_mono) linarith
    ultimately show ?thesis using assms(3) by simp
  qed
qed

lemma wait_healthy_loop_makes:
  "length (trace (snd (wait_healthy_loop E c t deadline st tcp w)))
     \<le> length (trace w) + 5 * ((deadline - clock w + 1999) div 2000)"
proof (induction E c t deadline st tcp w rule: wait_healthy_loop.induct)
  case (1 E c t deadline st tcp w)
  note unfold = wait_healthy_loop.simps[of E c t deadline st tcp w]
  obtain r w1 where turn: "healthy_turn E c st w = (r, w1)" by fastforce
  note t5 = makesD[OF makes_turn turn] and mono = clock_monoD[OF clock_mono_healthy_turn turn]
  show ?case
  proof (cases "clock w < deadline")
    case True
    have paid: "(deadline - (clock w1 + 2000) + 1999) div 2000 + 1 \<le> (deadline - clock w + 1999) div 2000"
      using turn_paid[OF True mono, of 2000] by simp
    show ?thesis
    proof (cases "\<exists>st' tcp'. r = Inr (Inr (st', tcp'))")
      case again: True
      then obtain st' tcp' where r: "r = Inr (Inr (st', tcp'))" by blast
      from "1.IH"[OF True turn[symmetric] r] r refl
      have "length (trace (snd (wait_healthy_loop E c t deadline st' tcp' (w1\<lparr>clock := clock w1 + 2000\<rparr>))))
          \<le> length (trace w1) + 5 * ((deadline - (clock w1 + 2000) + 1999) div 2000)"
        by simp
      with t5 paid True turn r show ?thesis by (simp add: unfold)
    next
      case False
      with t5 paid True turn show ?thesis
        by (cases r) (auto simp: unfold split: sum.splits)
    qed
  next
    case False
    then show ?thesis by (simp add: unfold)
  qed
qed

lemma makes_run_mysql: "makes 1 (run_mysql E cmd pw inp t)"
proof -
  have "makes (0 + 1) (run_mysql E cmd pw inp t)"
    unfolding run_mysql_def by (intro makes_bindE makes_run_proc) (simp add: makes_def getsW_apply)
  then show ?thesis by simp
qed

lemma wait_ready_loop_makes:
  "length (trace (snd (wait_ready_loop E cmd t timeout deadline err w)))
     \<le> length (trace w) + (deadline - clock w + 999) div 1000"
proof (induction E cmd t timeout deadline err w rule: wait_ready_loop.induct)
  case (1 E cmd t timeout deadline err w)
  note unfold = wait_ready_loop.simps[of E cmd t timeout deadline err w]
  obtain r w1 where turn: "run_mysql E cmd (tg_password t) None 5 w = (r, w1)" by fastforce
  have "clock_mono (run_mysql E cmd (tg_password t) None 5)"
    unfolding run_mysql_def run_proc_def by (intro clock_intros)
  then have mono: "clock w \<le> clock w1" using turn by (rule clock_monoD)
  note t1 = makesD[OF makes_run_mysql turn]
  show ?case
  proof (cases "clock w < deadline")
    case True
    have paid: "(deadline - (clock w1 + 1000) + 999) div 1000 + 1 \<le> (deadline - clock w + 999) div 1000"
      using turn_paid[OF True mono, of 1000] by simp
    show ?thesis
    proof (cases r)
      case (Inl e)
      with t1 paid True turn show ?thesis by (simp add: unfold)
    next
      case (Inr proc)
      with t1 paid True turn 1[OF True turn[symmetric] Inr] show ?thesis
        by (auto simp: unfold)
    qed
  next
    case False
    then show ?thesis by (simp add: unfold)
  qed
qed

text \<open>C28: Waiting is bounded: to wait \<open>t\<close> seconds for a container to be healthy takes at most five
  requests every two seconds, and to wait for MySQL one ping a second, whatever docker and MySQL
  answer.\<close>

theorem waiting_bounded:
  "length (trace (snd (wait_healthy E c (int t) w))) \<le> length (trace w) + 5 * (t div 2 + 1)
   \<and> length (trace (snd (wait_ready E tg (int t) w))) \<le> length (trace w) + t"
proof
  define deadline where "deadline = nat (int (clock w) + 1000 * int t)"
  have "deadline - clock w = 1000 * t" by (simp add: deadline_def)
  then have healthy: "(deadline - clock w + 1999) div 2000 \<le> t div 2 + 1"
    and ready: "(deadline - clock w + 999) div 1000 \<le> t" by linarith+
  show "length (trace (snd (wait_healthy E c (int t) w))) \<le> length (trace w) + 5 * (t div 2 + 1)"
    unfolding wait_healthy_def deadline_def[symmetric]
    by (rule order_trans[OF wait_healthy_loop_makes add_left_mono[OF mult_le_mono2[OF healthy]]])
  show "length (trace (snd (wait_ready E tg (int t) w))) \<le> length (trace w) + t"
  proof (cases "truthy (e_which E ''mysqladmin'' (os w))")
    case True
    then have "wait_ready E tg (int t) w = wait_ready_loop E
        (the (e_which E ''mysqladmin'' (os w)) # ''ping'' # connect_args tg) tg (int t) deadline
        ''no attempt yet'' w"
      by (simp add: wait_ready_def resolve_binary_def bindE_apply getsW_apply ret_apply deadline_def)
    then show ?thesis
      by (simp only:) (rule order_trans[OF wait_ready_loop_makes add_left_mono[OF ready]])
  next
    case False
    then show ?thesis
      by (simp add: wait_ready_def resolve_binary_def bindE_apply getsW_apply throw_apply)
  qed
qed

section \<open>The tunnel\<close>

lemma close_tunnel_run:
  "\<exists>w'. close_tunnel E t w = (Inr (), w') \<and>
     (if e_poll E (t_proc t) (os w) \<noteq> None then w' = w
      else \<exists>evs. trace w' = trace w @ Terminated (t_proc t) # evs)"
proof (cases "e_poll E (t_proc t) (os w) \<noteq> None")
  case True
  then show ?thesis by (simp add: close_tunnel_def bindE_apply getsW_apply ret_apply)
next
  case False
  let ?rest = "catchE (thenE (wait_proc E (t_proc t) 3) (ret ()))
    (on_timeout (thenE (kill_proc E (t_proc t)) (thenE (wait_proc E (t_proc t) 2) (ret ()))))"
  obtain x w1 where t: "terminate_proc E (t_proc t) w = (x, w1)" by fastforce
  then have w1: "trace w1 = trace w @ [Terminated (t_proc t)]"
    by (auto simp: terminate_proc_def os_call_def split: prod.splits)
  have "adds (\<lambda>_. True) ?rest"
    unfolding wait_proc_def kill_proc_def on_timeout_def
    by (intro adds_intros) (auto split: exn.split intro!: adds_intros)
  then obtain evs where "trace (snd (?rest w1)) = trace w1 @ evs"
    unfolding adds_def by blast
  with False t w1 show ?thesis
    by (cases x) (auto simp: close_tunnel_def bindE_apply getsW_apply quietE_apply thenE_apply)
qed

text \<open>C27: Once the forward is up, it does not outlive the work done through it: however the body
  ends, its result or exception is passed on, and the ssh process has exited by itself or is
  terminated first.\<close>

theorem tunnel_always_closed:
  assumes "start_tunnel E a w = (Inr t, w1)" and "open_tunnel E a body w = (r, w')"
  shows "\<exists>w2. body t w1 = (r, w2) \<and>
     (if e_poll E (t_proc t) (os w2) \<noteq> None then w' = w2
      else \<exists>evs. trace w' = trace w2 @ Terminated (t_proc t) # evs)"
proof -
  obtain x w2 where body: "body t w1 = (x, w2)" by fastforce
  obtain w3 where "close_tunnel E t w2 = (Inr (), w3)"
    and "if e_poll E (t_proc t) (os w2) \<noteq> None then w3 = w2
      else \<exists>evs. trace w3 = trace w2 @ Terminated (t_proc t) # evs"
    using close_tunnel_run by blast
  with body assms show ?thesis
    by (auto simp: open_tunnel_def bindE_apply finallyE_apply)
qed

lemma sample_start: "\<exists>t w1. start_tunnel sample_env (tunnel_args_of sample_settings) (sample_world []) = (Inr t, w1)"
  by (simp add: start_tunnel_def known_hosts_file_def pick_local_port_def path_exists_def os_read_def
      os_call_def mkdir_def bindE_apply thenE_apply getsW_apply ret_apply Let_def wait_listening_def
      wait_listening_loop.simps tcp_connect_def sample_world_def sample_env_def)

lemma tunnel_always_closed_witness:
  "\<exists>w' evs. open_tunnel sample_env (tunnel_args_of sample_settings) (\<lambda>t. throw (MySQLOpsError ''x'')) (sample_world [])
      = (Inl (MySQLOpsError ''x'') :: exn + unit, w')
     \<and> (\<exists>pid. Terminated pid \<in> set (trace w'))"
proof -
  let ?body = "\<lambda>t. throw (MySQLOpsError ''x'') :: (unit world, unit) prog"
  obtain t w1 where start: "start_tunnel sample_env (tunnel_args_of sample_settings) (sample_world []) = (Inr t, w1)"
    using sample_start by blast
  obtain r w' where run: "open_tunnel sample_env (tunnel_args_of sample_settings) ?body (sample_world []) = (r, w')"
    by fastforce
  have "e_poll sample_env pid x = None" for pid x by (simp add: sample_env_def)
  with tunnel_always_closed[OF start run] run show ?thesis by (auto simp: throw_apply)
qed

section \<open>The certificates\<close>

text \<open>What a chain of the session's certificates has to be for a client that trusts only its CA.\<close>

definition chains_to :: "cert \<Rightarrow> cert \<Rightarrow> bool" where
  "chains_to leaf ca \<longleftrightarrow> c_issuer leaf = c_subject ca \<and> c_signed_by leaf = c_public_key ca
     \<and> c_aki leaf = Some (c_ski ca) \<and> c_ca ca \<and> c_cert_sign ca \<and> c_path_length ca = Some 0
     \<and> \<not> c_ca leaf \<and> c_signed_by ca = c_public_key ca"

lemma build_ca_Inr:
  assumes "build_ca E X cn w = (Inr (ca, key), w')"
  shows "c_subject ca = cn \<and> c_public_key ca = key \<and> c_ski ca = key \<and> c_signed_by ca = key
     \<and> c_ca ca \<and> c_cert_sign ca \<and> c_path_length ca = Some 0
     \<and> c_not_after ca = c_not_before ca + 60 + 730 * day_s \<and> trace w' = trace w"
  using assms
  by (auto simp: build_ca_def bindE_apply os_draw_def now_s_def os_read_def ret_apply
      CERT_VALIDITY_DAYS_def split: prod.splits)

lemma sign_leaf_Inr:
  assumes "sign_leaf E X ca k cn dns ips srv w = (Inr (leaf, key), w')"
  shows "c_subject leaf = cn \<and> c_issuer leaf = c_subject ca \<and> c_signed_by leaf = k
     \<and> c_aki leaf = Some k \<and> \<not> c_ca leaf \<and> c_public_key leaf = key
     \<and> c_san leaf = Some (san_entries dns ips)
     \<and> c_eku leaf = Some (if srv then ServerAuth else ClientAuth)
     \<and> c_not_after leaf = c_not_before leaf + 60 + 365 * day_s \<and> trace w' = trace w"
  using assms
  by (auto simp: sign_leaf_def bindE_apply os_draw_def now_s_def os_read_def ret_apply
      CERT_VALIDITY_DAYS_def split: prod.splits)

lemma write_cert_Inr:
  "write_cert E X dir name c w = (Inr u, w') \<Longrightarrow> trace w' = trace w @
     [MadeDir dir, Wrote (path_join dir name) (x_cert_pem X c), Chmodded (path_join dir name) 420]"
  and write_key_Inr:
  "write_key E X dir name k w = (Inr u, w') \<Longrightarrow> trace w' = trace w @
     [MadeDir dir, Wrote (path_join dir name) (x_key_pem X k), Chmodded (path_join dir name) 384]"
  by (auto simp: write_cert_def write_key_def Let_def thenE_Inr mkdir_def write_file_def chmod_def
      os_call_def split: prod.splits)

text \<open>C26: The certificates written for a session form one chain: the server's and the client's are
  signed by the session's own CA, the server's names the container, the loopback
  address and the configured host when it is an IPv4 address, each leaf is written beside its own
  key, each key is for its owner only, and the server's is valid for less time than the CA's.\<close>

theorem tls_chain:
  assumes "generate_session_tls E X sid dir host ip w = (Inr m, w')"
  shows "\<exists>ca server client ca_key. chains_to server ca \<and> chains_to client ca
     \<and> c_eku server = Some ServerAuth \<and> c_eku client = Some ClientAuth
     \<and> c_san server = Some (san_entries [host] (server_ips ip))
     \<and> {DNSName host, IPAddress ''127.0.0.1''} \<subseteq> set (san_entries [host] (server_ips ip))
     \<and> c_not_after server - c_not_before server < c_not_after ca - c_not_before ca
     \<and> set (trace w') \<supseteq> set (trace w) \<union>
         {Wrote (ca_cert_path m) (x_cert_pem X ca), Wrote (ca_key_path m) (x_key_pem X ca_key),
          Wrote (server_cert_path m) (x_cert_pem X server), Wrote (client_cert_path m) (x_cert_pem X client),
          Wrote (server_key_path m) (x_key_pem X (c_public_key server)),
          Wrote (client_key_path m) (x_key_pem X (c_public_key client))}
     \<and> {Chmodded (ca_key_path m) 384, Chmodded (server_key_path m) 384, Chmodded (client_key_path m) 384}
         \<subseteq> set (trace w')
     \<and> c_public_key ca = ca_key"
proof -
  have loopback: "ipv4_ok ''127.0.0.1''" by code_simp
  from assms obtain u0 w0 ca ck w1 u1 w2 u2 w3 sc sk w4 u3 w5 u4 w6 cc ckk w7 u5 w8 u6 w9 where
    steps: "mkdir E dir w = (Inr u0, w0)" "build_ca E X (''sandbox-ca-'' @ sid) w0 = (Inr (ca, ck), w1)"
      "write_cert E X dir ''ca.pem'' ca w1 = (Inr u1, w2)" "write_key E X dir ''ca.key'' ck w2 = (Inr u2, w3)"
      "sign_leaf E X ca ck host [host] (server_ips ip) True w3 = (Inr (sc, sk), w4)"
      "write_cert E X dir ''server-cert.pem'' sc w4 = (Inr u3, w5)"
      "write_key E X dir ''server-key.pem'' sk w5 = (Inr u4, w6)"
      "sign_leaf E X ca ck (''sandbox-client-'' @ sid) [''client.'' @ sid @ ''.sandbox''] [] False w6
         = (Inr (cc, ckk), w7)"
      "write_cert E X dir ''client-cert.pem'' cc w7 = (Inr u5, w8)"
      "write_key E X dir ''client-key.pem'' ckk w8 = (Inr u6, w9)"
    and m: "w' = w9" "m = \<lparr>ca_cert_path = path_join dir ''ca.pem'', ca_key_path = path_join dir ''ca.key'',
          server_cert_path = path_join dir ''server-cert.pem'',
          server_key_path = path_join dir ''server-key.pem'',
          client_cert_path = path_join dir ''client-cert.pem'',
          client_key_path = path_join dir ''client-key.pem''\<rparr>"
    unfolding generate_session_tls_def bindE_Inr thenE_Inr
    by (auto simp: ret_apply bindE_Inr thenE_Inr split: prod.splits)
  note facts = build_ca_Inr[OF steps(2)] sign_leaf_Inr[OF steps(5)] sign_leaf_Inr[OF steps(8)]
    write_cert_Inr[OF steps(3)] write_key_Inr[OF steps(4)] write_cert_Inr[OF steps(6)]
    write_key_Inr[OF steps(7)] write_cert_Inr[OF steps(9)] write_key_Inr[OF steps(10)]
  have "trace w0 = trace w @ [MadeDir dir]"
    using steps(1) by (auto simp: mkdir_def os_call_def split: prod.splits)
  with facts show ?thesis
    by (intro exI[of _ ca] exI[of _ sc] exI[of _ cc] exI[of _ ck])
      (auto simp: m chains_to_def san_entries_def server_ips_def loopback day_s_def)
qed

lemma tls_chain_witness:
  "\<exists>m w'. generate_session_tls sample_env sample_x509 ''11111111'' ''/t/1'' ''sandbox-1'' (Some ''10.0.0.1'')
      (sample_world []) = (Inr m, w')
     \<and> Chmodded (ca_key_path m) 384 \<in> set (trace w')"
proof -
  obtain m w' where run: "generate_session_tls sample_env sample_x509 ''11111111'' ''/t/1'' ''sandbox-1''
      (Some ''10.0.0.1'') (sample_world []) = (Inr m, w')"
    by (simp add: generate_session_tls_def build_ca_def sign_leaf_def write_cert_def write_key_def
        mkdir_def write_file_def chmod_def os_call_def os_draw_def now_s_def os_read_def bindE_apply
        thenE_apply ret_apply Let_def sample_env_def sample_x509_def)
  from tls_chain[OF run] run show ?thesis by auto
qed

end
