(* ===== verification/Publishing.thy ===== *)
theory Publishing
  imports Components
begin

text \<open>
  The order of what a create does to its surroundings: until the grants are in place, the only
  compose file ever written for the session binds the loopback address. The proof follows the writes
  of every operation the service calls, through the collection \<^verbatim>\<open>adds_intros\<close>.
\<close>

section \<open>Requests that write no file\<close>

text \<open>A property of requests that only looks at writes.\<close>

definition quiet :: "(event \<Rightarrow> bool) \<Rightarrow> bool" where
  "quiet P \<longleftrightarrow> (\<forall>ev. (\<forall>q c. ev \<noteq> Wrote q c) \<longrightarrow> P ev)"

named_theorems quiet_adds

lemma quiet_prims [quiet_adds]:
  assumes "quiet P"
  shows "adds P (run_proc E p)" "adds P (chmod E q m)" "adds P (mkdir E q)" "adds P (tcp_connect E h port)"
    "adds P (path_exists E q)" "adds P (terminate_proc E pid)" "adds P (kill_proc E pid)"
    "adds P (wait_proc E pid t)" "adds P (pick_local_port E)" "adds P (now_s E)"
    "adds P (os_call (Opened q) f)" "adds P (os_call (Spawned argv) g)" "adds P (os_call (Piped p1 p2) h2)"
  using assms
  unfolding run_proc_def chmod_def mkdir_def tcp_connect_def path_exists_def terminate_proc_def
    kill_proc_def wait_proc_def pick_local_port_def now_s_def quiet_def
  by (auto intro!: adds_intros)

text \<open>The waiting loops add what their turns add.\<close>

lemma adds_listening_turns:
  assumes "adds P (tcp_connect E h port)"
  shows "adds P (wait_listening E h port ms)"
proof -
  have "\<exists>evs. trace (snd (wait_listening_loop E h port d w)) = trace w @ evs \<and> (\<forall>ev \<in> set evs. P ev)" for d w
  using assms
  proof (induction E h port d w rule: wait_listening_loop.induct)
    case (1 E h port d w)
    note unfold = wait_listening_loop.simps[of E h port d w]
    obtain r w1 where call: "tcp_connect E h port w = (r, w1)" by fastforce
    note c = addsD[OF 1(2) call]
    show ?case
    proof (cases "clock w < d \<and> (\<exists>e. r = Inl e \<and> is_os_error e)")
      case True
      then obtain e where e: "clock w < d" "r = Inl e" "is_os_error e" by blast
      from adds_trans[OF c] 1(1)[OF e(1) call[symmetric] e(2,3) 1(2)] e call show ?thesis
        by (simp add: unfold)
    next
      case False
      with c call show ?thesis by (cases r) (auto simp: unfold)
    qed
  qed
  then show ?thesis by (simp add: adds_def wait_listening_def)
qed

lemma adds_wait_listening [quiet_adds]: "quiet P \<Longrightarrow> adds P (wait_listening E h port ms)"
  by (intro adds_listening_turns quiet_adds)

lemma adds_run_mysql [quiet_adds]: "quiet P \<Longrightarrow> adds P (run_mysql E cmd pw inp t)"
  unfolding run_mysql_def by (intro adds_intros quiet_adds)

lemma adds_resolve [adds_intros]: "adds P (resolve_binary E name)"
  unfolding resolve_binary_def by (intro adds_intros)

text \<open>A resolved binary is one \<^verbatim>\<open>shutil.which\<close> found.\<close>

lemma adds_with_binary:
  assumes "\<And>path x. e_which E name x = Some path \<Longrightarrow> adds P (n path)"
  shows "adds P (bindE (resolve_binary E name) n)"
proof (rule addsI)
  fix w r w' assume run: "bindE (resolve_binary E name) n w = (r, w')"
  show "\<exists>evs. trace w' = trace w @ evs \<and> (\<forall>ev \<in> set evs. P ev)"
  proof (cases "truthy (e_which E name (os w))")
    case True
    then obtain path where path: "e_which E name (os w) = Some path" by (auto simp: truthy_def split: option.splits)
    with run True have "n path w = (r, w')"
      by (simp add: resolve_binary_def bindE_apply getsW_apply ret_apply)
    with assms[OF path] show ?thesis by (rule addsD)
  qed (use run in \<open>auto simp: resolve_binary_def bindE_apply getsW_apply throw_apply\<close>)
qed

lemma adds_ready_turns:
  assumes turn: "\<And>path x. e_which E ''mysqladmin'' x = Some path
    \<Longrightarrow> adds P (run_mysql E (path # ''ping'' # connect_args t) (tg_password t) None 5)"
  shows "adds P (wait_ready E t timeout)"
proof -
  have "\<exists>evs. trace (snd (wait_ready_loop E cmd t timeout d err w)) = trace w @ evs \<and> (\<forall>ev \<in> set evs. P ev)"
    if "adds P (run_mysql E cmd (tg_password t) None 5)" for cmd d err w
  using that
  proof (induction E cmd t timeout d err w rule: wait_ready_loop.induct)
    case (1 E cmd t timeout d err w)
    note unfold = wait_ready_loop.simps[of E cmd t timeout d err w]
    obtain r w1 where call: "run_mysql E cmd (tg_password t) None 5 w = (r, w1)" by fastforce
    note c = addsD[OF 1(2) call]
    show ?case
    proof (cases "clock w < d \<and> (\<exists>p. r = Inr p \<and> c_returncode p \<noteq> 0)")
      case True
      then obtain p where p: "clock w < d" "r = Inr p" "c_returncode p \<noteq> 0" by blast
      from adds_trans[OF c] 1(1)[OF p(1) call[symmetric] p(2,3) 1(2)] p call show ?thesis
        by (simp add: unfold)
    next
      case False
      with c call show ?thesis by (cases r) (auto simp: unfold)
    qed
  qed
  then have loop: "adds P (\<lambda>w. wait_ready_loop E cmd t timeout (d w) err w)"
    if "adds P (run_mysql E cmd (tg_password t) None 5)" for cmd d err
    using that by (simp add: adds_def)
  show ?thesis unfolding wait_ready_def by (intro adds_with_binary loop turn)
qed

lemma adds_wait_ready [quiet_adds]: "quiet P \<Longrightarrow> adds P (wait_ready E t timeout)"
  by (intro adds_ready_turns quiet_adds)

lemma adds_healthy_turn:
  assumes docker: "\<And>args. set args \<subseteq> {''inspect'', ''--format'', ''{{.State.Health.Status}}'', c}
      \<Longrightarrow> adds P (run_proc E \<lparr>p_argv = ''docker'' # args, p_env = None, p_stdin = None, p_timeout = 5\<rparr>)"
    and tcp: "\<And>h port. adds P (tcp_connect E h port)"
  shows "adds P (healthy_turn E c st)"
proof -
  have port: "adds P (read_published_port E c)"
    unfolding read_published_port_def by (intro adds_intros docker) simp
  have ans: "adds P (port_answers E p)" for p
    unfolding port_answers_def tcp_open_def by (auto split: option.split intro!: adds_intros tcp)
  have "adds P (healthy_probe E c st)"
    unfolding healthy_probe_def Let_def by (intro adds_intros docker port ans) simp
  then show ?thesis
    unfolding healthy_turn_def by (auto split: sum.split intro!: adds_intros port ans)
qed

lemma adds_healthy_turns:
  assumes "\<And>st. adds P (healthy_turn E c st)"
  shows "adds P (wait_healthy E c t)"
proof -
  have "\<exists>evs. trace (snd (wait_healthy_loop E c t d st tcp w)) = trace w @ evs \<and> (\<forall>ev \<in> set evs. P ev)"
    for d st tcp w
  using assms
  proof (induction E c t d st tcp w rule: wait_healthy_loop.induct)
    case (1 E c t d st tcp w)
    note unfold = wait_healthy_loop.simps[of E c t d st tcp w]
    obtain r w1 where turn: "healthy_turn E c st w = (r, w1)" by fastforce
    note c = addsD[OF 1(2) turn]
    show ?case
    proof (cases "clock w < d \<and> (\<exists>st' tcp'. r = Inr (Inr (st', tcp')))")
      case True
      then obtain st' tcp' where p: "clock w < d" "r = Inr (Inr (st', tcp'))" by blast
      from adds_trans[OF c] 1(1)[OF p(1) turn[symmetric] p(2) refl refl 1(2)] p turn show ?thesis
        by (simp add: unfold)
    next
      case False
      with c turn show ?thesis by (cases r) (auto simp: unfold split: sum.split)
    qed
  qed
  then show ?thesis by (simp add: adds_def wait_healthy_def)
qed

lemma adds_wait_healthy [quiet_adds]: "quiet P \<Longrightarrow> adds P (wait_healthy E c t)"
  by (intro adds_healthy_turns adds_healthy_turn quiet_adds)

text \<open>The tunnel: its own requests, the start of \<^verbatim>\<open>ssh\<close>, and those of its body.\<close>

lemma adds_bindE_on:
  assumes "adds P m" and "\<And>w a w'. m w = (Inr a, w') \<Longrightarrow> adds P (n a)"
  shows "adds P (bindE m n)"
proof (rule addsI)
  fix w r w' assume run: "bindE m n w = (r, w')"
  obtain x w1 where m: "m w = (x, w1)" by fastforce
  show "\<exists>evs. trace w' = trace w @ evs \<and> (\<forall>ev \<in> set evs. P ev)"
  proof (cases x)
    case (Inr a)
    with run m have "n a w1 = (r, w')" by (simp add: bindE_apply)
    with addsD[OF assms(1) m] addsD[OF assms(2)[OF m[unfolded Inr]]] show ?thesis
      by (blast intro: adds_trans)
  qed (use run m addsD[OF assms(1) m] in \<open>simp add: bindE_apply\<close>)
qed

lemma adds_open_tunnel:
  assumes io: "\<And>path. P (MadeDir path)" "\<And>path. P (Opened path)" "\<And>h p. P (Connected h p)"
      "P PickedPort" "\<And>pid. P (Terminated pid)" "\<And>pid. P (Waited pid)" "\<And>pid. P (Killed pid)"
    and ssh: "\<And>port file. P (Spawned (ssh_cmd a port file))"
    and body: "\<And>t. t_local_host t = ta_bind_host a \<Longrightarrow> adds P (body t)"
  shows "adds P (open_tunnel E a body)"
proof -
  note ops = mkdir_def path_exists_def pick_local_port_def terminate_proc_def wait_proc_def kill_proc_def
  have hosts: "adds P (known_hosts_file E u)" for u
    unfolding known_hosts_file_def Let_def path_exists_def by (intro adds_intros)
  have listen: "adds P (wait_listening E h port ms)" for h port ms
    unfolding tcp_connect_def by (intro adds_listening_turns) (simp add: tcp_connect_def adds_os_call io)
  have "adds P (start_tunnel E a)"
    unfolding start_tunnel_def on_timeout_def ops Let_def
    by (auto split: exn.split option.split intro!: adds_intros io ssh hosts listen)
  moreover have "t_local_host t = ta_bind_host a" if "start_tunnel E a w = (Inr t, w')" for w t w'
    using that unfolding start_tunnel_def Let_def
    by (auto simp: bindE_Inr thenE_Inr ret_apply throw_apply split: if_splits option.splits)
  moreover have "adds P (close_tunnel E t)" for t
    unfolding close_tunnel_def on_timeout_def ops
    by (auto split: exn.split intro!: adds_intros io)
  ultimately show ?thesis
    unfolding open_tunnel_def by (intro adds_bindE_on adds_finallyE body)
qed

lemma adds_tunnel [quiet_adds]:
  "quiet P \<Longrightarrow> (\<And>t. adds P (body t)) \<Longrightarrow> adds P (open_tunnel E a body)"
  by (rule adds_open_tunnel) (simp_all add: quiet_def)

lemma adds_mysql [quiet_adds]:
  assumes "quiet P"
  shows "adds P (clone_db E t sd su sp tg td h ts xs timeout)" "adds P (apply_grants E tg sqls)"
    "adds P (set_general_log E b tg)"
proof -
  have "adds P (ensure_database E tg td)"
    unfolding ensure_database_def Let_def by (intro adds_intros quiet_adds assms)
  moreover have "adds P (mysqldump_cmd E t sd su h ts xs)" "adds P (mysql_restore_cmd E tg td)"
    unfolding mysqldump_cmd_def mysql_restore_cmd_def Let_def by (intro adds_intros)+
  ultimately show "adds P (clone_db E t sd su sp tg td h ts xs timeout)"
    unfolding clone_db_def Let_def by (auto split: exn.split intro!: adds_intros quiet_adds assms)
  show "adds P (apply_grants E tg sqls)" "adds P (set_general_log E b tg)"
    unfolding apply_grants_def set_general_log_def Let_def
    by (intro adds_intros quiet_adds assms)+
qed

lemma adds_docker [quiet_adds]:
  assumes "quiet P"
  shows "adds P (up_session E path t)" "adds P (down_session E path v t)"
  unfolding up_session_def down_session_def compose_def by (intro adds_intros quiet_adds assms)+

lemma adds_draws [adds_intros]:
  "adds P (make_cred E d)" "adds P (gen_root_password E)"
  unfolding make_cred_def gen_password_def gen_root_password_def by (intro adds_intros)+

section \<open>What is written where\<close>

lemma path_join_name:
  assumes "path_join d n = path_join d' n'" and "CHR ''/'' \<notin> set n" and "CHR ''/'' \<notin> set n'"
  shows "n = n'"
proof -
  have "takeWhile (\<lambda>c. c \<noteq> CHR ''/'') (rev (path_join x m)) = rev m" if "CHR ''/'' \<notin> set m" for x m
  proof -
    have "takeWhile (\<lambda>c. c \<noteq> CHR ''/'') (rev m @ CHR ''/'' # ys) = rev m" for ys
      using that by (subst takeWhile_append2) auto
    then show ?thesis by (simp add: path_join_def)
  qed
  from this[OF assms(2)] this[OF assms(3)] assms(1) show ?thesis by (metis rev_rev_ident)
qed

text \<open>Only the given text is written to the given file.\<close>

definition writes_only :: "string \<Rightarrow> string \<Rightarrow> event \<Rightarrow> bool" where
  "writes_only path text ev \<longleftrightarrow> (\<forall>c. ev = Wrote path c \<longrightarrow> c = utf8_encode text)"

lemma quiet_writes_only [simp]: "quiet (writes_only path text)"
  by (simp add: quiet_def writes_only_def)

lemma adds_write: "q \<noteq> path \<or> c = utf8_encode text \<Longrightarrow> adds (writes_only path text) (write_file E q c)"
  unfolding write_file_def by (auto intro!: adds_intros simp: writes_only_def)

text \<open>The compose file of a session for a bind address.\<close>

definition compose_for :: "settings \<Rightarrow> create_args \<Rightarrow> string \<Rightarrow> string \<Rightarrow> string" where
  "compose_for s a root_password bind_host = compose_text
     \<lparr>v_container_name = ca_container_name a, v_mysql_image = sandbox_mysql_image s,
      v_sid = ca_sid a, v_bind_host = bind_host, v_host_port = ca_host_port a,
      v_root_password = root_password, v_log_dir = sp_log_dir (ca_paths a),
      v_tls_dir = sp_tls_dir (ca_paths a), v_cnf_path = sp_cnf_path (ca_paths a)\<rparr>"

lemma made_paths:
  assumes "make_session_paths E sid ticket date s w = (Inr p, w')"
  shows "sp_compose_path p \<noteq> sp_cnf_path p"
    and "CHR ''/'' \<notin> set n \<Longrightarrow> n \<noteq> ''docker-compose.yml'' \<Longrightarrow> path_join d n \<noteq> sp_compose_path p"
proof -
  obtain dir where p: "sp_compose_path p = path_join dir ''docker-compose.yml''"
    "sp_cnf_path p = path_join dir ''mysqld.cnf''"
    using assms by (auto simp: make_session_paths_def Let_def thenE_Inr ret_apply)
  show other: "path_join d n \<noteq> sp_compose_path p"
    if "CHR ''/'' \<notin> set n" "n \<noteq> ''docker-compose.yml''" for d n
    using that path_join_name[of d n dir "''docker-compose.yml''"] by (auto simp: p)
  show "sp_compose_path p \<noteq> sp_cnf_path p"
    using other[of "''mysqld.cnf''" dir] by (simp add: p)
qed

lemma adds_tls:
  assumes "\<And>n. CHR ''/'' \<notin> set n \<Longrightarrow> n \<noteq> ''docker-compose.yml'' \<Longrightarrow> path_join dir n \<noteq> path"
  shows "adds (writes_only path text) (generate_session_tls E X sid dir host ip)"
proof -
  have w: "adds (writes_only path text) (write_cert E X dir n c)"
    "adds (writes_only path text) (write_key E X dir n k)"
    if "CHR ''/'' \<notin> set n" "n \<noteq> ''docker-compose.yml''" for n c k
    unfolding write_cert_def write_key_def Let_def
    using assms[OF that] by (auto intro!: adds_intros quiet_adds adds_write)
  have "adds P (build_ca E X cn)" "adds P (sign_leaf E X ca k cn dns ips b)" for P cn ca k dns ips b
    unfolding build_ca_def sign_leaf_def now_s_def by (intro adds_intros)+
  then show ?thesis
    unfolding generate_session_tls_def
    by (auto split: prod.split intro!: adds_intros quiet_adds w)
qed


section \<open>The order of a create\<close>

text \<open>Everything before the grants, and everything after them.\<close>

definition before_grants ::
    "'x service \<Rightarrow> create_args \<Rightarrow> string \<Rightarrow> ('x world, unit) prog" where
  "before_grants S a root_password =
     thenE (start_private S a root_password) (clone_all S a root_password)"

definition after_grants ::
    "'x service \<Rightarrow> 'x env \<Rightarrow> create_args \<Rightarrow> string \<Rightarrow> db_cred list \<Rightarrow> ('x world, create_result) prog"
where
  "after_grants S E a root_password creds =
     bindE (sv_render_compose S (ca_paths a) (ca_sid a) (ca_container_name a)
              (sandbox_mysql_image (sv_settings S)) ''0.0.0.0'' (ca_host_port a) root_password) (\<lambda>_.
     thenE (sv_down_session S (sp_compose_path (ca_paths a)) (Some False))
    (thenE (sv_up_session S (sp_compose_path (ca_paths a)))
    (thenE (sv_wait_healthy S (ca_container_name a) 300)
    (commit_ready S E a root_password creds))))"

lemma adds_before_grants:
  assumes paths: "make_session_paths E sid ticket date s w0 = (Inr (ca_paths a), w0')"
  shows "adds (writes_only (sp_compose_path (ca_paths a)) (compose_for s a pw ''127.0.0.1''))
    (before_grants (real_service E X s fernet) a pw)"
proof -
  let ?P = "writes_only (sp_compose_path (ca_paths a)) (compose_for s a pw ''127.0.0.1'')"
  let ?S = "real_service E X s fernet"
  have "adds ?P (render_compose E (ca_paths a) (ca_sid a) (ca_container_name a) (sandbox_mysql_image s)
      ''127.0.0.1'' (ca_host_port a) pw)"
    unfolding render_compose_def write_text_def Let_def
    by (intro adds_intros quiet_adds adds_write quiet_writes_only) (simp add: compose_for_def)
  moreover have "adds ?P (render_mysqld_cnf E (ca_paths a))"
    unfolding render_mysqld_cnf_def write_text_def
    using made_paths(1)[OF paths] by (intro adds_intros quiet_adds adds_write quiet_writes_only) auto
  moreover have "adds ?P (generate_session_tls E X (ca_sid a) (sp_tls_dir (ca_paths a)) h ip)" for h ip
    by (rule adds_tls) (rule made_paths(2)[OF paths])
  ultimately have "adds ?P (start_private ?S a pw)"
    unfolding start_private_def
    by (simp add: real_service_def) (intro adds_intros quiet_adds quiet_writes_only)
  moreover have "adds ?P (clone_all ?S a pw)"
    unfolding clone_all_def
    by (simp add: real_service_def) (intro adds_intros quiet_adds quiet_writes_only)
  ultimately show ?thesis unfolding before_grants_def by (rule adds_thenE)
qed

lemma do_create_split:
  "do_create S E a = bindE (map_eachE (make_cred E) (ca_dbs a)) (\<lambda>creds.
     bindE (sv_gen_root_password S) (\<lambda>pw.
     thenE (before_grants S a pw)
    (thenE (sv_apply_grants S (root_target a pw) [sv_render_grant_sql S (map grant_of creds)])
    (after_grants S E a pw creds))))"
  by (simp add: do_create_def before_grants_def publish_def after_grants_def thenE_def bindE_assoc)

lemma adds_after_grants: "adds (\<lambda>_. True) (after_grants (real_service E X s fernet) E a pw creds)"
proof -
  let ?S = "real_service E X s fernet"
  have q: "quiet (\<lambda>_. True)" by (simp add: quiet_def)
  have "adds (\<lambda>_. True) (render_compose E p sid c img bind port pw)" for p sid c img bind port
    unfolding render_compose_def write_text_def write_file_def Let_def
    by (intro adds_intros quiet_adds q) simp
  then have "adds (\<lambda>_. True) (sv_render_compose ?S p sid c img bind port pw)" for p sid c img bind port
    by (simp add: real_service_def)
  moreover have down: "adds (\<lambda>_. True) (sv_down_session ?S q v)" "adds (\<lambda>_. True) (sv_up_session ?S q)"
      "adds (\<lambda>_. True) (sv_wait_healthy ?S c n)" for q v c n
    by (simp_all add: real_service_def quiet_adds q)
  moreover have "adds (\<lambda>_. True) (commit_ready ?S E a pw creds)"
    unfolding commit_ready_def encrypt_creds_def Let_def by (intro adds_intros down)
  ultimately show ?thesis
    unfolding after_grants_def by (intro adds_intros)
qed

lemma adds_nothing: "adds (\<lambda>_. False) m \<Longrightarrow> m w = (r, w') \<Longrightarrow> trace w' = trace w"
  by (drule (1) addsD) auto

text \<open>A create fails while it makes up the credentials, or it reaches its first request.\<close>

lemma do_create_stages:
  assumes run: "do_create (real_service E X s fernet) E a w = (r, w')"
  obtains (early) e where "r = Inl e" and "trace w' = trace w"
  | (later) creds pw v2 x3 v3 where "trace v2 = trace w"
      and "map dc_name creds = map spec_name (ca_dbs a)"
      and "before_grants (real_service E X s fernet) a pw v2 = (x3, v3)"
      and "(\<exists>e. r = Inl e \<and> w' = v3) \<or> thenE (apply_grants E (root_target a pw)
             [render_grant_sql (map grant_of creds)])
           (after_grants (real_service E X s fernet) E a pw creds) v3 = (r, w')"
proof -
  let ?S = "real_service E X s fernet"
  have fields: "sv_gen_root_password ?S = gen_root_password E" "sv_apply_grants ?S = apply_grants E"
    "sv_render_grant_sql ?S = render_grant_sql"
    by (simp_all add: real_service_def)
  have "adds (\<lambda>_. False) (map_eachE (make_cred E) (ca_dbs a))" "adds (\<lambda>_. False) (gen_root_password E)"
    by (intro adds_intros)+
  note silent = this[THEN adds_nothing]
  obtain x1 v1 where 1: "map_eachE (make_cred E) (ca_dbs a) w = (x1, v1)" by fastforce
  obtain x2 v2 where 2: "gen_root_password E v1 = (x2, v2)" by fastforce
  have tr: "trace v1 = trace w" "trace v2 = trace w" using silent 1 2 by auto
  show thesis
  proof (cases "\<exists>creds pw. x1 = Inr creds \<and> x2 = Inr pw")
    case False
    then have "(\<exists>e. r = Inl e) \<and> (w' = v1 \<or> w' = v2)"
      using run 1 2 unfolding do_create_split fields bindE_apply by (auto split: sum.splits)
    with tr early show thesis by auto
  next
    case True
    then obtain creds pw where x: "x1 = Inr creds" "x2 = Inr pw" by blast
    obtain x3 v3 where 3: "before_grants ?S a pw v2 = (x3, v3)" by fastforce
    with run 1 2 x have "(\<exists>e. r = Inl e \<and> w' = v3) \<or> thenE (apply_grants E (root_target a pw)
        [render_grant_sql (map grant_of creds)]) (after_grants ?S E a pw creds) v3 = (r, w')"
      by (cases x3) (auto simp: do_create_split bindE_apply thenE_apply fields)
    with 3 tr(2) show thesis using 1 x by (intro later) (auto dest: created_names)
  qed
qed

text \<open>C7: A sandbox is not published before its users are restricted: whatever happens during a
  create, up to the moment \<^verbatim>\<open>apply_grants\<close> has succeeded for all the databases asked for, the only
  compose file written for the session binds 127.0.0.1; and a create that returns has passed that
  moment.\<close>

theorem published_after_grants:
  assumes build: "build_service E X s = Inr S"
    and paths: "make_session_paths E sid ticket date s w0 = (Inr (ca_paths a), w0')"
    and run: "do_create S E a w = (r, w')"
  shows "\<exists>pw creds pre w1. trace w1 = trace w @ pre
     \<and> (\<forall>c. Wrote (sp_compose_path (ca_paths a)) c \<in> set pre \<longrightarrow> c = utf8_encode (compose_for s a pw ''127.0.0.1''))
     \<and> (trace w' = trace w1 \<and> (\<exists>e. r = Inl e)
        \<or> (\<exists>w2 post. apply_grants E (root_target a pw) [render_grant_sql (map grant_of creds)] w1 = (Inr (), w2)
             \<and> map dc_name creds = map spec_name (ca_dbs a) \<and> trace w' = trace w2 @ post))"
proof -
  have S: "S = real_service E X s (sandbox_fernet_key s)" using build by (rule build_service_Inr)
  let ?path = "sp_compose_path (ca_paths a)"
  let ?private = "\<lambda>pw pre. \<forall>c. Wrote ?path c \<in> set pre \<longrightarrow> c = utf8_encode (compose_for s a pw ''127.0.0.1'')"
  from run[unfolded S] show ?thesis
  proof (cases rule: do_create_stages)
    case (early e)
    then show ?thesis by (intro exI[of _ "[]"] exI[of _ w]) auto
  next
    case (later creds pw v2 x3 v3)
    obtain pre where pre: "trace v3 = trace w @ pre" "?private pw pre"
      using addsD[OF adds_before_grants[OF paths] later(3)] later(1) by (auto simp: writes_only_def)
    obtain x4 v4 where 4: "apply_grants E (root_target a pw) [render_grant_sql (map grant_of creds)] v3 = (x4, v4)"
      by fastforce
    obtain pre' where "trace v4 = trace v3 @ pre'"
      and "\<forall>ev \<in> set pre'. writes_only ?path (compose_for s a pw ''127.0.0.1'') ev"
      using addsD[OF adds_mysql(2)[OF quiet_writes_only] 4] by blast
    with pre have pre': "trace v4 = trace w @ pre @ pre'" "?private pw (pre @ pre')"
      by (auto simp: writes_only_def)
    from later(4) 4 consider (failed) "\<exists>e. r = Inl e" "w' = v3 \<or> w' = v4"
      | (granted) "x4 = Inr ()" "after_grants S E a pw creds v4 = (r, w')"
      by (cases x4) (auto simp: S thenE_apply)
    then show ?thesis
    proof cases
      case failed
      with pre pre' show ?thesis by blast
    next
      case granted
      then obtain post where "trace w' = trace v4 @ post"
        using addsD[OF adds_after_grants] S by blast
      with pre 4 granted(1) later(2) show ?thesis by blast
    qed
  qed
qed

lemma published_after_grants_witness:
  "\<exists>a r w' pw pre (w1 :: unit world). do_create sample_service sample_env a (sample_world []) = (r, w')
     \<and> ca_dbs a = [\<lparr>spec_name = ''crm'', spec_tables = TNone\<rparr>] \<and> trace w1 = pre
     \<and> (\<forall>c. Wrote ''/c/11111111/docker-compose.yml'' c \<in> set pre
          \<longrightarrow> c = utf8_encode (compose_for sample_settings a pw ''127.0.0.1''))"
proof -
  obtain p w0' where paths: "make_session_paths sample_env ''11111111'' ''T-1'' ''2024-01-01'' sample_settings
      (sample_world []) = (Inr p, w0')" and p: "sp_compose_path p = ''/c/11111111/docker-compose.yml''"
    by (simp add: make_session_paths_def Let_def thenE_apply mkdir_def os_call_def ret_apply
        sample_env_def sample_settings_def path_join_def)
  define a where "a = \<lparr>ca_sid = ''11111111'', ca_dbs = [\<lparr>spec_name = ''crm'', spec_tables = TNone\<rparr>], ca_paths = p,
    ca_host_port = 33060, ca_container_name = ''sandbox-11111111'', ca_created_at = 1000\<rparr>"
  from paths have paths': "make_session_paths sample_env ''11111111'' ''T-1'' ''2024-01-01'' sample_settings
      (sample_world []) = (Inr (ca_paths a), w0')" by (simp add: a_def)
  obtain r w' where run: "do_create sample_service sample_env a (sample_world []) = (r, w')" by fastforce
  from published_after_grants[OF sample_build paths' run] obtain pw pre and w1 :: "unit world" where
    "trace w1 = trace (sample_world []) @ pre"
    "\<forall>c. Wrote (sp_compose_path (ca_paths a)) c \<in> set pre
       \<longrightarrow> c = utf8_encode (compose_for sample_settings a pw ''127.0.0.1'')"
    by blast
  with run p show ?thesis
    by (intro exI[of _ a] exI[of _ r] exI[of _ w'] exI[of _ pw] exI[of _ pre] exI[of _ w1])
      (simp add: sample_world_def a_def)
qed

end
