(* ===== verification/Secrets.thy ===== *)
theory Secrets
  imports Publishing
begin

text \<open>
  What other users of the host can see of a create: the command lines. The passwords travel in the
  environment and on standard input of the children (\<^verbatim>\<open>_mysql_env\<close>); here every word of every
  command line is traced back to the request and the public settings.
\<close>

section \<open>The words of the command lines\<close>

fun words :: "event \<Rightarrow> string set" where
  "words (Ran p) = set (p_argv p)"
| "words (Piped p q) = set (p_argv p) \<union> set (p_argv q)"
| "words (Spawned argv) = set argv"
| "words _ = {}"

definition docker_words :: "create_args \<Rightarrow> string set" where
  "docker_words a =
     {''docker'', ''compose'', ''-f'', sp_compose_path (ca_paths a), ''up'', ''-d'', ''down'', ''-v'',
      ''inspect'', ''--format'', ''{{.State.Health.Status}}'', ca_container_name a}"

definition ssh_words :: "settings \<Rightarrow> string set" where
  "ssh_words s = (\<Union>port file. set (ssh_cmd (tunnel_args_of s) port file))"

text \<open>The clients of the sandbox; \<^const>\<open>root_target\<close> has no password here.\<close>

definition client_words :: "create_args \<Rightarrow> string set" where
  "client_words a = set (connect_args (root_target a []))
     \<union> {''ping'', ''-e'', ''SET GLOBAL general_log = 0'', ''SET GLOBAL general_log = 1''}"

text \<open>The dump and the restore of the databases that were asked for.\<close>

definition db_words :: "dbspec \<Rightarrow> string set" where
  "db_words d = {spec_name d, create_database_sql (spec_name d)}
     \<union> set (case table_list d of None \<Rightarrow> [] | Some ts \<Rightarrow> ts)"

definition clone_words :: "settings \<Rightarrow> create_args \<Rightarrow> string set" where
  "clone_words s a =
     set mysqldump_flags \<union> {''--host='' @ sandbox_tunnel_bind_host s, ''--user='' @ prod_mysql_user s}
     \<union> range (\<lambda>port. ''--port='' @ str_of_int port)
     \<union> (\<Union>d \<in> set (ca_dbs a). db_words d)"

definition program_paths :: "'x env \<Rightarrow> string set" where
  "program_paths E = {path. \<exists>name x. e_which E name x = Some path}"

definition public_words :: "'x env \<Rightarrow> settings \<Rightarrow> create_args \<Rightarrow> string set" where
  "public_words E s a =
     program_paths E \<union> docker_words a \<union> ssh_words s \<union> client_words a \<union> clone_words s a"

section \<open>What each operation runs\<close>

definition within :: "string set \<Rightarrow> event \<Rightarrow> bool" where
  "within W ev \<longleftrightarrow> words ev \<subseteq> W"

named_theorems word_adds

lemma within_io [word_adds]:
  "adds (within W) (write_file E q c)" "adds (within W) (write_text E q txt)"
  "adds (within W) (chmod E q m)" "adds (within W) (mkdir E q)" "adds (within W) (tcp_connect E h port)"
  "adds (within W) (now_s E)"
  unfolding write_file_def write_text_def chmod_def mkdir_def tcp_connect_def now_s_def
  by (auto intro!: adds_intros simp: within_def)

lemma within_run [word_adds]: "set (p_argv p) \<subseteq> W \<Longrightarrow> adds (within W) (run_proc E p)"
  unfolding run_proc_def by (auto intro!: adds_intros simp: within_def)

lemma within_mysql [word_adds]: "set cmd \<subseteq> W \<Longrightarrow> adds (within W) (run_mysql E cmd pw inp t)"
  unfolding run_mysql_def by (intro adds_intros word_adds) simp

lemma within_tls [word_adds]: "adds (within W) (generate_session_tls E X sid dir host ip)"
proof -
  have "adds (within W) (write_cert E X d n c)" "adds (within W) (write_key E X d n k)" for d n c k
    unfolding write_cert_def write_key_def Let_def by (intro adds_intros word_adds)+
  moreover have "adds (within W) (build_ca E X cn)" "adds (within W) (sign_leaf E X ca k cn dns ips b)"
    for cn ca k dns ips b
    unfolding build_ca_def sign_leaf_def by (intro adds_intros word_adds)+
  ultimately show ?thesis
    unfolding generate_session_tls_def by (auto split: prod.split intro!: adds_intros word_adds)
qed

lemma within_render [word_adds]:
  "adds (within W) (render_compose E paths sid c img bind port pw)"
  "adds (within W) (render_mysqld_cnf E paths)"
  unfolding render_compose_def render_mysqld_cnf_def Let_def by (intro adds_intros word_adds)+

lemma within_docker:
  assumes "docker_words a \<subseteq> W"
  shows "adds (within W) (up_session E (sp_compose_path (ca_paths a)) t)"
    and "adds (within W) (down_session E (sp_compose_path (ca_paths a)) v t)"
    and "adds (within W) (wait_healthy E (ca_container_name a) t)"
  using assms unfolding up_session_def down_session_def compose_def
  by (auto simp: docker_words_def intro!: adds_intros word_adds adds_healthy_turns adds_healthy_turn)

lemma within_clients:
  assumes "program_paths E \<subseteq> W" and "client_words a \<subseteq> W"
  shows "adds (within W) (wait_ready E (root_target a pw) t)"
    and "adds (within W) (set_general_log E b (root_target a pw))"
    and "adds (within W) (apply_grants E (root_target a pw) sqls)"
proof -
  have path: "e_which E name x = Some path \<Longrightarrow> path \<in> W" for name x path
    using assms(1) by (auto simp: program_paths_def)
  have args: "set (connect_args (root_target a pw)) \<subseteq> W"
    using assms(2) by (auto simp: client_words_def connect_args_def root_target_def)
  have more: "''ping'' \<in> W" "''-e'' \<in> W" "''SET GLOBAL general_log = 0'' \<in> W" "''SET GLOBAL general_log = 1'' \<in> W"
    using assms(2) by (auto simp: client_words_def)
  show "adds (within W) (wait_ready E (root_target a pw) t)"
    by (intro adds_ready_turns word_adds) (use args more path in auto)
  show "adds (within W) (set_general_log E b (root_target a pw))"
    unfolding set_general_log_def Let_def
    by (intro adds_with_binary adds_intros word_adds) (use args more path in auto)
  show "adds (within W) (apply_grants E (root_target a pw) sqls)"
    unfolding apply_grants_def Let_def
    by (intro adds_with_binary adds_intros word_adds) (use args path in auto)
qed

lemma within_clone:
  assumes W: "public_words E s a \<subseteq> W" and spec: "spec \<in> set (ca_dbs a)"
    and host: "t_local_host t = sandbox_tunnel_bind_host s"
  shows "adds (within W) (clone_db E t (spec_name spec) (prod_mysql_user s) su (root_target a pw)
    (spec_name spec) (Some (t_local_host t)) (case table_list spec of None \<Rightarrow> [] | Some ts \<Rightarrow> ts) [] timeout)"
proof -
  let ?ts = "case table_list spec of None \<Rightarrow> [] | Some ts \<Rightarrow> ts"
  have path: "e_which E name x = Some path \<Longrightarrow> path \<in> W" for name x path
    using W by (auto simp: public_words_def program_paths_def)
  have args: "set (connect_args (root_target a pw)) \<subseteq> W" and e: "''-e'' \<in> W"
    using W by (auto simp: public_words_def client_words_def connect_args_def root_target_def)
  have clone: "clone_words s a \<subseteq> W" using W by (simp add: public_words_def)
  have "db_words spec \<subseteq> clone_words s a" using spec by (auto simp: clone_words_def)
  with clone have db: "spec_name spec \<in> W" "create_database_sql (spec_name spec) \<in> W" "set ?ts \<subseteq> W"
    by (auto simp: db_words_def)
  have ensure: "adds (within W) (ensure_database E (root_target a pw) (spec_name spec))"
    unfolding ensure_database_def
    by (intro adds_with_binary adds_intros word_adds) (use path args e db in auto)
  have flags: "set mysqldump_flags \<subseteq> W" and source: "''--host='' @ t_local_host t \<in> W"
    "''--user='' @ prod_mysql_user s \<in> W" "''--port='' @ str_of_int (t_local_port t) \<in> W"
    using clone by (auto simp: clone_words_def host)
  have dump: "set (path # mysqldump_flags @ [''--host='' @ t_local_host t,
      ''--port='' @ str_of_int (t_local_port t), ''--user='' @ prod_mysql_user s] @ [] @ [spec_name spec] @ ?ts) \<subseteq> W"
    if "path \<in> W" for path
    unfolding set_append set_simps by (intro Un_least insert_subsetI empty_subsetI that flags source db)
  have pipe: "within W (Piped
      \<lparr>p_argv = path # mysqldump_flags @ [''--host='' @ t_local_host t,
         ''--port='' @ str_of_int (t_local_port t), ''--user='' @ prod_mysql_user s] @ [] @ [spec_name spec] @ ?ts,
       p_env = e1, p_stdin = None, p_timeout = 30\<rparr>
      \<lparr>p_argv = path' # connect_args (root_target a pw) @ [spec_name spec],
       p_env = e2, p_stdin = None, p_timeout = timeout\<rparr>)"
    if "path \<in> W" "path' \<in> W" for path path' e1 e2
    using dump[OF that(1)] args db(1) that(2) by (simp add: within_def)
  show ?thesis
    unfolding clone_db_def mysqldump_cmd_def mysql_restore_cmd_def Let_def bindE_assoc bindE_ret option.case
    by (intro adds_thenE ensure adds_with_binary adds_bindE adds_catchE adds_os_call pipe; (erule path)?)
      (auto split: exn.split intro!: adds_intros)
qed

lemma within_start:
  assumes W: "public_words E s a \<subseteq> W"
  shows "adds (within W) (start_private (real_service E X s fernet) a pw)"
proof -
  have "docker_words a \<subseteq> W" "program_paths E \<subseteq> W" "client_words a \<subseteq> W"
    using W by (simp_all add: public_words_def)
  then show ?thesis
    unfolding start_private_def
    by (simp add: real_service_def) (intro adds_intros word_adds within_docker within_clients)
qed

lemma adds_for_each_in: "(\<And>x. x \<in> set xs \<Longrightarrow> adds P (g x)) \<Longrightarrow> adds P (for_eachE g xs)"
  by (induction xs) (auto intro: adds_intros)

lemma within_clone_all:
  assumes W: "public_words E s a \<subseteq> W"
  shows "adds (within W) (clone_all (real_service E X s fernet) a pw)"
proof -
  let ?spec = "\<lambda>t spec. clone_db E t (spec_name spec) (prod_mysql_user s) (prod_mysql_password s)
    (root_target a pw) (spec_name spec) (Some (t_local_host t))
    (case table_list spec of None \<Rightarrow> [] | Some ts \<Rightarrow> ts) [] 7200"
  have log: "adds (within W) (set_general_log E b (root_target a pw))" for b
    using W by (intro within_clients) (simp_all add: public_words_def)
  have ssh: "within W (Spawned (ssh_cmd (tunnel_args_of s) port known))" for port known
  proof -
    have "set (ssh_cmd (tunnel_args_of s) port known) \<subseteq> ssh_words s" unfolding ssh_words_def by blast
    also have "\<dots> \<subseteq> W" using W by (simp add: public_words_def)
    finally show ?thesis by (simp add: within_def)
  qed
  have "adds (within W) (for_eachE (?spec t) (ca_dbs a))"
    if "t_local_host t = ta_bind_host (tunnel_args_of s)" for t
    using that by (intro adds_for_each_in within_clone[OF W]) (simp_all add: tunnel_args_of_def)
  then have "adds (within W) (open_tunnel E (tunnel_args_of s) (\<lambda>t. for_eachE (?spec t) (ca_dbs a)))"
    by (intro adds_open_tunnel ssh) (simp_all add: within_def)
  with log show ?thesis
    unfolding clone_all_def
    by (simp add: real_service_def) (intro adds_intros)
qed

lemma within_publish:
  assumes W: "public_words E s a \<subseteq> W"
  shows "adds (within W) (publish (real_service E X s fernet) a pw creds)"
    and "adds (within W) (commit_ready (real_service E X s fernet) E a pw creds)"
proof -
  have sub: "docker_words a \<subseteq> W" "program_paths E \<subseteq> W" "client_words a \<subseteq> W"
    using W by (simp_all add: public_words_def)
  show "adds (within W) (publish (real_service E X s fernet) a pw creds)"
    unfolding publish_def
    by (simp add: real_service_def) (intro adds_intros word_adds within_docker within_clients sub)
  have "adds (within W) (sv_down_session (real_service E X s fernet) (sp_compose_path (ca_paths a)) v)" for v
    by (simp add: real_service_def within_docker sub)
  then show "adds (within W) (commit_ready (real_service E X s fernet) E a pw creds)"
    unfolding commit_ready_def encrypt_creds_def Let_def by (intro adds_intros)
qed

section \<open>No password on a command line\<close>

lemma public_words_no_password:
  "public_words E (s\<lparr>prod_mysql_password := p\<rparr>) a = public_words E s a"
  by (simp add: public_words_def ssh_words_def clone_words_def tunnel_args_of_def)

text \<open>C12: No password shows on a command line: every word of every command a create runs is a docker,
  ssh or MySQL word made of the session's id, paths and port, the names that were asked for and the
  settings, and these words do not depend on the production password; the root password and those
  of the users do not enter them at all.\<close>

theorem passwords_off_command_lines:
  assumes "build_service E X s = Inr S" and "do_create S E a w = (r, w')"
  shows "\<exists>evs. trace w' = trace w @ evs
     \<and> (\<forall>ev \<in> set evs. words ev \<subseteq> public_words E (s\<lparr>prod_mysql_password := p\<rparr>) a)"
proof -
  have S: "S = real_service E X s (sandbox_fernet_key s)" using assms(1) by (rule build_service_Inr)
  have "adds (within (public_words E s a)) (do_create S E a)"
    unfolding do_create_def S
    by (intro adds_intros within_start within_clone_all within_publish subset_refl)
      (simp add: real_service_def adds_draws)
  from addsD[OF this assms(2)] show ?thesis by (simp add: public_words_no_password within_def)
qed

definition sample_args :: create_args where
  "sample_args = \<lparr>ca_sid = ''11111111'', ca_dbs = [\<lparr>spec_name = ''crm'', spec_tables = TNone\<rparr>],
     ca_paths = \<lparr>sp_session_dir = ''/c/11111111'', sp_compose_path = ''/c/11111111/docker-compose.yml'',
       sp_cnf_path = ''/c/11111111/mysqld.cnf'', sp_tls_dir = ''/t/11111111'', sp_log_dir = ''/l/11111111''\<rparr>,
     ca_host_port = 33060, ca_container_name = ''sandbox-11111111'', ca_created_at = 1000\<rparr>"

lemma passwords_off_command_lines_witness:
  "\<exists>evs. trace (snd (do_create sample_service sample_env sample_args (sample_world [])))
       = trace (sample_world []) @ evs
     \<and> (\<forall>ev \<in> set evs. words ev \<subseteq> public_words sample_env
          (sample_settings\<lparr>prod_mysql_password := ''other''\<rparr>) sample_args)"
  using passwords_off_command_lines[OF sample_build prod.collapse[symmetric]] .

end
