(* ===== verification/Access.thy ===== *)
theory Access
  imports Http
begin

text \<open>
  Cloudflare Access over time: the state of the JWKS cache after any sequence of checked requests,
  and what a request that passes, or fails, the check tells about its token.
\<close>

section \<open>The cache along the requests\<close>

text \<open>
  The caches the process can hold at a time: the empty one, what a check left behind, under
  any settings and answers of the JWT library, and the cache after \<^verbatim>\<open>invalidate\<close>. The clock never runs backwards.
\<close>

inductive cf_cache :: "(string \<Rightarrow> nat \<Rightarrow> 'c) \<Rightarrow> nat \<Rightarrow> 'c jwks_cache \<Rightarrow> bool"
  for new_client where
  start: "cf_cache new_client now empty_jwks"
| checked: "cf_cache new_client before cache \<Longrightarrow> before \<le> now
    \<Longrightarrow> enforce_cf_access new_client decode s now token cache = (r, cache')
    \<Longrightarrow> cf_cache new_client now cache'"
| invalidated: "cf_cache new_client now cache \<Longrightarrow> cf_cache new_client now (jwks_invalidate cache)"

text \<open>A cached client was made for the cached URL, at a time that has passed.\<close>

definition jwks_ok :: "(string \<Rightarrow> nat \<Rightarrow> 'c) \<Rightarrow> nat \<Rightarrow> 'c jwks_cache \<Rightarrow> bool" where
  "jwks_ok new_client now cache \<longleftrightarrow> (\<forall>c. j_client cache = Some c \<longrightarrow>
     (\<exists>url. j_url cache = Some url \<and> c = new_client url (j_fetched_at cache) \<and> j_fetched_at cache \<le> now))"

lemma jwks_get_ok:
  assumes "jwks_ok new_client before cache" and "before \<le> now"
    and "jwks_get new_client now url cache = (c, cache')"
  shows "jwks_ok new_client now cache'
     \<and> (\<exists>fetched. fetched \<le> now \<and> now \<le> fetched + JWKS_CACHE_TTL_MS \<and> c = new_client url fetched)"
  using assms
  by (auto simp: jwks_ok_def jwks_get_def Let_def split: option.splits if_splits
      intro: exI[of _ "j_fetched_at cache"])

lemma decode_cf_jwt_ok:
  assumes "jwks_ok new_client before cache" and "before \<le> now"
    and "decode_cf_jwt new_client decode s now token cache = (r, cache')"
  shows "jwks_ok new_client now cache'"
  using assms jwks_get_ok[OF assms(1,2)]
  by (auto simp: decode_cf_jwt_def jwks_ok_def split: if_splits prod.splits sum.splits)

lemma cf_cache_ok: "cf_cache new_client now cache \<Longrightarrow> jwks_ok new_client now cache"
proof (induction rule: cf_cache.induct)
  case (checked before cache now s token r cache')
  then have later: "jwks_ok new_client now cache" by (auto simp: jwks_ok_def)
  from checked show ?case
    unfolding enforce_cf_access_def using later
    by (auto simp: ret_apply split: if_splits intro: decode_cf_jwt_ok)
qed (simp_all add: jwks_ok_def empty_jwks_def jwks_invalidate_def)

text \<open>C22: When Cloudflare Access is on, a request passes only with a token that the JWT library
  accepted for the configured audience, signed with RS256 and with \<^verbatim>\<open>exp\<close> and \<^verbatim>\<open>iat\<close>, with the
  keys of the configured URL fetched at most an hour ago, whatever requests came before; otherwise
  nothing happens, and the error is 401 for a missing token or the one the library's exception is
  translated to.\<close>

theorem cf_access_verified:
  assumes on: "cf_access_enabled s" "\<not> sandbox_test_mode s"
    and cache: "cf_cache new_client before cache" "before \<le> now"
    and run: "enforce_cf_access new_client decode s now token cache = (r, cache')"
  shows "case r of
      Inr i \<Rightarrow> \<exists>tok url aud fetched. token = Some tok \<and> sandbox_cf_access_certs_url s = Some url
        \<and> sandbox_cf_access_aud s = Some aud \<and> fetched \<le> now \<and> now \<le> fetched + JWKS_CACHE_TTL_MS
        \<and> decode (new_client url fetched) tok [''RS256''] aud [''exp'', ''iat''] = Inr (ai_raw i)
    | Inl e \<Rightarrow> serve S E r api_key req w = (Inl e, w)
        \<and> (e = HTTPException 401 ''missing Cf-Access-Jwt-Assertion'' \<and> \<not> truthy token
           \<or> (\<exists>tok client aud e'. token = Some tok \<and> e = cf_http_error e'
                \<and> decode client tok [''RS256''] aud [''exp'', ''iat''] = Inl e'))"
proof -
  from on obtain url aud where conf: "sandbox_cf_access_certs_url s = Some url" "sandbox_cf_access_aud s = Some aud"
    by (auto simp: cf_access_enabled_def truthy_def split: option.splits)
  let ?tok = "case token of None \<Rightarrow> [] | Some t \<Rightarrow> t"
  have dec: "decode_cf_jwt new_client decode s now ?tok cache = (r, cache')"
    using run on by (simp add: enforce_cf_access_def)
  obtain client cache'' where get: "jwks_get new_client now url cache = (client, cache'')" by fastforce
  then obtain fetched where "fetched \<le> now" "now \<le> fetched + JWKS_CACHE_TTL_MS" "client = new_client url fetched"
    using jwks_get_ok[OF cf_cache_ok[OF cache(1)] cache(2)] by blast
  with dec get conf show ?thesis
    by (cases token) (auto simp: decode_cf_jwt_def serve_def guarded_def throw_apply truthy_def
        split: if_splits sum.splits)
qed

text \<open>Two requests half an hour apart: the second is checked with the keys of the first.\<close>

lemma cf_access_verified_witness:
  "let s = sample_settings\<lparr>sandbox_cf_access_aud := Some ''aud'', sandbox_cf_access_certs_url := Some ''url''\<rparr>;
       decode = (\<lambda>(url, t) tok algs aud claims. if tok = ''good'' then Inr [(''sub'', JInt (int t))]
                                   else Inl (InvalidTokenError ''bad''));
       check = (\<lambda>now tok. enforce_cf_access Pair decode s now tok) in
   case check 1800000 (Some ''good'') (snd (check 5 (Some ''bad'') empty_jwks)) of
     (Inr i, _) \<Rightarrow> \<exists>fetched \<le> 1800000. decode (''url'', fetched) ''good'' [''RS256''] ''aud'' [''exp'', ''iat''] = Inr (ai_raw i)
   | (Inl e, _) \<Rightarrow> False"
proof -
  define s where "s = sample_settings\<lparr>sandbox_cf_access_aud := Some ''aud'', sandbox_cf_access_certs_url := Some ''url''\<rparr>"
  define decode :: "string \<times> nat \<Rightarrow> string \<Rightarrow> string list \<Rightarrow> string \<Rightarrow> string list \<Rightarrow> exn + (string \<times> json) list"
    where "decode = (\<lambda>(url, t) tok algs aud claims. if tok = ''good'' then Inr [(''sub'', JInt (int t))]
      else Inl (InvalidTokenError ''bad''))"
  have on: "cf_access_enabled s" "\<not> sandbox_test_mode s" and url: "sandbox_cf_access_certs_url s = Some ''url''"
    "sandbox_cf_access_aud s = Some ''aud''"
    by (simp_all add: s_def sample_settings_def cf_access_enabled_def truthy_def)
  obtain r1 c1 where 1: "enforce_cf_access Pair decode s 5 (Some ''bad'') empty_jwks = (r1, c1)" by fastforce
  have cache: "cf_cache Pair 5 c1"
    by (rule cf_cache.checked[OF cf_cache.start order_refl 1])
  obtain r2 c2 where 2: "enforce_cf_access Pair decode s 1800000 (Some ''good'') c1 = (r2, c2)" by fastforce
  then have "\<exists>i. r2 = Inr i"
    using on by (auto simp: enforce_cf_access_def decode_cf_jwt_def decode_def split: prod.splits if_splits)
  with cf_access_verified[OF on cache _ 2] url 1 2 show ?thesis
    by (auto simp: Let_def s_def[symmetric] decode_def[symmetric])
qed

end
