(* ===== verification/Spec2Isabelle.thy ===== *)
theory Spec2Isabelle
  imports Runs Races Secrets Access
begin

text \<open>
  A model of the sandbox service under \<^verbatim>\<open>api/\<close>: an HTTP service that clones tables of a
  production MySQL server, through an SSH tunnel, into a throw-away MySQL container, hands out
  credentials and certificates for it, and ends the container when its time is over.

  \<^bold>\<open>The parts and how they interact.\<close> \<^verbatim>\<open>main.py\<close> checks a request (\<^verbatim>\<open>auth.py\<close>,
  \<^verbatim>\<open>models.py\<close>) and calls \<^verbatim>\<open>service.py\<close>. A create reserves a row and a port in the
  session store (\<^verbatim>\<open>state.py\<close>), makes certificates (\<^verbatim>\<open>tls_ops.py\<close>) and passwords
  (\<^verbatim>\<open>crypto.py\<close>), starts a container bound to loopback (\<^verbatim>\<open>docker_ops.py\<close>), clones over the
  tunnel (\<^verbatim>\<open>ssh_tunnel.py\<close>, \<^verbatim>\<open>mysql_ops.py\<close>), applies the grants, publishes the container
  and marks the row ready. \<^verbatim>\<open>reaper.py\<close> runs beside the API on the same store and ends what
  has expired or is stuck.

  \<^bold>\<open>Which theory models what.\<close>
  \<^item> \<open>Prelude\<close>: programs \<open>('w, 'a) prog\<close> on an explicit state, with Python's exceptions as the
    datatype \<open>exn\<close>; \<^verbatim>\<open>try/except\<close>, \<^verbatim>\<open>try/finally\<close>, \<^verbatim>\<open>for\<close>; frame and Hoare rules as
    collections of introduction rules (\<open>frame_intros\<close>, \<open>triple_intros\<close>, \<open>yields_intros\<close>).
  \<^item> \<open>Text\<close>, \<open>Json\<close>: the text functions of the standard library the code calls, UTF-8, and
    \<^verbatim>\<open>json.dumps\<close> and \<^verbatim>\<open>json.loads\<close> on the values the code stores.
  \<^item> \<open>Config\<close> (\<^verbatim>\<open>config.py\<close>), \<open>State\<close> (\<^verbatim>\<open>state.py\<close>: the table is the list of its rows, one
    program per function), \<open>Models\<close> (\<^verbatim>\<open>models.py\<close>), \<open>Auth\<close> (\<^verbatim>\<open>auth.py\<close>), \<open>Crypto\<close>
    (\<^verbatim>\<open>crypto.py\<close>, SHA-256 and HMAC on \<open>32 word\<close>), \<open>Tls_Ops\<close> (\<^verbatim>\<open>tls_ops.py\<close>).
  \<^item> \<open>Runtime\<close>: the machine. Its \<open>env\<close> is a parameter (the system calls, docker, mysql, ssh, the
    network, the random source, Fernet) on an unknown state; a \<open>world\<close> joins that state with the
    store, the clock and the trace of the requests made so far.
  \<^item> \<open>Docker_Ops\<close> (\<^verbatim>\<open>docker_ops.py\<close>), \<open>Ssh_Tunnel\<close> (\<^verbatim>\<open>ssh_tunnel.py\<close>), \<open>Mysql_Ops\<close>
    (\<^verbatim>\<open>mysql_ops.py\<close>): the operations over that machine, with their command lines, files,
    waiting loops and clean-up.
  \<^item> \<open>Service\<close> (\<^verbatim>\<open>service.py\<close>): create, view, extend, end. As in the code, the operations the
    service uses are the fields of its dependency record; \<open>real_service\<close> is what the application
    plugs in. \<open>Reaper\<close> (\<^verbatim>\<open>reaper.py\<close>) and \<open>Http\<close> (\<^verbatim>\<open>main.py\<close>, with the dependencies each
    route declares) stand on it.
  \<^item> \<open>System\<close>: the service with its threads. A step is one store operation of one handler in
    progress, any other may come between, and a handler may die at any point.

  \<^bold>\<open>What the lemmas show.\<close>
  \<^item> \<open>Progress\<close> and \<open>Guarantees\<close>: when the surroundings cooperate a create returns, and then the
    row, the credentials and the answer agree; when anything fails the row ends in error and the
    removal of container, volume and files has been asked for; extending happens once and never
    past the limit; ending twice is the same as ending once.
  \<^item> \<open>Reaper\<close>: a pass tries to tear down exactly the expired and the stuck rows and ends exactly those
    whose teardown worked (\<open>pass_teardowns\<close> states what the teardowns of a pass are, apart from the
    pass), one that failed does not hold up the others and is tried again by the later passes, and no
    row that still has time is touched.
  \<^item> \<open>Http\<close> and \<open>Access\<close>: a request that fails its checks changes nothing, which status each outcome
    has, that a session can be read as it was announced, and how long the keys of Cloudflare Access
    are trusted.
  \<^item> \<open>System\<close> and \<open>Runs\<close>: the invariant of the concurrent service (ids and held ports are unique,
    ports in the range, times fit the status, a create owns its row) by rule induction over
    reachable states, no step revives an ended session, and the handlers of the code are runs of the
    step relation. \<open>Races\<close> shows what the interleavings do allow.
  \<^item> \<open>Components\<close>, \<open>Publishing\<close>, \<open>Secrets\<close>: what each component promises by itself; the order in
    which a create writes its files: nothing binds a public address before the grants are applied;
    and the command lines of a create, which never show a password.
\<close>

text \<open>
  \<^bold>\<open>Interfaces.\<close> A \<open>codec\<close> (a round trip; interpreted by UTF-8 and by both forms of JSON), a
  \<open>row_update\<close> and its extension \<open>port_safe_update\<close> (an update of one row, and one that takes no
  port; interpreted by every \<^verbatim>\<open>UPDATE ... WHERE id = ?\<close> of \<^verbatim>\<open>state.py\<close>), a \<open>port_allocator\<close> (interpreted
  by \<^verbatim>\<open>allocate_port\<close>), \<open>store_neutral\<close> (the operations a service is given leave the store alone;
  interpreted by \<open>real_service\<close>) and \<open>neutral_down\<close> (the same of the teardown the reaper is
  given; interpreted by \<^verbatim>\<open>docker compose down\<close>).

  \<^bold>\<open>Bounds and fuel.\<close> The waiting loops are recursions on the time left to their deadline, in
  milliseconds: each turn sleeps 2000 (container health), 1000 (MySQL) or 100 (tunnel), so they are
  total. Integers of the code are unbounded and are \<open>int\<close>; the words of SHA-256 wrap at 32 bits.
  The JSON parser has fuel twice the length of its input plus two: each level of its recursion
  consumes a character or is entered at most once between two that do, and the round trip shows
  that this is enough for every dumped value. The reaper's loop is given the list of its wake-ups.

  \<^bold>\<open>Not modelled.\<close> SQLite itself (a statement is atomic and does not fail for lack of disk or
  lock; a transaction rolls back on an exception); FastAPI's routing and decoding of bodies,
  pydantic's conversions, and the formatting of times in answers; the order in which the reaper's
  thread pool runs its teardowns inside one pass (the order of submission is taken, \<open>System\<close> has
  every order between handlers); the exception of \<^verbatim>\<open>datetime.fromtimestamp\<close> for lifetimes of
  thousands of years; closing the log file of ssh; bodies that are no JSON, which FastAPI answers
  before any code of the application but the webhook's; the inner working of Fernet, JWT, X.509 and the operating system,
  which are parameters; \<^verbatim>\<open>KeyboardInterrupt\<close>; lines 194 to 218 of \<^verbatim>\<open>service.py\<close>, which can
  never run; the deployment files, scripts and tests.
\<close>

end
